(* ===== verification/KvApi.thy ===== *)
theory KvApi
  imports GoPrelude
begin

text \<open>
  The public surface of the key-value primitive, \<^verbatim>\<open>internal/primitives/db/kv.go\<close>: its data types,
  the \<^verbatim>\<open>KV\<close> interface as a record of operations, and the contract that the comments of the
  interface give it. The contract is the locale \<^verbatim>\<open>kv_contract\<close>: the operations refine a map from
  keys to a value and a version. A client that holds a \<^verbatim>\<open>KV\<close> (the leader election) is verified
  against the contract; \<^verbatim>\<open>RaftKv\<close> interprets it on the model of \<^verbatim>\<open>raft.go\<close>.
\<close>

section \<open>Data types of kv.go\<close>

definition ErrNotFound :: go_error where
  "ErrNotFound = ErrorString ''kv: key not found''"

definition ErrCASMismatch :: go_error where
  "ErrCASMismatch = ErrorString ''kv: cas version mismatch''"

lemma kv_errors_distinct [simp]: "ErrNotFound \<noteq> ErrCASMismatch" "ErrCASMismatch \<noteq> ErrNotFound"
  by (simp_all add: ErrNotFound_def ErrCASMismatch_def)

record Entry =
  en_Key :: string
  en_Value :: bytes
  en_Version :: u64
  en_Deleted :: bool
  en_CreatedAt :: time

record WatchOptions =
  wo_Prefix :: string
  wo_Since :: u64
  wo_Timeout :: duration

record Snapshot =
  sn_Revision :: u64
  sn_Entries :: "Entry list"

record Peer =
  peer_ID :: string
  peer_Address :: string

record Config =
  cfg_NodeID :: string
  cfg_DataDir :: string
  cfg_Listen :: string
  cfg_Bootstrap :: bool
  cfg_Peers :: "Peer list"

text \<open>
  The interface \<^verbatim>\<open>KV\<close>: the operations a client calls, over the state \<^typ>\<open>'s\<close> of the store. Put and
  CompareAndSwap return a pointer to an entry, which may be nil.
\<close>

record 's KV =
  kv_Get :: "'s \<Rightarrow> string \<Rightarrow> Entry outcome"
  kv_Put :: "time \<Rightarrow> string \<Rightarrow> bytes \<Rightarrow> 's \<Rightarrow> Entry option outcome \<times> 's"
  kv_Delete :: "time \<Rightarrow> string \<Rightarrow> 's \<Rightarrow> unit outcome \<times> 's"
  kv_CompareAndSwap :: "time \<Rightarrow> string \<Rightarrow> bytes \<Rightarrow> u64 \<Rightarrow> 's \<Rightarrow> Entry option outcome \<times> 's"
  kv_List :: "'s \<Rightarrow> string \<Rightarrow> Entry list outcome"

section \<open>The abstract store\<close>

text \<open>The specification: a map from keys to a value and its version.\<close>

type_synonym kvmap = "string \<Rightarrow> (bytes \<times> u64) option"

definition next_version :: "kvmap \<Rightarrow> string \<Rightarrow> u64" where
  "next_version m k = (case m k of None \<Rightarrow> 1 | Some (_, n) \<Rightarrow> n + 1)"

definition spec_put :: "string \<Rightarrow> bytes \<Rightarrow> kvmap \<Rightarrow> kvmap" where
  "spec_put k v m = m(k \<mapsto> (v, next_version m k))"

definition spec_del :: "string \<Rightarrow> kvmap \<Rightarrow> kvmap" where
  "spec_del k m = m(k := None)"

definition cas_matches :: "kvmap \<Rightarrow> string \<Rightarrow> u64 \<Rightarrow> bool" where
  "cas_matches m k n \<longleftrightarrow> (case m k of None \<Rightarrow> n = 0 | Some (_, c) \<Rightarrow> c = n)"

definition entry_holds :: "Entry \<Rightarrow> string \<Rightarrow> bytes \<Rightarrow> u64 \<Rightarrow> bool" where
  "entry_holds e k v n \<longleftrightarrow> en_Key e = k \<and> en_Value e = v \<and> en_Version e = n \<and> \<not> en_Deleted e"

text \<open>A client's commands, what it observes of each, and the observations the abstract map gives.\<close>

datatype kv_cmd = CGet string | CPut string bytes | CDelete string | CCas string bytes u64

datatype kv_obs = Observed string bytes u64 | Done | Failed go_error | Crashed

fun observe :: "Entry option outcome \<Rightarrow> kv_obs" where
  "observe (Ok (Some e)) = Observed (en_Key e) (en_Value e) (en_Version e)"
| "observe (Ok None) = Done"
| "observe (Err x) = Failed x"
| "observe (Panic _) = Crashed"

fun observe_unit :: "unit outcome \<Rightarrow> kv_obs" where
  "observe_unit (Ok _) = Done"
| "observe_unit (Err x) = Failed x"
| "observe_unit (Panic _) = Crashed"

fun observe_get :: "Entry outcome \<Rightarrow> kv_obs" where
  "observe_get (Ok e) = Observed (en_Key e) (en_Value e) (en_Version e)"
| "observe_get (Err x) = Failed x"
| "observe_get (Panic _) = Crashed"

fun exec_cmd :: "'s KV \<Rightarrow> time \<Rightarrow> kv_cmd \<Rightarrow> 's \<Rightarrow> kv_obs \<times> 's" where
  "exec_cmd K t (CGet k) s = (observe_get (kv_Get K s k), s)"
| "exec_cmd K t (CPut k v) s = (case kv_Put K t k v s of (r, s') \<Rightarrow> (observe r, s'))"
| "exec_cmd K t (CDelete k) s = (case kv_Delete K t k s of (r, s') \<Rightarrow> (observe_unit r, s'))"
| "exec_cmd K t (CCas k v n) s = (case kv_CompareAndSwap K t k v n s of (r, s') \<Rightarrow> (observe r, s'))"

fun exec_cmds :: "'s KV \<Rightarrow> (time \<times> kv_cmd) list \<Rightarrow> 's \<Rightarrow> kv_obs list \<times> 's" where
  "exec_cmds K [] s = ([], s)"
| "exec_cmds K ((t, c) # cs) s =
     (case exec_cmd K t c s of (x, s') \<Rightarrow>
       (case exec_cmds K cs s' of (xs, s'') \<Rightarrow> (x # xs, s'')))"

fun spec_cmd :: "kv_cmd \<Rightarrow> kvmap \<Rightarrow> kv_obs \<times> kvmap" where
  "spec_cmd (CGet k) m =
     ((case m k of None \<Rightarrow> Failed ErrNotFound | Some (v, n) \<Rightarrow> Observed k v n), m)"
| "spec_cmd (CPut k v) m = (Observed k v (next_version m k), spec_put k v m)"
| "spec_cmd (CDelete k) m = (Done, spec_del k m)"
| "spec_cmd (CCas k v n) m =
     (if cas_matches m k n then (Observed k v (next_version m k), spec_put k v m)
      else (Failed ErrCASMismatch, m))"

fun spec_cmds :: "kv_cmd list \<Rightarrow> kvmap \<Rightarrow> kv_obs list \<times> kvmap" where
  "spec_cmds [] m = ([], m)"
| "spec_cmds (c # cs) m =
     (case spec_cmd c m of (x, m') \<Rightarrow> (case spec_cmds cs m' of (xs, m'') \<Rightarrow> (x # xs, m'')))"

section \<open>The contract\<close>

text \<open>
  \<^verbatim>\<open>wf\<close> is the provider's invariant, \<^verbatim>\<open>room\<close> the number of writes its log still has indices for, and
  \<^verbatim>\<open>abs\<close> the map it stores.
\<close>

locale kv_contract =
  fixes K :: "'s KV"
    and wf :: "'s \<Rightarrow> bool"
    and room :: "'s \<Rightarrow> nat"
    and abs :: "'s \<Rightarrow> kvmap"
  assumes Get_absent: "wf s \<Longrightarrow> abs s k = None \<Longrightarrow> kv_Get K s k = Err ErrNotFound"
    and Get_present:
      "wf s \<Longrightarrow> abs s k = Some (v, n) \<Longrightarrow> \<exists>e. kv_Get K s k = Ok e \<and> entry_holds e k v n"
    and Put_law: "wf s \<Longrightarrow> 0 < room s \<Longrightarrow>
      \<exists>e s'. kv_Put K t k v s = (Ok (Some e), s') \<and> entry_holds e k v (next_version (abs s) k)
        \<and> wf s' \<and> room s' = room s - 1 \<and> abs s' = spec_put k v (abs s)"
    and Delete_law: "wf s \<Longrightarrow> 0 < room s \<Longrightarrow>
      \<exists>s'. kv_Delete K t k s = (Ok (), s') \<and> wf s' \<and> room s' = room s - 1
        \<and> abs s' = spec_del k (abs s)"
    and Cas_mismatch: "wf s \<Longrightarrow> \<not> cas_matches (abs s) k n \<Longrightarrow>
      kv_CompareAndSwap K t k v n s = (Err ErrCASMismatch, s)"
    and Cas_match: "wf s \<Longrightarrow> 0 < room s \<Longrightarrow> cas_matches (abs s) k n \<Longrightarrow>
      \<exists>e s'. kv_CompareAndSwap K t k v n s = (Ok (Some e), s')
        \<and> entry_holds e k v (next_version (abs s) k)
        \<and> wf s' \<and> room s' = room s - 1 \<and> abs s' = spec_put k v (abs s)"
begin

lemma exec_cmd_refines:
  assumes "wf s" and "0 < room s"
  shows "\<exists>s'. exec_cmd K t c s = (fst (spec_cmd c (abs s)), s') \<and> wf s'
    \<and> room s - 1 \<le> room s' \<and> abs s' = snd (spec_cmd c (abs s))"
proof (cases c)
  case (CGet k)
  show ?thesis
  proof (cases "abs s k")
    case None
    with assms CGet Get_absent show ?thesis by simp
  next
    case (Some vn)
    obtain v n where "vn = (v, n)" by (cases vn)
    with Some Get_present [OF assms(1)] obtain e
      where "kv_Get K s k = Ok e" "entry_holds e k v n" by blast
    with assms CGet Some \<open>vn = (v, n)\<close> show ?thesis
      by (simp add: entry_holds_def)
  qed
next
  case (CPut k v)
  with Put_law [OF assms, of t k v] show ?thesis
    by (auto simp: entry_holds_def)
next
  case (CDelete k)
  with Delete_law [OF assms, of t k] show ?thesis by auto
next
  case (CCas k v n)
  show ?thesis
  proof (cases "cas_matches (abs s) k n")
    case True
    with CCas Cas_match [OF assms True, of t v] show ?thesis
      by (auto simp: entry_holds_def)
  next
    case False
    with CCas assms Cas_mismatch [OF assms(1) False, of t v] show ?thesis by simp
  qed
qed

text \<open>Every run of commands is observed exactly as on the abstract map.\<close>

lemma exec_cmds_refines:
  "wf s \<Longrightarrow> length tcs \<le> room s \<Longrightarrow>
    \<exists>s'. exec_cmds K tcs s = (fst (spec_cmds (map snd tcs) (abs s)), s') \<and> wf s'
      \<and> abs s' = snd (spec_cmds (map snd tcs) (abs s))"
proof (induction tcs arbitrary: s)
  case Nil
  then show ?case by simp
next
  case (Cons tc tcs)
  obtain t c where tc: "tc = (t, c)" by (cases tc)
  from Cons.prems have "0 < room s" by simp
  with Cons.prems(1) exec_cmd_refines obtain s1 where
    s1: "exec_cmd K t c s = (fst (spec_cmd c (abs s)), s1)" "wf s1" "room s - 1 \<le> room s1"
      "abs s1 = snd (spec_cmd c (abs s))" by blast
  have "length tcs \<le> room s1" using Cons.prems(2) s1(3) by simp
  with Cons.IH s1(2) obtain s2 where
    "exec_cmds K tcs s1 = (fst (spec_cmds (map snd tcs) (abs s1)), s2)" "wf s2"
      "abs s2 = snd (spec_cmds (map snd tcs) (abs s1))" by blast
  with s1 tc show ?case by (simp split: prod.splits)
qed

text \<open>
  Of two compare-and-swaps that expect the same version of a key, the second fails: this is what
  the election relies on.
\<close>

lemma cas_once:
  assumes "wf s" and "0 < room s" and "cas_matches (abs s) k n"
    and "kv_CompareAndSwap K t k v n s = (r, s')"
  shows "kv_CompareAndSwap K t' k v' n s' = (Err ErrCASMismatch, s')"
proof -
  from Cas_match [OF assms(1-3), of t v] assms(4)
  have s': "wf s' \<and> abs s' = spec_put k v (abs s)" by auto
  have "next_version (abs s) k \<noteq> n"
    using assms(3) by (auto simp: next_version_def cas_matches_def split: option.splits)
  then have "\<not> cas_matches (abs s') k n"
    by (simp add: s' spec_put_def cas_matches_def)
  with s' show ?thesis by (simp add: Cas_mismatch)
qed

end

end
