(* ===== verification/RaftKv.thy ===== *)
theory RaftKv
  imports KvApi
begin

text \<open>
  The store behind the key-value interface, \<^verbatim>\<open>internal/primitives/db/raft.go\<close>: the in-memory map, the
  log, the journal and snapshot files, replication, watches, membership and the background loop.

  One operation of the model is what its caller sees of one call; where a call locks, unlocks and
  locks again, the phases are separate definitions that the call composes, so that other steps can
  come between them. The outcome of input and output is an argument: which peers acknowledge,
  whether a write of the journal succeeds, at which step a snapshot fails. The journal file holds
  JSON records: the model keeps the decoded records, \<^verbatim>\<open>JBad\<close> standing for bytes that do not decode.
\<close>

section \<open>Data\<close>

datatype role = roleFollower | roleCandidate | roleLeader

record logEntry =
  le_Index :: u64
  le_Term :: u64
  le_Op :: string
  le_Key :: string
  le_Value :: bytes
  le_Version :: u64

record raftSnapshot =
  snap_Term :: u64
  snap_Index :: u64
  snap_State :: "(string, Entry) gomap"

record store =
  st_entries :: "(string, Entry) gomap"
  st_version :: u64

record watcher =
  wa_prefix :: string
  wa_ch :: "Entry list"
  wa_closed :: bool

datatype jrec = JEntry logEntry | JBad

datatype snap_file = NoSnap | BadSnap | Snap raftSnapshot

record disk =
  dk_journal :: "jrec list"
  dk_snap :: snap_file

record raft =
  r_cfg :: Config
  r_role :: role
  r_currentTerm :: u64
  r_votedFor :: string
  r_log :: "logEntry list"
  r_commitIndex :: u64
  r_lastApplied :: u64
  r_peers :: "Peer list"
  r_nextIndex :: "(string, u64) gomap"
  r_matchIndex :: "(string, u64) gomap"
  r_st :: store
  r_journal_open :: bool
  r_disk :: disk
  r_applyCh :: bool
  r_stopped :: bool
  r_applyQueue :: "Entry option list"
  r_watchers :: "(string, watcher list) gomap"
  r_puts :: u64
  r_dels :: u64
  r_applied :: u64

text \<open>How a journal write, an append to it, or a snapshot can end.\<close>

datatype journal_io = JOk | JSyncErr | JWriteErr bool

datatype snapshot_io = SnapOk | FailWriteTmp | FailClose | FailRename | FailReopen

definition io_error :: go_error where
  "io_error = ErrorString ''i/o error''"

definition json_error :: go_error where
  "json_error = ErrorString ''json: invalid''"

section \<open>The in-memory store\<close>

definition store_get :: "store \<Rightarrow> string \<Rightarrow> Entry option" where
  "store_get s key = mget (st_entries s) key"

definition store_put :: "string \<Rightarrow> Entry \<Rightarrow> store \<Rightarrow> u64 \<times> store" where
  "store_put key e s =
     (let v = (case mget (st_entries s) key of Some cur \<Rightarrow> en_Version cur + 1 | None \<Rightarrow> 1);
          e' = e\<lparr>en_Version := v\<rparr>
      in (v, s\<lparr>st_entries := mput key e' (st_entries s), st_version := st_version s + 1\<rparr>))"

definition store_del :: "string \<Rightarrow> store \<Rightarrow> u64 \<times> store" where
  "store_del key s =
     (let v = (case mget (st_entries s) key of Some cur \<Rightarrow> en_Version cur + 1 | None \<Rightarrow> 0)
      in (v, s\<lparr>st_entries := mdel key (st_entries s), st_version := st_version s + 1\<rparr>))"

definition hasPrefix :: "string \<Rightarrow> string \<Rightarrow> bool" where
  "hasPrefix s p \<longleftrightarrow> (if p = [] then True else length s \<ge> length p \<and> take (length p) s = p)"

lemma hasPrefix_iff: "hasPrefix s p \<longleftrightarrow> prefix p s"
  by (auto simp: hasPrefix_def prefix_def intro: exI [of _ "drop (length p) s"])
    (metis append_take_drop_id)

section \<open>Watch channels\<close>

text \<open>
  \<^verbatim>\<open>fanout\<close> sends to every matching watcher and drops the event when the buffer of 256 is full.
  Reading the key of a nil event and sending on a closed channel both panic.
\<close>

definition offer :: "Entry option \<Rightarrow> watcher \<Rightarrow> watcher option" where
  "offer ev w =
     (case ev of
        None \<Rightarrow> None
      | Some e \<Rightarrow>
          if \<not> hasPrefix (en_Key e) (wa_prefix w) then Some w
          else if wa_closed w then None
          else if length (wa_ch w) < 256 then Some (w\<lparr>wa_ch := wa_ch w @ [e]\<rparr>)
          else Some w)"

fun offer_all :: "Entry option \<Rightarrow> watcher list \<Rightarrow> watcher list option" where
  "offer_all ev [] = Some []"
| "offer_all ev (w # ws) =
     (case offer ev w of None \<Rightarrow> None
      | Some w' \<Rightarrow> (case offer_all ev ws of None \<Rightarrow> None | Some ws' \<Rightarrow> Some (w' # ws')))"

fun fanout_watchers ::
    "Entry option \<Rightarrow> (string, watcher list) gomap \<Rightarrow> (string, watcher list) gomap option" where
  "fanout_watchers ev [] = Some []"
| "fanout_watchers ev ((p, subs) # m) =
     (case offer_all ev subs of None \<Rightarrow> None
      | Some subs' \<Rightarrow>
          (case fanout_watchers ev m of None \<Rightarrow> None | Some m' \<Rightarrow> Some ((p, subs') # m')))"

definition fanout :: "Entry option \<Rightarrow> raft \<Rightarrow> raft option" where
  "fanout ev r = map_option (\<lambda>ws. r\<lparr>r_watchers := ws\<rparr>) (fanout_watchers ev (r_watchers r))"

definition applyFromQueue :: "raft \<Rightarrow> raft option" where
  "applyFromQueue r = ofold fanout (r_applyQueue r) (r\<lparr>r_applyQueue := []\<rparr>)"

section \<open>Applying log entries\<close>

definition apply_store :: "time \<Rightarrow> logEntry \<Rightarrow> store \<Rightarrow> store" where
  "apply_store now e st =
     (if le_Op e = ''put'' then
        st\<lparr>st_entries := mput (le_Key e)
              \<lparr>en_Key = le_Key e, en_Value = le_Value e, en_Version = le_Version e,
               en_Deleted = False, en_CreatedAt = now\<rparr> (st_entries st),
           st_version := st_version st + 1\<rparr>
      else if le_Op e = ''del'' then
        st\<lparr>st_entries := mdel (le_Key e) (st_entries st), st_version := st_version st + 1\<rparr>
      else st)"

definition apply_event :: "time \<Rightarrow> logEntry \<Rightarrow> store \<Rightarrow> Entry option" where
  "apply_event now e st' =
     (if le_Op e = ''del'' then
        Some \<lparr>en_Key = le_Key e, en_Value = [], en_Version = le_Version e,
              en_Deleted = True, en_CreatedAt = now\<rparr>
      else store_get st' (le_Key e))"

definition applyLocked :: "time \<Rightarrow> logEntry \<Rightarrow> raft \<Rightarrow> raft" where
  "applyLocked now e r =
     (if le_Index e \<le> r_lastApplied r then r
      else
        let st' = apply_store now e (r_st r)
        in r\<lparr>r_lastApplied := le_Index e, r_st := st',
             r_applyQueue := r_applyQueue r @ [apply_event now e st'],
             r_applied := r_applied r + 1, r_applyCh := True\<rparr>)"

section \<open>Opening and recovery\<close>

definition containsPeer :: "Peer list \<Rightarrow> Peer \<Rightarrow> bool" where
  "containsPeer ps p \<longleftrightarrow> (\<exists>x \<in> set ps. peer_ID x = peer_ID p)"

definition recover_entry :: "time \<Rightarrow> logEntry \<Rightarrow> raft \<Rightarrow> raft" where
  "recover_entry now e r =
     applyLocked now e
       (r\<lparr>r_log := r_log r @ [e],
          r_currentTerm := (if le_Term e > r_currentTerm r then le_Term e else r_currentTerm r),
          r_commitIndex :=
            (if le_Index e > r_commitIndex r \<and> length (r_peers r) = 1 then le_Index e
             else r_commitIndex r)\<rparr>)"

fun recover_journal :: "time \<Rightarrow> jrec list \<Rightarrow> raft \<Rightarrow> raft outcome" where
  "recover_journal now [] r = Ok r"
| "recover_journal now (JBad # js) r = Err json_error"
| "recover_journal now (JEntry e # js) r = recover_journal now js (recover_entry now e r)"

definition recover_snapshot :: "raft \<Rightarrow> raft" where
  "recover_snapshot r =
     (case dk_snap (r_disk r) of
        NoSnap \<Rightarrow> r
      | BadSnap \<Rightarrow> r
      | Snap snap \<Rightarrow>
          r\<lparr>r_st := \<lparr>st_entries = snap_State snap, st_version = snap_Index snap\<rparr>,
            r_commitIndex := snap_Index snap, r_lastApplied := snap_Index snap\<rparr>)"

text \<open>\<^verbatim>\<open>jopen\<close>: the journal file can be opened.\<close>

definition recover :: "time \<Rightarrow> bool \<Rightarrow> raft \<Rightarrow> raft outcome" where
  "recover now jopen r =
     (if \<not> jopen then Err io_error
      else
        (case recover_journal now (dk_journal (r_disk r)) (r\<lparr>r_journal_open := True\<rparr>) of
           Ok r' \<Rightarrow> Ok (recover_snapshot r')
         | Err e \<Rightarrow> Err e
         | Panic m \<Rightarrow> Panic m))"

definition fresh_raft :: "Config \<Rightarrow> disk \<Rightarrow> raft" where
  "fresh_raft cfg d =
     (let self = \<lparr>peer_ID = cfg_NodeID cfg, peer_Address = cfg_Listen cfg\<rparr>;
          ps = (if containsPeer (cfg_Peers cfg) self then cfg_Peers cfg else cfg_Peers cfg @ [self])
      in \<lparr>r_cfg = cfg, r_role = roleFollower, r_currentTerm = 0, r_votedFor = [], r_log = [],
          r_commitIndex = 0, r_lastApplied = 0, r_peers = ps,
          r_nextIndex = fold (\<lambda>p. mput (peer_ID p) 1) ps [],
          r_matchIndex = fold (\<lambda>p. mput (peer_ID p) 0) ps [],
          r_st = \<lparr>st_entries = [], st_version = 0\<rparr>, r_journal_open = False, r_disk = d,
          r_applyCh = False, r_stopped = False, r_applyQueue = [], r_watchers = [],
          r_puts = 0, r_dels = 0, r_applied = 0\<rparr>)"

definition openRaft :: "time \<Rightarrow> bool \<Rightarrow> bool \<Rightarrow> Config \<Rightarrow> disk \<Rightarrow> raft outcome" where
  "openRaft now mkdir jopen cfg d =
     (if cfg_NodeID cfg = [] then Err (ErrorString ''db: NodeID required'')
      else if cfg_DataDir cfg = [] then Err (ErrorString ''db: DataDir required'')
      else if \<not> mkdir then Err io_error
      else
        (case recover now jopen (fresh_raft cfg d) of
           Err e \<Rightarrow> Err (WrapError ''recover'' e)
         | Panic m \<Rightarrow> Panic m
         | Ok r \<Rightarrow>
             Ok (if cfg_Bootstrap cfg \<and> r_currentTerm r = 0
                 then r\<lparr>r_currentTerm := 1, r_votedFor := cfg_NodeID cfg\<rparr> else r)))"

section \<open>Writing\<close>

text \<open>
  \<^verbatim>\<open>append\<close> numbers the entry, extends the log in memory and writes the journal. A write that fails
  may leave torn bytes (\<^term>\<open>JWriteErr True\<close>); a write to a closed journal fails and leaves nothing.
\<close>

definition journal_write :: "journal_io \<Rightarrow> logEntry \<Rightarrow> raft \<Rightarrow> bool \<times> raft" where
  "journal_write io e r =
     (let d = r_disk r;
          put = (\<lambda>js. r\<lparr>r_disk := d\<lparr>dk_journal := dk_journal d @ js\<rparr>\<rparr>)
      in if \<not> r_journal_open r then (False, r)
         else (case io of
                 JOk \<Rightarrow> (True, put [JEntry e])
               | JSyncErr \<Rightarrow> (False, put [JEntry e])
               | JWriteErr torn \<Rightarrow> (False, put (if torn then [JBad] else []))))"

definition raft_append :: "journal_io \<Rightarrow> logEntry \<Rightarrow> raft \<Rightarrow> logEntry outcome \<times> logEntry \<times> raft" where
  "raft_append io e r =
     (let term = (if r_currentTerm r = 0 then 1 else r_currentTerm r);
          e' = e\<lparr>le_Index := of_nat (length (r_log r)) + 1, le_Term := term\<rparr>;
          r1 = r\<lparr>r_currentTerm := term, r_log := r_log r @ [e']\<rparr>
      in case journal_write io e' r1 of
           (ok, r2) \<Rightarrow> (if ok then Ok e' else Err io_error, e', r2))"

definition finish_apply :: "time \<Rightarrow> logEntry \<Rightarrow> raft \<Rightarrow> unit outcome \<times> raft" where
  "finish_apply now e r =
     (let r1 = applyLocked now e r
      in case applyFromQueue r1 of
           None \<Rightarrow> (Panic ''watch'', r1)
         | Some r2 \<Rightarrow> (Ok (), r2))"

text \<open>
  \<^verbatim>\<open>replicate\<close>: \<^verbatim>\<open>ack\<close> tells which peer addresses accept the connection and the byte before the two
  second timer fires. A peer whose id is the node's own acknowledges at once.
\<close>

definition quorum :: "raft \<Rightarrow> nat" where
  "quorum r = length (r_peers r) div 2 + 1"

definition acks :: "(string \<Rightarrow> bool) \<Rightarrow> raft \<Rightarrow> nat" where
  "acks ack r =
     length (filter (\<lambda>p. peer_ID p = cfg_NodeID (r_cfg r) \<or> ack (peer_Address p)) (r_peers r))"

definition raft_replicate ::
    "time \<Rightarrow> (string \<Rightarrow> bool) \<Rightarrow> logEntry \<Rightarrow> raft \<Rightarrow> unit outcome \<times> raft" where
  "raft_replicate now ack e r =
     (if length (r_peers r) = 1 then finish_apply now e (r\<lparr>r_commitIndex := le_Index e\<rparr>)
      else if acks ack r < quorum r then (Err (ErrorString ''db: replication timeout''), r)
      else
        finish_apply now e
          (r\<lparr>r_commitIndex :=
               (if le_Index e > r_commitIndex r then le_Index e else r_commitIndex r)\<rparr>))"

text \<open>The tail that Put, Delete and CompareAndSwap share: append, then replicate.\<close>

definition commit ::
    "time \<Rightarrow> (string \<Rightarrow> bool) \<Rightarrow> journal_io \<Rightarrow> logEntry \<Rightarrow> raft \<Rightarrow> unit outcome \<times> raft" where
  "commit now ack io e r =
     (case raft_append io e r of
        (Ok e', _, r1) \<Rightarrow> raft_replicate now ack e' r1
      | (Err x, _, r1) \<Rightarrow> (Err x, r1)
      | (Panic m, _, r1) \<Rightarrow> (Panic m, r1))"

definition raft_Get :: "raft \<Rightarrow> string \<Rightarrow> Entry outcome" where
  "raft_Get r key = (case store_get (r_st r) key of None \<Rightarrow> Err ErrNotFound | Some e \<Rightarrow> Ok e)"

definition put_entry :: "string \<Rightarrow> bytes \<Rightarrow> u64 \<Rightarrow> logEntry" where
  "put_entry key value v =
     \<lparr>le_Index = 0, le_Term = 0, le_Op = ''put'', le_Key = key, le_Value = value, le_Version = v\<rparr>"

text \<open>Put reads the version in one critical section and commits in others.\<close>

definition put_version :: "string \<Rightarrow> raft \<Rightarrow> u64" where
  "put_version key r =
     (case mget (st_entries (r_st r)) key of Some cur \<Rightarrow> en_Version cur + 1 | None \<Rightarrow> 1)"

definition put_commit ::
    "time \<Rightarrow> (string \<Rightarrow> bool) \<Rightarrow> journal_io \<Rightarrow> string \<Rightarrow> bytes \<Rightarrow> u64 \<Rightarrow> raft \<Rightarrow>
      Entry option outcome \<times> raft" where
  "put_commit now ack io key value v r =
     (case commit now ack io (put_entry key value v) r of
        (Ok _, r1) \<Rightarrow> (Ok (store_get (r_st r1) key), r1\<lparr>r_puts := r_puts r1 + 1\<rparr>)
      | (Err x, r1) \<Rightarrow> (Err x, r1)
      | (Panic m, r1) \<Rightarrow> (Panic m, r1))"

definition raft_Put ::
    "(string \<Rightarrow> bool) \<Rightarrow> journal_io \<Rightarrow> time \<Rightarrow> string \<Rightarrow> bytes \<Rightarrow> raft \<Rightarrow> Entry option outcome \<times> raft" where
  "raft_Put ack io now key value r = put_commit now ack io key value (put_version key r) r"

definition raft_Delete ::
    "(string \<Rightarrow> bool) \<Rightarrow> journal_io \<Rightarrow> time \<Rightarrow> string \<Rightarrow> raft \<Rightarrow> unit outcome \<times> raft" where
  "raft_Delete ack io now key r =
     (case commit now ack io
             \<lparr>le_Index = 0, le_Term = 0, le_Op = ''del'', le_Key = key, le_Value = [], le_Version = 0\<rparr>
             r of
        (Ok _, r1) \<Rightarrow> (Ok (), r1\<lparr>r_dels := r_dels r1 + 1\<rparr>)
      | (Err x, r1) \<Rightarrow> (Err x, r1)
      | (Panic m, r1) \<Rightarrow> (Panic m, r1))"

text \<open>CompareAndSwap compares in one critical section and commits in others.\<close>

definition cas_check :: "string \<Rightarrow> u64 \<Rightarrow> raft \<Rightarrow> u64 outcome" where
  "cas_check key expect r =
     (case mget (st_entries (r_st r)) key of
        Some cur \<Rightarrow> if en_Version cur \<noteq> expect then Err ErrCASMismatch else Ok (expect + 1)
      | None \<Rightarrow> if expect \<noteq> 0 then Err ErrCASMismatch else Ok 1)"

definition cas_commit ::
    "time \<Rightarrow> (string \<Rightarrow> bool) \<Rightarrow> journal_io \<Rightarrow> string \<Rightarrow> bytes \<Rightarrow> u64 \<Rightarrow> raft \<Rightarrow>
      Entry option outcome \<times> raft" where
  "cas_commit now ack io key value v r =
     (case commit now ack io (put_entry key value v) r of
        (Ok _, r1) \<Rightarrow> (Ok (store_get (r_st r1) key), r1)
      | (Err x, r1) \<Rightarrow> (Err x, r1)
      | (Panic m, r1) \<Rightarrow> (Panic m, r1))"

definition raft_CompareAndSwap ::
    "(string \<Rightarrow> bool) \<Rightarrow> journal_io \<Rightarrow> time \<Rightarrow> string \<Rightarrow> bytes \<Rightarrow> u64 \<Rightarrow> raft \<Rightarrow>
      Entry option outcome \<times> raft" where
  "raft_CompareAndSwap ack io now key value expect r =
     (case cas_check key expect r of
        Err x \<Rightarrow> (Err x, r)
      | Panic m \<Rightarrow> (Panic m, r)
      | Ok v \<Rightarrow> cas_commit now ack io key value v r)"

section \<open>Reading\<close>

definition raft_List :: "raft \<Rightarrow> string \<Rightarrow> Entry list" where
  "raft_List r pre =
     sort_key en_Key (map snd (filter (\<lambda>(k, _). hasPrefix k pre) (st_entries (r_st r))))"

definition raft_Snapshot :: "raft \<Rightarrow> string \<Rightarrow> Snapshot" where
  "raft_Snapshot r pre = \<lparr>sn_Revision = st_version (r_st r), sn_Entries = raft_List r pre\<rparr>"

text \<open>
  Watch registers a channel and starts a goroutine that sends the current entries into it; with a
  timeout another goroutine closes the channel. A watcher is known by its prefix and its position.
\<close>

definition raft_Watch :: "WatchOptions \<Rightarrow> raft \<Rightarrow> (string \<times> nat) \<times> Entry list \<times> raft" where
  "raft_Watch opts r =
     (let p = wo_Prefix opts;
          subs = (case mget (r_watchers r) p of None \<Rightarrow> [] | Some ws \<Rightarrow> ws);
          w = \<lparr>wa_prefix = p, wa_ch = [], wa_closed = False\<rparr>;
          r' = r\<lparr>r_watchers := mput p (subs @ [w]) (r_watchers r)\<rparr>
      in ((p, length subs), raft_List r' p, r'))"

datatype send_result = Sent raft | Blocked | SendPanic

definition watch_replay :: "string \<times> nat \<Rightarrow> Entry \<Rightarrow> raft \<Rightarrow> send_result" where
  "watch_replay h e r =
     (case mget (r_watchers r) (fst h) of
        None \<Rightarrow> Blocked
      | Some ws \<Rightarrow>
          if length ws \<le> snd h then Blocked
          else let w = ws ! snd h in
            if wa_closed w then SendPanic
            else if length (wa_ch w) < 256 then
              Sent (r\<lparr>r_watchers :=
                       mput (fst h) (ws[snd h := w\<lparr>wa_ch := wa_ch w @ [e]\<rparr>]) (r_watchers r)\<rparr>)
            else Blocked)"

definition watch_timeout :: "WatchOptions \<Rightarrow> string \<times> nat \<Rightarrow> raft \<Rightarrow> raft" where
  "watch_timeout opts h r =
     (case mget (r_watchers r) (fst h) of
        None \<Rightarrow> r
      | Some ws \<Rightarrow>
          if wo_Timeout opts \<le> 0 then r
          else r\<lparr>r_watchers := mput (fst h) (ws[snd h := (ws ! snd h)\<lparr>wa_closed := True\<rparr>])
                            (r_watchers r)\<rparr>)"

section \<open>Membership\<close>

definition raft_AddPeer :: "Peer \<Rightarrow> raft \<Rightarrow> raft" where
  "raft_AddPeer p r =
     (if containsPeer (r_peers r) p then r
      else r\<lparr>r_peers := r_peers r @ [p],
             r_nextIndex := mput (peer_ID p) (of_nat (length (r_log r)) + 1) (r_nextIndex r),
             r_matchIndex := mput (peer_ID p) 0 (r_matchIndex r)\<rparr>)"

definition raft_RemovePeer :: "string \<Rightarrow> raft \<Rightarrow> raft" where
  "raft_RemovePeer i r =
     r\<lparr>r_peers := filter (\<lambda>p. peer_ID p \<noteq> i) (r_peers r),
       r_nextIndex := mdel i (r_nextIndex r), r_matchIndex := mdel i (r_matchIndex r)\<rparr>"

definition raft_Peers :: "raft \<Rightarrow> Peer list" where
  "raft_Peers r = r_peers r"

definition raft_Close :: "raft \<Rightarrow> unit outcome \<times> raft" where
  "raft_Close r =
     (if r_stopped r then (Panic ''close of closed channel'', r)
      else
        let r1 = r\<lparr>r_stopped := True\<rparr>
        in if r_journal_open r then (Ok (), r1\<lparr>r_journal_open := False\<rparr>) else (Err io_error, r1))"

section \<open>Snapshots and the background loop\<close>

definition raft_snapshot :: "snapshot_io \<Rightarrow> raft \<Rightarrow> bool \<times> raft" where
  "raft_snapshot io r =
     (let snap = \<lparr>snap_Term = r_currentTerm r, snap_Index = st_version (r_st r),
                  snap_State = st_entries (r_st r)\<rparr>;
          d = r_disk r
      in if io = FailWriteTmp then (False, r)
         else if \<not> r_journal_open r \<or> io = FailClose then (False, r)
         else
           let r1 = r\<lparr>r_journal_open := False\<rparr>
           in if io = FailRename then (False, r1)
              else
                let r2 = r1\<lparr>r_disk := d\<lparr>dk_snap := Snap snap\<rparr>\<rparr>
                in if io = FailReopen then (False, r2)
                   else (True, r2\<lparr>r_disk := (r_disk r2)\<lparr>dk_journal := []\<rparr>, r_journal_open := True\<rparr>))"

datatype run_event = ElectionTimer | ApplySignal

definition run_election :: "raft \<Rightarrow> raft" where
  "run_election r =
     (let r1 = r\<lparr>r_role := roleCandidate, r_currentTerm := r_currentTerm r + 1,
                 r_votedFor := cfg_NodeID (r_cfg r)\<rparr>
      in if length (r_peers r) = 1 then r1\<lparr>r_role := roleLeader\<rparr> else r1)"

definition raft_run_step :: "run_event \<Rightarrow> snapshot_io \<Rightarrow> raft \<Rightarrow> raft option" where
  "raft_run_step ev io r =
     (case (case ev of
              ElectionTimer \<Rightarrow> Some (run_election r)
            | ApplySignal \<Rightarrow> applyFromQueue (r\<lparr>r_applyCh := False\<rparr>)) of
        None \<Rightarrow> None
      | Some r1 \<Rightarrow>
          Some (if r_applied r1 mod 256 = 0 \<and> r_applied r1 > 0 then snd (raft_snapshot io r1) else r1))"

definition raft_ops :: "(string \<Rightarrow> bool) \<Rightarrow> journal_io \<Rightarrow> raft KV" where
  "raft_ops ack io =
     \<lparr>kv_Get = raft_Get, kv_Put = raft_Put ack io, kv_Delete = raft_Delete ack io,
      kv_CompareAndSwap = raft_CompareAndSwap ack io, kv_List = (\<lambda>r p. Ok (raft_List r p))\<rparr>"

section \<open>The invariant of a single-node store\<close>

definition raft_abs :: "raft \<Rightarrow> kvmap" where
  "raft_abs r k = map_option (\<lambda>e. (en_Value e, en_Version e)) (mget (st_entries (r_st r)) k)"

lemma raft_abs_frame [simp]:
  "raft_abs (r\<lparr>r_currentTerm := t\<rparr>) = raft_abs r" "raft_abs (r\<lparr>r_votedFor := i\<rparr>) = raft_abs r"
  "raft_abs (r\<lparr>r_journal_open := b\<rparr>) = raft_abs r" "raft_abs (r\<lparr>r_puts := n\<rparr>) = raft_abs r"
  "raft_abs (r\<lparr>r_disk := d\<rparr>) = raft_abs r" "raft_abs (r\<lparr>r_log := l\<rparr>) = raft_abs r"
  "raft_abs (r\<lparr>r_watchers := ws\<rparr>) = raft_abs r"
  by (simp_all add: raft_abs_def fun_eq_iff)

definition entries_wf :: "(string, Entry) gomap \<Rightarrow> bool" where
  "entries_wf m \<longleftrightarrow> mwf m \<and> (\<forall>k e. mget m k = Some e \<longrightarrow> en_Key e = k \<and> \<not> en_Deleted e)"

definition watchers_open :: "(string, watcher list) gomap \<Rightarrow> bool" where
  "watchers_open m \<longleftrightarrow> (\<forall>(p, ws) \<in> set m. \<forall>w \<in> set ws. \<not> wa_closed w)"

definition raft_core :: "raft \<Rightarrow> bool" where
  "raft_core r \<longleftrightarrow>
     r_journal_open r \<and> entries_wf (st_entries (r_st r))
     \<and> length (r_log r) < 2 ^ 64 \<and> r_lastApplied r = of_nat (length (r_log r))
     \<and> None \<notin> set (r_applyQueue r) \<and> watchers_open (r_watchers r)"

definition raft_wf :: "raft \<Rightarrow> bool" where
  "raft_wf r \<longleftrightarrow> length (r_peers r) = 1 \<and> raft_core r"

lemmas raft_wf_defs = raft_wf_def raft_core_def

definition raft_room :: "raft \<Rightarrow> nat" where
  "raft_room r = 2 ^ 64 - 1 - length (r_log r)"

lemma entries_wf_mput:
  "entries_wf m \<Longrightarrow> en_Key e = k \<Longrightarrow> \<not> en_Deleted e \<Longrightarrow> entries_wf (mput k e m)"
  by (auto simp: entries_wf_def)

lemma entries_wf_mdel: "entries_wf m \<Longrightarrow> entries_wf (mdel k m)"
  by (auto simp: entries_wf_def)

lemma entries_wf_apply_store:
  "entries_wf (st_entries st) \<Longrightarrow> entries_wf (st_entries (apply_store now e st))"
  by (simp add: apply_store_def entries_wf_mput entries_wf_mdel)

lemma next_index_greater:
  assumes "Suc n < 2 ^ 64"
  shows "(of_nat n :: u64) < of_nat n + 1"
proof -
  have "unat (of_nat m :: u64) = m" if "m < 2 ^ 64" for m
    using that by (simp add: unat_of_nat)
  from this [of n] this [OF assms] assms have "(of_nat n :: u64) < of_nat (Suc n)"
    by (simp only: word_less_nat_alt)
  then show ?thesis by (simp add: add.commute)
qed

subsection \<open>Delivery to open watchers never panics\<close>

lemma offer_open:
  "ev \<noteq> None \<Longrightarrow> \<not> wa_closed w \<Longrightarrow> \<exists>w'. offer ev w = Some w' \<and> \<not> wa_closed w'"
  by (auto simp: offer_def)

lemma offer_all_open:
  "ev \<noteq> None \<Longrightarrow> \<forall>w \<in> set ws. \<not> wa_closed w \<Longrightarrow>
    \<exists>ws'. offer_all ev ws = Some ws' \<and> (\<forall>w \<in> set ws'. \<not> wa_closed w)"
proof (induction ws)
  case (Cons w ws)
  then show ?case using offer_open [of ev w] by auto
qed simp

lemma fanout_watchers_open:
  "ev \<noteq> None \<Longrightarrow> watchers_open m \<Longrightarrow>
    \<exists>m'. fanout_watchers ev m = Some m' \<and> watchers_open m'"
proof (induction m)
  case Nil
  then show ?case by (simp add: watchers_open_def)
next
  case (Cons x m)
  obtain p ws where x: "x = (p, ws)" by (cases x)
  from Cons.prems x obtain ws' where "offer_all ev ws = Some ws'" "\<forall>w \<in> set ws'. \<not> wa_closed w"
    using offer_all_open [of ev ws] by (auto simp: watchers_open_def)
  moreover from Cons obtain m' where "fanout_watchers ev m = Some m'" "watchers_open m'"
    by (auto simp: watchers_open_def)
  ultimately show ?case by (simp add: x watchers_open_def)
qed

lemma drain_open:
  "None \<notin> set evs \<Longrightarrow> watchers_open (r_watchers r) \<Longrightarrow>
    \<exists>ws. ofold fanout evs r = Some (r\<lparr>r_watchers := ws\<rparr>) \<and> watchers_open ws"
proof (induction evs arbitrary: r)
  case Nil
  then show ?case by (intro exI [of _ "r_watchers r"]) simp
next
  case (Cons ev evs)
  from Cons.prems(1) have "ev \<noteq> None" by (cases ev) auto
  with Cons.prems(2) obtain m where m: "fanout_watchers ev (r_watchers r) = Some m" "watchers_open m"
    using fanout_watchers_open by blast
  from Cons.IH [of "r\<lparr>r_watchers := m\<rparr>"] Cons.prems m show ?case
    by (auto simp: fanout_def)
qed

lemma applyFromQueue_open:
  "None \<notin> set (r_applyQueue r) \<Longrightarrow> watchers_open (r_watchers r) \<Longrightarrow>
    \<exists>ws. applyFromQueue r = Some (r\<lparr>r_applyQueue := [], r_watchers := ws\<rparr>) \<and> watchers_open ws"
  using drain_open [of "r_applyQueue r" "r\<lparr>r_applyQueue := []\<rparr>"] by (simp add: applyFromQueue_def)

subsection \<open>Committing\<close>

definition numbered :: "raft \<Rightarrow> logEntry \<Rightarrow> logEntry" where
  "numbered r e =
     e\<lparr>le_Index := of_nat (length (r_log r)) + 1,
       le_Term := (if r_currentTerm r = 0 then 1 else r_currentTerm r)\<rparr>"

lemma apply_store_numbered [simp]: "apply_store now (numbered r e) st = apply_store now e st"
  by (simp add: apply_store_def numbered_def)

lemma le_Index_numbered: "le_Index (numbered r e) = of_nat (Suc (length (r_log r)))"
  by (simp add: numbered_def add.commute)

lemma apply_event_write:
  "le_Op e \<in> {''put'', ''del''} \<Longrightarrow> apply_event now e (apply_store now e st) \<noteq> None"
  by (auto simp: apply_event_def apply_store_def store_get_def)

lemma applyLocked_next:
  assumes "le_Index e > r_lastApplied r"
  shows "applyLocked now e r =
    r\<lparr>r_lastApplied := le_Index e, r_st := apply_store now e (r_st r),
      r_applyQueue := r_applyQueue r @ [apply_event now e (apply_store now e (r_st r))],
      r_applied := r_applied r + 1, r_applyCh := True\<rparr>"
  using assms by (simp add: applyLocked_def Let_def)

text \<open>What a successful write of a single-node store leaves behind.\<close>

definition wrote :: "time \<Rightarrow> logEntry \<Rightarrow> raft \<Rightarrow> raft \<Rightarrow> bool" where
  "wrote now e r r' \<longleftrightarrow>
     raft_wf r' \<and> r_log r' = r_log r @ [numbered r e] \<and> r_st r' = apply_store now e (r_st r)
     \<and> r_disk r' = (r_disk r)\<lparr>dk_journal := dk_journal (r_disk r) @ [JEntry (numbered r e)]\<rparr>
     \<and> r_cfg r' = r_cfg r \<and> r_peers r' = r_peers r"

lemma wrote_counters [simp]:
  "wrote now e r (r'\<lparr>r_puts := p\<rparr>) \<longleftrightarrow> wrote now e r r'"
  "wrote now e r (r'\<lparr>r_dels := p\<rparr>) \<longleftrightarrow> wrote now e r r'"
  by (simp_all add: wrote_def raft_wf_defs)

lemma commit_single:
  assumes wf: "raft_wf r" and room: "Suc (length (r_log r)) < 2 ^ 64"
    and op: "le_Op e \<in> {''put'', ''del''}"
  shows "\<exists>r'. commit now ack JOk e r = (Ok (), r') \<and> wrote now e r r'"
proof -
  let ?e = "numbered r e"
  let ?r1 = "r\<lparr>r_currentTerm := le_Term ?e, r_log := r_log r @ [?e],
      r_disk := (r_disk r)\<lparr>dk_journal := dk_journal (r_disk r) @ [JEntry ?e]\<rparr>,
      r_commitIndex := le_Index ?e\<rparr>"
  let ?r2 = "applyLocked now ?e ?r1"
  have op': "le_Op ?e \<in> {''put'', ''del''}" using op by (simp add: numbered_def)
  have "le_Index ?e > r_lastApplied ?r1"
    using wf next_index_greater [OF room] by (simp add: raft_wf_defs numbered_def)
  then have r2: "?r2 = ?r1\<lparr>r_lastApplied := le_Index ?e, r_st := apply_store now e (r_st r),
      r_applyQueue := r_applyQueue r @ [apply_event now ?e (apply_store now ?e (r_st r))],
      r_applied := r_applied r + 1, r_applyCh := True\<rparr>"
    by (simp add: applyLocked_next)
  obtain ev where "apply_event now ?e (apply_store now ?e (r_st r)) = Some ev"
    using apply_event_write [OF op'] by blast
  then have "None \<notin> set (r_applyQueue ?r2)" and "watchers_open (r_watchers ?r2)"
    using wf by (simp_all add: r2 raft_wf_defs)
  then obtain ws where ws: "applyFromQueue ?r2 = Some (?r2\<lparr>r_applyQueue := [], r_watchers := ws\<rparr>)"
    "watchers_open ws" using applyFromQueue_open by blast
  have "commit now ack JOk e r = (Ok (), ?r2\<lparr>r_applyQueue := [], r_watchers := ws\<rparr>)"
    using wf ws(1)
    by (simp add: commit_def raft_append_def journal_write_def raft_replicate_def finish_apply_def
        Let_def raft_wf_defs numbered_def)
  moreover have "raft_wf (?r2\<lparr>r_applyQueue := [], r_watchers := ws\<rparr>)"
    using wf ws(2) room unfolding r2
    by (simp add: raft_wf_defs entries_wf_apply_store le_Index_numbered)
  ultimately show ?thesis by (simp add: wrote_def r2)
qed

definition log_step :: "logEntry \<Rightarrow> kvmap \<Rightarrow> kvmap" where
  "log_step e m =
     (if le_Op e = ''put'' then m(le_Key e \<mapsto> (le_Value e, le_Version e))
      else if le_Op e = ''del'' then m(le_Key e := None) else m)"

lemma raft_abs_apply_store:
  "r_st r' = apply_store now e (r_st r) \<Longrightarrow> raft_abs r' = log_step e (raft_abs r)"
  by (auto simp: raft_abs_def apply_store_def log_step_def)

lemma raft_abs_wrote: "wrote now e r r' \<Longrightarrow> raft_abs r' = log_step e (raft_abs r)"
  by (simp add: wrote_def raft_abs_apply_store)

lemma put_version_abs: "put_version k r = next_version (raft_abs r) k"
  by (auto simp: put_version_def next_version_def raft_abs_def split: option.splits)

lemma cas_check_abs:
  "cas_check k n r =
    (if cas_matches (raft_abs r) k n then Ok (next_version (raft_abs r) k) else Err ErrCASMismatch)"
  by (auto simp: cas_check_def cas_matches_def next_version_def raft_abs_def split: option.splits)

lemma log_step_put_entry: "log_step (put_entry k v n) m = m(k \<mapsto> (v, n))"
  by (simp add: log_step_def put_entry_def)

lemma store_get_wrote_put:
  "wrote now (put_entry k v n) r r' \<Longrightarrow>
    \<exists>e. store_get (r_st r') k = Some e \<and> entry_holds e k v n"
  by (simp add: wrote_def apply_store_def put_entry_def store_get_def entry_holds_def)

lemma raft_room_wrote: "wrote now e r r' \<Longrightarrow> raft_room r' = raft_room r - 1"
  by (simp add: wrote_def raft_room_def)

lemma commit_put_entry:
  assumes "raft_wf r" and "0 < raft_room r"
  shows "\<exists>e r'. commit now ack JOk (put_entry k v n) r = (Ok (), r')
    \<and> wrote now (put_entry k v n) r r' \<and> store_get (r_st r') k = Some e \<and> entry_holds e k v n"
proof -
  have "Suc (length (r_log r)) < 2 ^ 64" using assms(2) by (simp add: raft_room_def)
  then obtain r' where r': "commit now ack JOk (put_entry k v n) r = (Ok (), r')"
      "wrote now (put_entry k v n) r r'"
    using commit_single [OF assms(1), where e = "put_entry k v n" and now = now and ack = ack]
    by (auto simp: put_entry_def)
  from store_get_wrote_put [OF r'(2)] r' show ?thesis by blast
qed

lemma Put_wrote:
  assumes "raft_wf r" and "0 < raft_room r"
  shows "\<exists>e r'. raft_Put ack JOk now k v r = (Ok (Some e), r')
    \<and> wrote now (put_entry k v (next_version (raft_abs r) k)) r r'
    \<and> entry_holds e k v (next_version (raft_abs r) k)"
  using commit_put_entry [OF assms, of now ack k v "next_version (raft_abs r) k"]
  by (auto simp: raft_Put_def put_commit_def put_version_abs)

lemma Cas_wrote:
  assumes "raft_wf r" and "0 < raft_room r" and "cas_matches (raft_abs r) k n"
  shows "\<exists>e r'. raft_CompareAndSwap ack JOk now k v n r = (Ok (Some e), r')
    \<and> wrote now (put_entry k v (next_version (raft_abs r) k)) r r'
    \<and> entry_holds e k v (next_version (raft_abs r) k)"
  using commit_put_entry [OF assms(1,2), of now ack k v "next_version (raft_abs r) k"] assms(3)
  by (auto simp: raft_CompareAndSwap_def cas_commit_def cas_check_abs)

definition del_entry :: "string \<Rightarrow> logEntry" where
  "del_entry key =
     \<lparr>le_Index = 0, le_Term = 0, le_Op = ''del'', le_Key = key, le_Value = [], le_Version = 0\<rparr>"

lemma Delete_wrote:
  assumes "raft_wf r" and "0 < raft_room r"
  shows "\<exists>r'. raft_Delete ack JOk now k r = (Ok (), r') \<and> wrote now (del_entry k) r r'"
proof -
  have "Suc (length (r_log r)) < 2 ^ 64" using assms(2) by (simp add: raft_room_def)
  then show ?thesis
    using commit_single [OF assms(1), where e = "del_entry k" and now = now and ack = ack]
    by (auto simp: raft_Delete_def del_entry_def)
qed

lemma wrote_wf: "wrote now e r r' \<Longrightarrow> raft_wf r'"
  by (simp add: wrote_def)

lemma wrote_put_spec:
  "wrote now (put_entry k v (next_version (raft_abs r) k)) r r' \<Longrightarrow>
    raft_wf r' \<and> raft_room r' = raft_room r - 1 \<and> raft_abs r' = spec_put k v (raft_abs r)"
  using raft_abs_wrote raft_room_wrote wrote_wf
  by (metis log_step_put_entry spec_put_def)

lemma wrote_del_spec:
  "wrote now (del_entry k) r r' \<Longrightarrow>
    raft_wf r' \<and> raft_room r' = raft_room r - 1 \<and> raft_abs r' = spec_del k (raft_abs r)"
  using raft_abs_wrote [of now "del_entry k" r r'] raft_room_wrote [of now "del_entry k" r r']
    wrote_wf [of now "del_entry k" r r']
  by (simp add: log_step_def del_entry_def spec_del_def)

text \<open>The model of \<^verbatim>\<open>raft.go\<close> with one node and a healthy disk keeps the contract of \<^verbatim>\<open>KV\<close>.\<close>

interpretation raft_kv: kv_contract "raft_ops ack JOk" raft_wf raft_room raft_abs
  for ack :: "string \<Rightarrow> bool"
proof unfold_locales
  fix r k
  assume "raft_wf r" "raft_abs r k = None"
  then show "kv_Get (raft_ops ack JOk) r k = Err ErrNotFound"
    by (simp add: raft_ops_def raft_Get_def store_get_def raft_abs_def)
next
  fix r k v n
  assume "raft_wf r" "raft_abs r k = Some (v, n)"
  then show "\<exists>e. kv_Get (raft_ops ack JOk) r k = Ok e \<and> entry_holds e k v n"
    by (auto simp: raft_ops_def raft_Get_def store_get_def raft_abs_def raft_wf_defs
        entries_wf_def entry_holds_def)
next
  fix r t k v
  assume "raft_wf r" "0 < raft_room r"
  from Put_wrote [OF this, of ack t k v]
  show "\<exists>e s'. kv_Put (raft_ops ack JOk) t k v r = (Ok (Some e), s')
      \<and> entry_holds e k v (next_version (raft_abs r) k)
      \<and> raft_wf s' \<and> raft_room s' = raft_room r - 1 \<and> raft_abs s' = spec_put k v (raft_abs r)"
    by (auto simp: raft_ops_def dest!: wrote_put_spec)
next
  fix r t k
  assume "raft_wf r" "0 < raft_room r"
  from Delete_wrote [OF this, of ack t k]
  show "\<exists>s'. kv_Delete (raft_ops ack JOk) t k r = (Ok (), s')
      \<and> raft_wf s' \<and> raft_room s' = raft_room r - 1 \<and> raft_abs s' = spec_del k (raft_abs r)"
    by (auto simp: raft_ops_def dest!: wrote_del_spec)
next
  fix r k n t v
  assume "raft_wf r" "\<not> cas_matches (raft_abs r) k n"
  then show "kv_CompareAndSwap (raft_ops ack JOk) t k v n r = (Err ErrCASMismatch, r)"
    by (simp add: raft_ops_def raft_CompareAndSwap_def cas_check_abs)
next
  fix r k n t v
  assume "raft_wf r" "0 < raft_room r" "cas_matches (raft_abs r) k n"
  from Cas_wrote [OF this, of ack t v]
  show "\<exists>e s'. kv_CompareAndSwap (raft_ops ack JOk) t k v n r = (Ok (Some e), s')
      \<and> entry_holds e k v (next_version (raft_abs r) k)
      \<and> raft_wf s' \<and> raft_room s' = raft_room r - 1 \<and> raft_abs s' = spec_put k v (raft_abs r)"
    by (auto simp: raft_ops_def dest!: wrote_put_spec)
qed

section \<open>Durability\<close>

text \<open>
  As long as no snapshot was taken the journal is the log, and the map is what replaying the log
  gives.
\<close>

definition indexed_from :: "nat \<Rightarrow> logEntry list \<Rightarrow> bool" where
  "indexed_from n es \<longleftrightarrow>
     (\<forall>i < length es. le_Index (es ! i) = of_nat (Suc (n + i)) \<and> le_Op (es ! i) \<in> {''put'', ''del''})"

definition durable :: "raft \<Rightarrow> bool" where
  "durable r \<longleftrightarrow>
     dk_snap (r_disk r) = NoSnap \<and> dk_journal (r_disk r) = map JEntry (r_log r)
     \<and> indexed_from 0 (r_log r) \<and> raft_abs r = fold log_step (r_log r) Map.empty"

lemma indexed_from_Nil [simp]: "indexed_from n []"
  by (simp add: indexed_from_def)

lemma indexed_from_Cons:
  "indexed_from n (e # es) \<longleftrightarrow>
    le_Index e = of_nat (Suc n) \<and> le_Op e \<in> {''put'', ''del''} \<and> indexed_from (Suc n) es"
  by (auto simp: indexed_from_def All_less_Suc2 simp del: insert_iff)

lemma indexed_from_snoc:
  "indexed_from n (es @ [e]) \<longleftrightarrow>
    indexed_from n es \<and> le_Index e = of_nat (Suc (n + length es)) \<and> le_Op e \<in> {''put'', ''del''}"
  by (induction es arbitrary: n) (auto simp: indexed_from_Cons)




lemma recover_entry_core:
  assumes "raft_core r" and "Suc (length (r_log r)) < 2 ^ 64"
    and "le_Index e = of_nat (Suc (length (r_log r)))" and "le_Op e \<in> {''put'', ''del''}"
  shows "raft_core (recover_entry now e r) \<and> r_log (recover_entry now e r) = r_log r @ [e]
    \<and> raft_abs (recover_entry now e r) = log_step e (raft_abs r)
    \<and> r_disk (recover_entry now e r) = r_disk r \<and> r_cfg (recover_entry now e r) = r_cfg r
    \<and> r_peers (recover_entry now e r) = r_peers r"
proof -
  have "le_Index e > r_lastApplied r"
    using assms(1,3) next_index_greater [OF assms(2)] by (simp add: raft_core_def add.commute)
  moreover obtain ev where "apply_event now e (apply_store now e (r_st r)) = Some ev"
    using apply_event_write [OF assms(4)] by blast
  ultimately show ?thesis
    using assms by (simp add: recover_entry_def applyLocked_next raft_core_def entries_wf_apply_store
        raft_abs_apply_store [of _ now e r])
qed

lemma recover_journal_replays:
  "raft_core r \<Longrightarrow> length (r_log r) + length es < 2 ^ 64 \<Longrightarrow> indexed_from (length (r_log r)) es \<Longrightarrow>
    \<exists>r'. recover_journal now (map JEntry es) r = Ok r' \<and> raft_core r' \<and> r_log r' = r_log r @ es
      \<and> raft_abs r' = fold log_step es (raft_abs r) \<and> r_disk r' = r_disk r \<and> r_cfg r' = r_cfg r
      \<and> r_peers r' = r_peers r"
proof (induction es arbitrary: r)
  case Nil
  then show ?case by simp
next
  case (Cons e es)
  let ?r = "recover_entry now e r"
  have e: "raft_core ?r \<and> r_log ?r = r_log r @ [e] \<and> raft_abs ?r = log_step e (raft_abs r)
      \<and> r_disk ?r = r_disk r \<and> r_cfg ?r = r_cfg r \<and> r_peers ?r = r_peers r"
    using Cons.prems by (intro recover_entry_core) (auto simp: indexed_from_Cons)
  with Cons.prems Cons.IH [of ?r] show ?case by (auto simp: indexed_from_Cons)
qed

subsection \<open>Opening\<close>

definition empty_disk :: disk where
  "empty_disk = \<lparr>dk_journal = [], dk_snap = NoSnap\<rparr>"

definition valid_cfg :: "Config \<Rightarrow> bool" where
  "valid_cfg cfg \<longleftrightarrow> cfg_NodeID cfg \<noteq> [] \<and> cfg_DataDir cfg \<noteq> []"

lemma fresh_raft_core:
  "raft_core ((fresh_raft cfg d)\<lparr>r_journal_open := True\<rparr>)"
  by (simp add: fresh_raft_def raft_core_def Let_def entries_wf_def watchers_open_def)

lemma fresh_raft_fields [simp]:
  "r_log (fresh_raft cfg d) = []" "r_disk (fresh_raft cfg d) = d" "r_cfg (fresh_raft cfg d) = cfg"
  "st_entries (r_st (fresh_raft cfg d)) = []" "r_watchers (fresh_raft cfg d) = []"
  "r_applyQueue (fresh_raft cfg d) = []" "r_lastApplied (fresh_raft cfg d) = 0"
  by (simp_all add: fresh_raft_def Let_def)

lemma fresh_raft_solo: "cfg_Peers cfg = [] \<Longrightarrow> length (r_peers (fresh_raft cfg d)) = 1"
  by (simp add: fresh_raft_def Let_def containsPeer_def)

lemma open_replays:
  assumes "valid_cfg cfg" and "dk_snap d = NoSnap" and "dk_journal d = map JEntry es"
    and "indexed_from 0 es" and "length es < 2 ^ 64"
  shows "\<exists>r. openRaft now True True cfg d = Ok r \<and> raft_core r \<and> r_log r = es
    \<and> raft_abs r = fold log_step es Map.empty \<and> r_disk r = d \<and> r_cfg r = cfg
    \<and> r_peers r = r_peers (fresh_raft cfg d)"
proof -
  let ?r0 = "(fresh_raft cfg d)\<lparr>r_journal_open := True\<rparr>"
  have abs0: "raft_abs ?r0 = Map.empty" by (simp add: raft_abs_def fun_eq_iff)
  from recover_journal_replays [OF fresh_raft_core [of cfg d], of es now] assms(4,5)
  obtain r where r: "recover_journal now (map JEntry es) ?r0 = Ok r" "raft_core r" "r_log r = es"
      "raft_abs r = fold log_step es (raft_abs ?r0)" "r_disk r = d" "r_cfg r = cfg"
      "r_peers r = r_peers (fresh_raft cfg d)"
    by auto
  then have "recover now True (fresh_raft cfg d) = Ok r"
    using assms(2,3) by (simp add: recover_def recover_snapshot_def)
  with r assms(1) abs0 show ?thesis
    by (auto simp: openRaft_def valid_cfg_def raft_core_def)
qed

lemma open_durable:
  assumes "valid_cfg cfg" and "cfg_Peers cfg = []"
  shows "\<exists>r. openRaft now True True cfg empty_disk = Ok r \<and> raft_wf r \<and> durable r
    \<and> raft_abs r = Map.empty \<and> raft_room r = 2 ^ 64 - 1 \<and> r_cfg r = cfg"
  using open_replays [OF assms(1), of empty_disk "[]" now] fresh_raft_solo [OF assms(2)]
  by (auto simp: empty_disk_def durable_def raft_wf_def raft_room_def)


section \<open>Properties\<close>

text \<open>
  Property C1. A single-node store opened on an empty directory behaves as a map from keys to values
  and versions: whatever commands a client issues, each is answered as the abstract map answers it
  (missing keys are ErrNotFound, a put bumps the version, a compare-and-swap succeeds exactly on the
  expected version), and the store ends in the corresponding map.
\<close>

theorem open_store_refines_map:
  assumes "valid_cfg cfg" and "cfg_Peers cfg = []" and "length tcs < 2 ^ 64"
  shows "\<exists>r r'. openRaft now True True cfg empty_disk = Ok r
    \<and> exec_cmds (raft_ops ack JOk) tcs r = (fst (spec_cmds (map snd tcs) Map.empty), r')
    \<and> raft_abs r' = snd (spec_cmds (map snd tcs) Map.empty)"
proof -
  obtain r where r: "openRaft now True True cfg empty_disk = Ok r" "raft_wf r"
      "raft_abs r = Map.empty" "raft_room r = 2 ^ 64 - 1"
    using open_durable [OF assms(1,2)] by blast
  from raft_kv.exec_cmds_refines [OF r(2), of tcs ack] r assms(3) show ?thesis by auto
qed

definition demo_cfg :: Config where
  "demo_cfg = \<lparr>cfg_NodeID = ''n1'', cfg_DataDir = ''/d'', cfg_Listen = ''127.0.0.1:0'',
     cfg_Bootstrap = True, cfg_Peers = []\<rparr>"

theorem open_store_refines_map_witness:
  "valid_cfg demo_cfg \<and> (\<exists>r r'. openRaft 7 True True demo_cfg empty_disk = Ok r
    \<and> exec_cmds (raft_ops (\<lambda>_. False) JOk)
        [(8, CPut ''k'' ''v1''), (9, CCas ''k'' ''v2'' 1), (10, CCas ''k'' ''v3'' 1), (11, CGet ''k'')] r =
      ([Observed ''k'' ''v1'' 1, Observed ''k'' ''v2'' 2, Failed ErrCASMismatch,
        Observed ''k'' ''v2'' 2], r'))"
proof -
  have "valid_cfg demo_cfg" "cfg_Peers demo_cfg = []" by (simp_all add: demo_cfg_def valid_cfg_def)
  then show ?thesis
    using open_store_refines_map [of demo_cfg
        "[(8, CPut ''k'' ''v1''), (9, CCas ''k'' ''v2'' 1), (10, CCas ''k'' ''v3'' 1), (11, CGet ''k'')]"
        7 "\<lambda>_. False"]
    by (auto simp: next_version_def spec_put_def cas_matches_def)
qed



subsection \<open>Majority\<close>


definition demo_raft :: "Peer list \<Rightarrow> raft" where
  "demo_raft ps = (fresh_raft (demo_cfg\<lparr>cfg_Peers := ps\<rparr>) empty_disk)\<lparr>r_journal_open := True\<rparr>"

definition demo_peer :: Peer where
  "demo_peer = \<lparr>peer_ID = ''n2'', peer_Address = ''127.0.0.1:2222''\<rparr>"

lemma demo_raft_peers:
  "r_peers (demo_raft [demo_peer]) =
    [demo_peer, \<lparr>peer_ID = ''n1'', peer_Address = ''127.0.0.1:0''\<rparr>]"
  by (simp add: demo_raft_def fresh_raft_def Let_def demo_cfg_def containsPeer_def demo_peer_def)


text \<open>
  The journal is written before the majority is known and recovery applies every
  journaled entry: a write whose caller was told that replication timed out is in the map after the
  node is opened again.
\<close>

theorem failed_write_returns_after_restart:
  assumes "valid_cfg (r_cfg r)" and "r_journal_open r" and "length (r_peers r) \<noteq> 1"
    and "acks ack r < quorum r" and "dk_snap (r_disk r) = NoSnap"
    and "dk_journal (r_disk r) = map JEntry (r_log r)" and "indexed_from 0 (r_log r)"
    and "Suc (length (r_log r)) < 2 ^ 64"
  shows "\<exists>r1 r2. raft_Put ack JOk now k v r = (Err (ErrorString ''db: replication timeout''), r1)
    \<and> raft_abs r1 = raft_abs r \<and> openRaft now' True True (r_cfg r) (r_disk r1) = Ok r2
    \<and> raft_abs r2 k = Some (v, put_version k r)"
proof -
  let ?e = "numbered r (put_entry k v (put_version k r))"
  let ?r1 = "r\<lparr>r_currentTerm := le_Term ?e, r_log := r_log r @ [?e],
    r_disk := (r_disk r)\<lparr>dk_journal := dk_journal (r_disk r) @ [JEntry ?e]\<rparr>\<rparr>"
  have "quorum ?r1 = quorum r" "acks ack ?r1 = acks ack r" by (simp_all add: quorum_def acks_def)
  with assms(2-4) have put: "raft_Put ack JOk now k v r =
      (Err (ErrorString ''db: replication timeout''), ?r1)"
    by (simp add: raft_Put_def put_commit_def commit_def raft_append_def journal_write_def Let_def
        raft_replicate_def numbered_def)
  have "le_Op ?e \<in> {''put'', ''del''}" by (simp add: numbered_def put_entry_def)
  then have "indexed_from 0 (r_log r @ [?e])"
    using assms(7) by (simp add: indexed_from_snoc le_Index_numbered)
  moreover have "length (r_log r @ [?e]) < 2 ^ 64" using assms(8) by simp
  ultimately obtain r2 where "openRaft now' True True (r_cfg r) (r_disk ?r1) = Ok r2"
      "raft_abs r2 = fold log_step (r_log r @ [?e]) Map.empty"
    using open_replays [OF assms(1), of "r_disk ?r1" "r_log r @ [?e]" now'] assms(5,6) by auto
  moreover have "log_step ?e m = m(k \<mapsto> (v, put_version k r))" for m
    by (simp add: log_step_def numbered_def put_entry_def)
  ultimately show ?thesis using put by simp
qed

theorem failed_write_returns_after_restart_witness:
  "\<exists>r1 r2. raft_Put (\<lambda>_. False) JOk 5 ''k'' ''v'' (demo_raft [demo_peer]) =
      (Err (ErrorString ''db: replication timeout''), r1)
    \<and> openRaft 9 True True (demo_cfg\<lparr>cfg_Peers := [demo_peer]\<rparr>) (r_disk r1) = Ok r2
    \<and> raft_abs r2 ''k'' = Some (''v'', 1)"
proof -
  let ?r = "demo_raft [demo_peer]"
  have cfg: "r_cfg ?r = demo_cfg\<lparr>cfg_Peers := [demo_peer]\<rparr>" by (simp add: demo_raft_def)
  have "valid_cfg (r_cfg ?r)" by (simp add: cfg valid_cfg_def demo_cfg_def)
  moreover have "length (r_peers ?r) \<noteq> 1" by (simp add: demo_raft_peers)
  moreover have "acks (\<lambda>_. False) ?r < quorum ?r"
    unfolding acks_def quorum_def demo_raft_peers cfg by (simp add: demo_cfg_def demo_peer_def)
  moreover have "put_version ''k'' ?r = 1" by (simp add: put_version_def demo_raft_def)
  ultimately show ?thesis
    using failed_write_returns_after_restart [of ?r "\<lambda>_. False" 5 "''k''" "''v''" 9]
    by (simp add: cfg) (auto simp: demo_raft_def empty_disk_def)
qed

subsection \<open>Compare-and-swap under interleaving\<close>

text \<open>
  Property C7. CompareAndSwap compares and commits in separate critical sections: when two calls that
  expect the same version both compare before either commits, both succeed and both report the same
  new version, so the first update is lost although a compare-and-swap issued after it is refused.
\<close>

theorem concurrent_cas_both_succeed:
  assumes "raft_wf r" and "1 < raft_room r" and "cas_check k n r = Ok w"
  shows "\<exists>e1 r1 e2 r2. cas_commit now ack JOk k a w r = (Ok (Some e1), r1) \<and> entry_holds e1 k a w
    \<and> raft_CompareAndSwap ack JOk now k b n r1 = (Err ErrCASMismatch, r1)
    \<and> cas_commit now ack JOk k b w r1 = (Ok (Some e2), r2) \<and> entry_holds e2 k b w
    \<and> raft_abs r2 = (raft_abs r)(k \<mapsto> (b, w))"
proof -
  have w: "cas_matches (raft_abs r) k n" "w = next_version (raft_abs r) k"
    using assms(3) by (simp_all add: cas_check_abs split: if_splits)
  obtain e1 r1 where c1: "cas_commit now ack JOk k a w r = (Ok (Some e1), r1)"
      "entry_holds e1 k a w" "wrote now (put_entry k a w) r r1"
    using commit_put_entry [OF assms(1), of now ack k a w] assms(2) by (auto simp: cas_commit_def)
  have r1: "raft_wf r1" "0 < raft_room r1" "raft_abs r1 = (raft_abs r)(k \<mapsto> (a, w))"
    using wrote_wf [OF c1(3)] raft_room_wrote [OF c1(3)] raft_abs_wrote [OF c1(3)] assms(2)
    by (simp_all add: log_step_put_entry)
  have "w \<noteq> n"
    using w by (auto simp: cas_matches_def next_version_def split: option.splits)
  then have "raft_CompareAndSwap ack JOk now k b n r1 = (Err ErrCASMismatch, r1)"
    by (simp add: raft_CompareAndSwap_def cas_check_abs r1(3) cas_matches_def)
  moreover obtain e2 r2 where "cas_commit now ack JOk k b w r1 = (Ok (Some e2), r2)"
      "entry_holds e2 k b w" "wrote now (put_entry k b w) r1 r2"
    using commit_put_entry [OF r1(1,2), of now ack k b w] by (auto simp: cas_commit_def)
  moreover from this(3) have "raft_abs r2 = (raft_abs r)(k \<mapsto> (b, w))"
    using raft_abs_wrote r1(3) by (fastforce simp: log_step_put_entry)
  ultimately show ?thesis using c1 by blast
qed

lemma demo_solo: "raft_wf (demo_raft [])" "raft_room (demo_raft []) = 2 ^ 64 - 1"
  "raft_abs (demo_raft []) = Map.empty" "r_applyQueue (demo_raft []) = []"
  "r_cfg (demo_raft []) = demo_cfg"
  using fresh_raft_core [of "demo_cfg\<lparr>cfg_Peers := []\<rparr>" empty_disk]
    fresh_raft_solo [of "demo_cfg\<lparr>cfg_Peers := []\<rparr>" empty_disk]
  by (simp_all add: demo_raft_def raft_wf_def raft_room_def raft_abs_def fun_eq_iff demo_cfg_def)

theorem concurrent_cas_both_succeed_witness:
  "cas_check ''k'' 0 (demo_raft []) = Ok 1 \<and> (\<exists>e1 r1 e2 r2.
      cas_commit 3 (\<lambda>_. False) JOk ''k'' ''a'' 1 (demo_raft []) = (Ok (Some e1), r1)
    \<and> cas_commit 3 (\<lambda>_. False) JOk ''k'' ''b'' 1 r1 = (Ok (Some e2), r2)
    \<and> raft_abs r2 = [''k'' \<mapsto> (''b'', 1)])"
proof -
  have c: "cas_check ''k'' 0 (demo_raft []) = Ok 1"
    by (simp add: cas_check_abs demo_solo cas_matches_def next_version_def)
  have "1 < raft_room (demo_raft [])" by (simp add: demo_solo)
  from concurrent_cas_both_succeed [OF demo_solo(1) this c, of 3 "\<lambda>_. False" "''a''" "''b''"] c
  show ?thesis by (auto simp: demo_solo)
qed

subsection \<open>Snapshots\<close>

lemma recover_entry_frame:
  "r_log (recover_entry now e r) = r_log r @ [e]"
  "r_disk (recover_entry now e r) = r_disk r" "r_watchers (recover_entry now e r) = r_watchers r"
  "r_journal_open (recover_entry now e r) = r_journal_open r"
  "r_peers (recover_entry now e r) = r_peers r"
  by (simp_all add: recover_entry_def applyLocked_def Let_def)

lemma recover_journal_frame:
  "\<exists>r'. recover_journal now (map JEntry es) r = Ok r' \<and> r_log r' = r_log r @ es
    \<and> r_disk r' = r_disk r \<and> r_watchers r' = r_watchers r \<and> r_journal_open r' = r_journal_open r
    \<and> r_peers r' = r_peers r \<and> (es = [] \<longrightarrow> r_applyQueue r' = r_applyQueue r)"
proof (induction es arbitrary: r)
  case (Cons e es)
  from Cons.IH [of "recover_entry now e r"] show ?case by (auto simp: recover_entry_frame)
qed simp

lemma open_over_snapshot:
  assumes "valid_cfg cfg" and "dk_snap d = Snap snap" and "dk_journal d = map JEntry es"
  shows "\<exists>r. openRaft now True True cfg d = Ok r \<and> st_entries (r_st r) = snap_State snap
    \<and> r_lastApplied r = snap_Index snap \<and> r_log r = es \<and> r_watchers r = []
    \<and> r_journal_open r \<and> r_peers r = r_peers (fresh_raft cfg d) \<and> (es = [] \<longrightarrow> r_applyQueue r = [])"
proof -
  obtain r where "recover_journal now (map JEntry es)
        ((fresh_raft cfg d)\<lparr>r_journal_open := True\<rparr>) = Ok r"
      "r_log r = es" "r_disk r = d" "r_watchers r = []" "r_journal_open r"
      "r_peers r = r_peers (fresh_raft cfg d)" "es = [] \<longrightarrow> r_applyQueue r = []"
    using recover_journal_frame [of now es "(fresh_raft cfg d)\<lparr>r_journal_open := True\<rparr>"] by auto
  with assms show ?thesis
    by (auto simp: openRaft_def recover_def recover_snapshot_def valid_cfg_def)
qed

lemma snapshot_ok:
  assumes "r_journal_open r"
  shows "raft_snapshot SnapOk r =
    (True, r\<lparr>r_disk := \<lparr>dk_journal = [],
       dk_snap = Snap \<lparr>snap_Term = r_currentTerm r, snap_Index = st_version (r_st r),
                       snap_State = st_entries (r_st r)\<rparr>\<rparr>\<rparr>)"
  using assms by (simp add: raft_snapshot_def Let_def)

text \<open>
  A snapshot followed by a restart loses the writes made in between: recovery replays
  the journal first and then replaces the map by the snapshot, so a Put that returned successfully
  after the snapshot is gone once the directory is opened again.
\<close>

theorem write_after_snapshot_lost:
  assumes "raft_wf r" and "0 < raft_room r" and "valid_cfg (r_cfg r)"
  shows "\<exists>r1 e r2 r3. raft_snapshot SnapOk r = (True, r1)
    \<and> raft_Put ack JOk now k v r1 = (Ok (Some e), r2) \<and> entry_holds e k v (next_version (raft_abs r) k)
    \<and> openRaft now' True True (r_cfg r) (r_disk r2) = Ok r3
    \<and> raft_abs r3 = raft_abs r \<and> raft_abs r3 k \<noteq> raft_abs r2 k"
proof -
  obtain r1 where r1: "raft_snapshot SnapOk r = (True, r1)" "r_st r1 = r_st r" "r_cfg r1 = r_cfg r"
      "raft_abs r1 = raft_abs r" "raft_wf r1" "raft_room r1 = raft_room r"
      "r_disk r1 = \<lparr>dk_journal = [], dk_snap = Snap \<lparr>snap_Term = r_currentTerm r,
          snap_Index = st_version (r_st r), snap_State = st_entries (r_st r)\<rparr>\<rparr>"
    using assms(1) snapshot_ok [of r] by (auto simp: raft_wf_defs raft_room_def)
  obtain e r2 where put: "raft_Put ack JOk now k v r1 = (Ok (Some e), r2)"
      "wrote now (put_entry k v (next_version (raft_abs r) k)) r1 r2"
      "entry_holds e k v (next_version (raft_abs r) k)"
    using Put_wrote [OF r1(5), of ack now k v] assms(2) r1(4,6) by auto
  have abs2: "raft_abs r2 k = Some (v, next_version (raft_abs r) k)"
    using raft_abs_wrote [OF put(2)] by (simp add: log_step_put_entry)
  obtain r3 where "openRaft now' True True (r_cfg r) (r_disk r2) = Ok r3"
      "st_entries (r_st r3) = st_entries (r_st r)"
    using open_over_snapshot [OF assms(3), of "r_disk r2" _
        "[numbered r1 (put_entry k v (next_version (raft_abs r) k))]" now'] put(2) r1(7)
    by (auto simp: wrote_def)
  moreover from this(2) have "raft_abs r3 = raft_abs r" by (simp add: raft_abs_def fun_eq_iff)
  moreover have "raft_abs r k \<noteq> Some (v, next_version (raft_abs r) k)"
    by (auto simp: next_version_def split: option.splits)
  ultimately show ?thesis using r1(1) put abs2 by auto
qed

theorem write_after_snapshot_lost_witness:
  "\<exists>r1 e r2 r3. raft_snapshot SnapOk (demo_raft []) = (True, r1)
    \<and> raft_Put (\<lambda>_. False) JOk 5 ''k'' ''v'' r1 = (Ok (Some e), r2) \<and> en_Value e = ''v''
    \<and> openRaft 9 True True demo_cfg (r_disk r2) = Ok r3 \<and> raft_abs r3 = Map.empty"
proof -
  have "0 < raft_room (demo_raft [])" "valid_cfg (r_cfg (demo_raft []))"
    by (simp_all add: demo_solo valid_cfg_def demo_cfg_def)
  from write_after_snapshot_lost [OF demo_solo(1) this, of "\<lambda>_. False" 5 "''k''" "''v''" 9]
  show ?thesis by (auto simp: demo_solo entry_holds_def)
qed

text \<open>
  After a restart from a snapshot the log starts again at index 1 while lastApplied is
  the revision of the snapshot: as long as the new indices stay at or below that revision a Put
  reports success, with the entry it found, and changes nothing.
\<close>

theorem write_after_restart_ignored:
  assumes "valid_cfg cfg" and "cfg_Peers cfg = []" and "dk_snap d = Snap snap"
    and "dk_journal d = []" and "1 \<le> snap_Index snap"
  shows "\<exists>r r'. openRaft now True True cfg d = Ok r
    \<and> raft_Put ack JOk now' k v r = (Ok (mget (snap_State snap) k), r') \<and> raft_abs r' = raft_abs r"
proof -
  obtain r where r: "openRaft now True True cfg d = Ok r" "st_entries (r_st r) = snap_State snap"
      "r_lastApplied r = snap_Index snap" "r_log r = []" "r_watchers r = []" "r_journal_open r"
      "length (r_peers r) = 1" "r_applyQueue r = []"
    using open_over_snapshot [OF assms(1,3), of "[]" now] assms(4) fresh_raft_solo [OF assms(2), of d]
    by auto
  let ?e = "numbered r (put_entry k v (put_version k r))"
  let ?r1 = "r\<lparr>r_currentTerm := le_Term ?e, r_log := [?e],
      r_disk := (r_disk r)\<lparr>dk_journal := dk_journal (r_disk r) @ [JEntry ?e]\<rparr>,
      r_commitIndex := le_Index ?e\<rparr>"
  have "applyLocked now' ?e ?r1 = ?r1"
    using r(3,4) assms(5) by (simp add: applyLocked_def le_Index_numbered)
  then have "finish_apply now' ?e ?r1 = (Ok (), ?r1)"
    using r(8) by (simp add: finish_apply_def applyFromQueue_def)
  then have "raft_Put ack JOk now' k v r =
      (Ok (mget (snap_State snap) k), ?r1\<lparr>r_puts := r_puts r + 1\<rparr>)"
    using r by (simp add: raft_Put_def put_commit_def commit_def raft_append_def journal_write_def
        Let_def raft_replicate_def numbered_def store_get_def)
  moreover have "raft_abs (?r1\<lparr>r_puts := r_puts r + 1\<rparr>) = raft_abs r"
    by (simp add: raft_abs_def fun_eq_iff)
  ultimately show ?thesis using r(1) by blast
qed

theorem write_after_restart_ignored_witness:
  "\<exists>r r'. openRaft 1 True True demo_cfg
        \<lparr>dk_journal = [], dk_snap = Snap \<lparr>snap_Term = 1, snap_Index = 256, snap_State = []\<rparr>\<rparr> = Ok r
    \<and> raft_Put (\<lambda>_. False) JOk 2 ''k'' ''v'' r = (Ok None, r') \<and> raft_abs r' = raft_abs r"
  using write_after_restart_ignored [of demo_cfg
      "\<lparr>dk_journal = [], dk_snap = Snap \<lparr>snap_Term = 1, snap_Index = 256, snap_State = []\<rparr>\<rparr>"
      "\<lparr>snap_Term = 1, snap_Index = 256, snap_State = []\<rparr>" 1 "\<lambda>_. False" 2 "''k''" "''v''"]
  by (simp add: demo_cfg_def valid_cfg_def)

subsection \<open>Listing\<close>

lemma entries_wf_key: "entries_wf m \<Longrightarrow> (k, e) \<in> set m \<Longrightarrow> en_Key e = k"
  by (metis entries_wf_def mget_in_set)

lemma entries_wf_inj: "entries_wf m \<Longrightarrow> inj_on en_Key (snd ` set m)"
proof (rule inj_onI)
  fix x y
  assume wf: "entries_wf m" and xy: "x \<in> snd ` set m" "y \<in> snd ` set m" "en_Key x = en_Key y"
  then obtain k k' where "(k, x) \<in> set m" "(k', y) \<in> set m" by auto
  with wf xy(3) have "mget m k = Some x" "mget m k = Some y"
    by (metis entries_wf_def entries_wf_key mget_in_set)+
  then show "x = y" by simp
qed

text \<open>
  Property C9. List returns the entries whose keys start with the prefix, each once, in strictly
  ascending order of their keys, whatever the order in which the map is visited.
\<close>

theorem List_sorted_complete:
  assumes "entries_wf (st_entries (r_st r))"
  shows "sorted_wrt (<) (map en_Key (raft_List r pre))
    \<and> set (raft_List r pre) = {e. \<exists>k. mget (st_entries (r_st r)) k = Some e \<and> prefix pre k}
    \<and> (\<forall>r'. mset (st_entries (r_st r')) = mset (st_entries (r_st r)) \<longrightarrow> raft_List r' pre = raft_List r pre)"
proof (intro conjI allI impI)
  let ?m = "st_entries (r_st r)"
  let ?f = "filter (\<lambda>(k, _). hasPrefix k pre)"
  have wf: "mwf ?m" using assms by (simp add: entries_wf_def)
  have keys: "map en_Key (map snd (?f ?m)) = map fst (?f ?m)"
    using entries_wf_key [OF assms] by (auto simp: map_eq_conv)
  have "distinct (map en_Key (raft_List r pre))"
    unfolding raft_List_def distinct_map_sort_key keys
    using wf by (simp add: mwf_def distinct_map_filter)
  moreover have "sorted (map en_Key (raft_List r pre))" by (simp add: raft_List_def)
  ultimately show "sorted_wrt (<) (map en_Key (raft_List r pre))"
    by (simp add: strict_sorted_iff)
  show "set (raft_List r pre) = {e. \<exists>k. mget ?m k = Some e \<and> prefix pre k}"
    using wf by (auto simp: raft_List_def hasPrefix_iff mget_in_set image_iff)
  fix r' :: raft
  assume "mset (st_entries (r_st r')) = mset ?m"
  then have "mset (map snd (?f (st_entries (r_st r')))) = mset (map snd (?f ?m))" by simp
  moreover have "set (map snd (?f (st_entries (r_st r')))) \<subseteq> snd ` set ?m"
    using \<open>mset (st_entries (r_st r')) = mset ?m\<close> by (auto dest: mset_eq_setD)
  ultimately show "raft_List r' pre = raft_List r pre"
    unfolding raft_List_def
    by (intro sort_key_perm_eq) (auto intro: inj_on_subset [OF entries_wf_inj [OF assms]])
qed

definition demo_entry :: "string \<Rightarrow> Entry" where
  "demo_entry k = \<lparr>en_Key = k, en_Value = ''v'', en_Version = 1, en_Deleted = False, en_CreatedAt = 0\<rparr>"

theorem List_sorted_complete_witness:
  "map en_Key (raft_List ((demo_raft [])\<lparr>r_st := \<lparr>st_entries = [(''b/1'', demo_entry ''b/1''),
      (''a/2'', demo_entry ''a/2''), (''a/1'', demo_entry ''a/1'')], st_version = 3\<rparr>\<rparr>) ''a/'')
    = [''a/1'', ''a/2'']
    \<and> sorted_wrt (<) (map en_Key (raft_List ((demo_raft [])\<lparr>r_st := \<lparr>st_entries =
        [(''b/1'', demo_entry ''b/1''), (''a/2'', demo_entry ''a/2''), (''a/1'', demo_entry ''a/1'')],
        st_version = 3\<rparr>\<rparr>) ''a/''))"
proof -
  let ?r = "(demo_raft [])\<lparr>r_st := \<lparr>st_entries = [(''b/1'', demo_entry ''b/1''),
      (''a/2'', demo_entry ''a/2''), (''a/1'', demo_entry ''a/1'')], st_version = 3\<rparr>\<rparr>"
  have "entries_wf (st_entries (r_st ?r))"
    by (auto simp: entries_wf_def mwf_def mget_def demo_entry_def split: if_splits)
  then show ?thesis
    using List_sorted_complete [of ?r "''a/''"]
    by (simp add: raft_List_def hasPrefix_def demo_entry_def)
qed

subsection \<open>Watching\<close>

lemma offer_all_nth:
  "offer_all ev ws = Some ws' \<Longrightarrow> length ws' = length ws \<and> (\<forall>i < length ws. offer ev (ws ! i) = Some (ws' ! i))"
proof (induction ws arbitrary: ws')
  case (Cons w ws)
  then obtain w' vs where *: "offer ev w = Some w'" "offer_all ev ws = Some vs" "ws' = w' # vs"
    by (auto split: option.splits)
  from Cons.IH [OF *(2)] * show ?case by (auto simp: nth_Cons split: nat.splits)
qed simp

lemma fanout_watchers_mget:
  "fanout_watchers ev m = Some m' \<Longrightarrow> mget m p = Some ws \<Longrightarrow>
    \<exists>ws'. mget m' p = Some ws' \<and> offer_all ev ws = Some ws'"
proof (induction m arbitrary: m')
  case (Cons x m)
  then show ?case by (cases x) (auto simp: mget_def split: option.splits if_splits)
qed simp

lemma fanout_watchers_None:
  "mget m p = Some ws \<Longrightarrow> offer_all ev ws = None \<Longrightarrow> fanout_watchers ev m = None"
proof (induction m)
  case (Cons x m)
  then show ?case by (cases x) (auto simp: mget_def split: option.splits if_splits)
qed simp

lemma offer_all_None: "i < length ws \<Longrightarrow> offer ev (ws ! i) = None \<Longrightarrow> offer_all ev ws = None"
proof (induction ws arbitrary: i)
  case (Cons w ws)
  then show ?case by (cases i) (auto split: option.splits)
qed simp

text \<open>A write on a store with an empty event queue delivers exactly its own event.\<close>

lemma commit_put_fanout:
  assumes "r_journal_open r" and "length (r_peers r) = 1" and "Suc (length (r_log r)) < 2 ^ 64"
    and "r_lastApplied r = of_nat (length (r_log r))" and "r_applyQueue r = []"
  shows "\<exists>r1 e. commit now ack JOk (put_entry k v n) r =
      (case fanout (Some e) (r1\<lparr>r_applyQueue := []\<rparr>) of
         None \<Rightarrow> (Panic ''watch'', r1) | Some r2 \<Rightarrow> (Ok (), r2))
    \<and> r_watchers r1 = r_watchers r \<and> entry_holds e k v n \<and> store_get (r_st r1) k = Some e"
proof -
  let ?e = "numbered r (put_entry k v n)"
  let ?en = "\<lparr>en_Key = k, en_Value = v, en_Version = n, en_Deleted = False, en_CreatedAt = now\<rparr>"
  let ?r1 = "r\<lparr>r_currentTerm := le_Term ?e, r_log := r_log r @ [?e],
      r_disk := (r_disk r)\<lparr>dk_journal := dk_journal (r_disk r) @ [JEntry ?e]\<rparr>,
      r_commitIndex := le_Index ?e\<rparr>"
  let ?r2 = "applyLocked now ?e ?r1"
  have "le_Index ?e > r_lastApplied ?r1"
    using next_index_greater [OF assms(3)] assms(4) by (simp add: numbered_def)
  then have r2: "?r2 = ?r1\<lparr>r_lastApplied := le_Index ?e,
      r_st := apply_store now (put_entry k v n) (r_st r),
      r_applyQueue := [Some ?en], r_applied := r_applied r + 1, r_applyCh := True\<rparr>"
    using assms(5)
    by (simp add: applyLocked_next apply_event_def apply_store_def store_get_def put_entry_def)
      (simp add: numbered_def)
  have drain: "applyFromQueue ?r2 = fanout (Some ?en) (?r2\<lparr>r_applyQueue := []\<rparr>)"
    unfolding applyFromQueue_def by (simp add: r2 split: option.splits)
  have "commit now ack JOk (put_entry k v n) r = finish_apply now ?e ?r1"
    using assms(1,2)
    by (simp add: commit_def raft_append_def journal_write_def raft_replicate_def Let_def numbered_def)
  also have "\<dots> = (case fanout (Some ?en) (?r2\<lparr>r_applyQueue := []\<rparr>) of
      None \<Rightarrow> (Panic ''watch'', ?r2) | Some r' \<Rightarrow> (Ok (), r'))"
    unfolding finish_apply_def Let_def drain ..
  finally have "commit now ack JOk (put_entry k v n) r = \<dots>" .
  moreover have "r_watchers ?r2 = r_watchers r" "store_get (r_st ?r2) k = Some ?en"
    unfolding r2 by (simp_all add: store_get_def apply_store_def put_entry_def)
  moreover have "entry_holds ?en k v n" by (simp add: entry_holds_def)
  ultimately show ?thesis by blast
qed

text \<open>
  A watcher with room in its buffer receives every write of a key under its prefix:
  after a successful Put its channel is extended by exactly the entry that Put returned, and
  watchers of other prefixes are left alone.
\<close>

theorem watcher_receives_put:
  assumes "raft_wf r" and "0 < raft_room r" and "r_applyQueue r = []"
    and "mget (r_watchers r) p = Some ws" and "i < length ws" and "length (wa_ch (ws ! i)) < 256"
  shows "\<exists>e r' ws'. raft_Put ack JOk now k v r = (Ok (Some e), r') \<and> mget (r_watchers r') p = Some ws'
    \<and> wa_ch (ws' ! i) =
        (if prefix (wa_prefix (ws ! i)) k then wa_ch (ws ! i) @ [e] else wa_ch (ws ! i))"
proof -
  let ?n = "next_version (raft_abs r) k"
  have pre: "r_journal_open r" "length (r_peers r) = 1" "r_lastApplied r = of_nat (length (r_log r))"
      "watchers_open (r_watchers r)" "Suc (length (r_log r)) < 2 ^ 64"
    using assms(1,2) by (simp_all add: raft_wf_defs raft_room_def)
  obtain r1 e where c: "commit now ack JOk (put_entry k v ?n) r =
      (case fanout (Some e) (r1\<lparr>r_applyQueue := []\<rparr>) of
         None \<Rightarrow> (Panic ''watch'', r1) | Some r2 \<Rightarrow> (Ok (), r2))"
      "r_watchers r1 = r_watchers r" "entry_holds e k v ?n" "store_get (r_st r1) k = Some e"
    using commit_put_fanout [OF pre(1,2,5,3) assms(3)] by blast
  obtain m where m: "fanout_watchers (Some e) (r_watchers r) = Some m"
    using fanout_watchers_open [OF _ pre(4), of "Some e"] by auto
  obtain ws' where ws': "mget m p = Some ws'" "offer_all (Some e) ws = Some ws'"
    using fanout_watchers_mget [OF m assms(4)] by blast
  have "(p, ws) \<in> set (r_watchers r)" using assms(4) by (rule mget_Some_in)
  then have "\<not> wa_closed (ws ! i)" using pre(4) assms(5) by (fastforce simp: watchers_open_def)
  moreover have "ws' ! i = the (offer (Some e) (ws ! i))"
    using offer_all_nth [OF ws'(2)] assms(5) by simp
  ultimately have "wa_ch (ws' ! i) =
      (if prefix (wa_prefix (ws ! i)) k then wa_ch (ws ! i) @ [e] else wa_ch (ws ! i))"
    using assms(6) c(3) by (simp add: offer_def hasPrefix_iff entry_holds_def)
  moreover have "raft_Put ack JOk now k v r =
      (Ok (Some e), r1\<lparr>r_applyQueue := [], r_watchers := m, r_puts := r_puts r1 + 1\<rparr>)"
    using c(1,2,4) m
    by (simp add: raft_Put_def put_commit_def put_version_abs fanout_def)
  ultimately show ?thesis using ws'(1) by auto
qed

definition demo_watched :: raft where
  "demo_watched =
     snd (snd (raft_Watch \<lparr>wo_Prefix = ''a/'', wo_Since = 0, wo_Timeout = 0\<rparr> (demo_raft [])))"

lemma demo_watched_eq: "demo_watched =
    (demo_raft [])\<lparr>r_watchers := [(''a/'', [\<lparr>wa_prefix = ''a/'', wa_ch = [], wa_closed = False\<rparr>])]\<rparr>"
  by (simp add: demo_watched_def raft_Watch_def Let_def mput_def) (simp add: demo_raft_def mget_def)

theorem watcher_receives_put_witness:
  "\<exists>e r' ws'. raft_Put (\<lambda>_. False) JOk 4 ''a/x'' ''v'' demo_watched = (Ok (Some e), r')
    \<and> mget (r_watchers r') ''a/'' = Some ws' \<and> wa_ch (ws' ! 0) = [e]"
proof -
  have "raft_wf demo_watched" "0 < raft_room demo_watched" "r_applyQueue demo_watched = []"
    using demo_solo(1,2,4)
    by (simp_all add: demo_watched_eq raft_wf_defs raft_room_def watchers_open_def)
  from watcher_receives_put [OF this, of "''a/''" _ 0 "\<lambda>_. False" 4 "''a/x''" "''v''"]
  show ?thesis by (simp add: demo_watched_eq mget_def prefix_def)
qed

text \<open>
  A watch with a timeout is closed but never unregistered: once its timer has fired, the
  next Put of a key under its prefix sends on the closed channel and panics.
\<close>

theorem expired_watch_panics_next_put:
  assumes "raft_wf r" and "0 < raft_room r" and "r_applyQueue r = []"
    and "raft_Watch opts r = (h, es, r1)" and "0 < wo_Timeout opts" and "prefix (wo_Prefix opts) k"
  shows "fst (raft_Put ack JOk now k v (watch_timeout opts h r1)) = Panic ''watch''"
proof -
  let ?p = "wo_Prefix opts"
  let ?w = "\<lparr>wa_prefix = ?p, wa_ch = [], wa_closed = True\<rparr>"
  let ?r = "watch_timeout opts h r1"
  obtain subs where subs: "r1 = r\<lparr>r_watchers :=
        mput ?p (subs @ [\<lparr>wa_prefix = ?p, wa_ch = [], wa_closed = False\<rparr>]) (r_watchers r)\<rparr>"
      "h = (?p, length subs)"
    using assms(4) by (auto simp: raft_Watch_def Let_def)
  have w: "mget (r_watchers ?r) ?p = Some (subs @ [?w])" using assms(5) by (simp add: subs watch_timeout_def)
  have same: "r_journal_open ?r = r_journal_open r" "r_peers ?r = r_peers r" "r_log ?r = r_log r"
      "r_lastApplied ?r = r_lastApplied r" "r_applyQueue ?r = r_applyQueue r"
    by (simp_all add: subs watch_timeout_def)
  obtain r2 e where c: "commit now ack JOk (put_entry k v (put_version k ?r)) ?r =
      (case fanout (Some e) (r2\<lparr>r_applyQueue := []\<rparr>) of
         None \<Rightarrow> (Panic ''watch'', r2) | Some r' \<Rightarrow> (Ok (), r'))"
      "r_watchers r2 = r_watchers ?r" "entry_holds e k v (put_version k ?r)"
    using commit_put_fanout [of ?r now ack k v "put_version k ?r"] assms(1-3)
    by (auto simp: same raft_wf_defs raft_room_def)
  have "offer (Some e) ((subs @ [?w]) ! length subs) = None"
    using assms(6) c(3) by (simp add: offer_def hasPrefix_iff entry_holds_def)
  then have "offer_all (Some e) (subs @ [?w]) = None"
    using offer_all_None [of "length subs" "subs @ [?w]"] by simp
  then have "fanout_watchers (Some e) (r_watchers r2) = None"
    using fanout_watchers_None w c(2) by metis
  with c(1) show ?thesis by (simp add: raft_Put_def put_commit_def fanout_def)
qed

theorem expired_watch_panics_next_put_witness:
  "fst (raft_Put (\<lambda>_. False) JOk 9 ''a/x'' ''v'' 
    (watch_timeout \<lparr>wo_Prefix = ''a/'', wo_Since = 0, wo_Timeout = second\<rparr> (''a/'', 0) demo_watched)) =
    Panic ''watch''"
proof -
  let ?o = "\<lparr>wo_Prefix = ''a/'', wo_Since = 0, wo_Timeout = second\<rparr>"
  have "raft_Watch ?o (demo_raft []) = ((''a/'', 0), [], demo_watched)"
    unfolding demo_watched_eq
    by (simp add: raft_Watch_def Let_def mput_def)
      (simp add: demo_raft_def mget_def raft_List_def)
  moreover have "0 < raft_room (demo_raft [])" by (simp add: demo_solo)
  ultimately show ?thesis
    using expired_watch_panics_next_put [OF demo_solo(1) _ demo_solo(4), of ?o "(''a/'', 0)" "[]"
        demo_watched "''a/x''" "\<lambda>_. False" 9 "''v''"]
    by (simp add: prefix_def second_def)
qed

end
