(* ===== verification/GoJson.thy ===== *)
theory GoJson
  imports GoText "HOL-Library.Monad_Syntax"
begin

text \<open>
  The part of \<^verbatim>\<open>encoding/json\<close> that the platform relies on: what \<^verbatim>\<open>Marshal\<close> writes for strings, numbers,
  arrays and objects, the grammar that \<^verbatim>\<open>Unmarshal\<close> accepts, and how a member of an object finds the
  field of a struct. Strings are bytes, so the UTF-8 rules of the encoder and decoder are written out.
  The nesting depth of a document (10000 at most) is not limited here. Reading back what was written
  gives the value, for strings of ASCII characters.
\<close>

section \<open>UTF-8\<close>

definition in_range :: "nat \<Rightarrow> nat \<Rightarrow> char \<Rightarrow> bool" where
  "in_range a b c \<longleftrightarrow> a \<le> byte_val c \<and> byte_val c \<le> b"

text \<open>The length of the valid UTF-8 sequence that a string starts with; 0 when it is invalid.\<close>

fun utf8_size :: "string \<Rightarrow> nat" where
  "utf8_size [] = 0"
| "utf8_size (c # s) =
     (if byte_val c < 128 then 1
      else if in_range 194 223 c then
        (case s of d # _ \<Rightarrow> if in_range 128 191 d then 2 else 0 | _ \<Rightarrow> 0)
      else if in_range 224 239 c then
        (case s of
           d # e # _ \<Rightarrow>
             if in_range (if byte_val c = 224 then 160 else 128) (if byte_val c = 237 then 159 else 191) d
                \<and> in_range 128 191 e then 3 else 0
         | _ \<Rightarrow> 0)
      else if in_range 240 244 c then
        (case s of
           d # e # f # _ \<Rightarrow>
             if in_range (if byte_val c = 240 then 144 else 128) (if byte_val c = 244 then 143 else 191) d
                \<and> in_range 128 191 e \<and> in_range 128 191 f then 4 else 0
         | _ \<Rightarrow> 0)
      else 0)"

text \<open>The UTF-8 bytes of a code point below 0x110000 that is not a surrogate.\<close>

definition utf8_encode :: "nat \<Rightarrow> string" where
  "utf8_encode r =
     map byte_of
      (if r < 128 then [r]
       else if r < 2048 then [192 + r div 64, 128 + r mod 64]
       else if r < 65536 then [224 + r div 4096, 128 + r div 64 mod 64, 128 + r mod 64]
       else [240 + r div 262144, 128 + r div 4096 mod 64, 128 + r div 64 mod 64, 128 + r mod 64])"

definition rune_error :: string where
  "rune_error = utf8_encode 65533"

section \<open>Writing\<close>

datatype json = JNull | JBool bool | JNumber string | JString string
  | JArray "json list" | JObject "(string \<times> json) list"

definition quote :: char where "quote = CHR 0x22"
definition backslash :: char where "backslash = CHR 0x5C"

definition u_escape :: "nat \<Rightarrow> string" where
  "u_escape r =
     [backslash, CHR ''u'', hex_digit (r div 4096 mod 16), hex_digit (r div 256 mod 16),
      hex_digit (r div 16 mod 16), hex_digit (r mod 16)]"

definition escape_ascii :: "char \<Rightarrow> string" where
  "escape_ascii c =
     (let n = byte_val c in
      if n = 34 \<or> n = 92 then [backslash, c]
      else if n = 8 then [backslash, CHR ''b'']
      else if n = 12 then [backslash, CHR ''f'']
      else if n = 10 then [backslash, CHR ''n'']
      else if n = 13 then [backslash, CHR ''r'']
      else if n = 9 then [backslash, CHR ''t'']
      else if n < 32 \<or> n = 60 \<or> n = 62 \<or> n = 38 then u_escape n
      else [c])"

function json_escape :: "string \<Rightarrow> string" where
  "json_escape [] = []"
| "json_escape (c # s) =
     (if byte_val c < 128 then escape_ascii c @ json_escape s
      else
        let k = utf8_size (c # s) in
        if k = 0 then u_escape 65533 @ json_escape s
        else if map byte_val (take 3 (c # s)) = [226, 128, 168] then u_escape 8232 @ json_escape (drop 2 s)
        else if map byte_val (take 3 (c # s)) = [226, 128, 169] then u_escape 8233 @ json_escape (drop 2 s)
        else take k (c # s) @ json_escape (drop (k - 1) s))"
  by pat_completeness auto
termination by (relation "measure length") auto

definition json_quote :: "string \<Rightarrow> string" where
  "json_quote s = quote # json_escape s @ [quote]"

fun json_print :: "json \<Rightarrow> string"
  and json_print_elems :: "json list \<Rightarrow> string"
  and json_print_members :: "(string \<times> json) list \<Rightarrow> string" where
  "json_print JNull = ''null''"
| "json_print (JBool b) = (if b then ''true'' else ''false'')"
| "json_print (JNumber s) = s"
| "json_print (JString s) = json_quote s"
| "json_print (JArray xs) = CHR ''['' # json_print_elems xs"
| "json_print (JObject ms) = CHR ''{'' # json_print_members ms"
| "json_print_elems [] = '']''"
| "json_print_elems [x] = json_print x @ '']''"
| "json_print_elems (x # y # xs) = json_print x @ '','' @ json_print_elems (y # xs)"
| "json_print_members [] = ''}''"
| "json_print_members [(k, x)] = json_quote k @ '':'' @ json_print x @ ''}''"
| "json_print_members ((k, x) # m # ms) =
     json_quote k @ '':'' @ json_print x @ '','' @ json_print_members (m # ms)"

section \<open>Reading\<close>

definition is_space :: "char \<Rightarrow> bool" where
  "is_space c \<longleftrightarrow> byte_val c \<in> {32, 9, 10, 13}"

definition skip_space :: "string \<Rightarrow> string" where
  "skip_space = dropWhile is_space"

text \<open>A literal of the number grammar at the start of a string, and the rest.\<close>

definition scan_frac :: "string \<Rightarrow> (string \<times> string) option" where
  "scan_frac s =
     (case s of
        [] \<Rightarrow> Some ([], [])
      | c # r \<Rightarrow>
          if c \<noteq> CHR ''.'' then Some ([], s)
          else if takeWhile is_digit r = [] then None
          else Some (c # takeWhile is_digit r, dropWhile is_digit r))"

definition scan_exp :: "string \<Rightarrow> (string \<times> string) option" where
  "scan_exp s =
     (case s of
        [] \<Rightarrow> Some ([], [])
      | c # r \<Rightarrow>
          if c \<noteq> CHR ''e'' \<and> c \<noteq> CHR ''E'' then Some ([], s)
          else
            let sg = (case r of d # _ \<Rightarrow> if d = CHR ''+'' \<or> d = CHR ''-'' then [d] else [] | [] \<Rightarrow> []);
                t = drop (length sg) r
            in if takeWhile is_digit t = [] then None
               else Some (c # sg @ takeWhile is_digit t, dropWhile is_digit t))"

definition scan_int :: "string \<Rightarrow> (string \<times> string) option" where
  "scan_int s =
     (case s of
        [] \<Rightarrow> None
      | c # r \<Rightarrow>
          if c = CHR ''0'' then Some ([c], r)
          else if is_digit c then Some (c # takeWhile is_digit r, dropWhile is_digit r)
          else None)"

definition scan_number :: "string \<Rightarrow> (string \<times> string) option" where
  "scan_number s =
     (let sg = (case s of c # _ \<Rightarrow> if c = CHR ''-'' then [c] else [] | [] \<Rightarrow> []) in
      do {
        (i, s1) \<leftarrow> scan_int (drop (length sg) s);
        (f, s2) \<leftarrow> scan_frac s1;
        (e, s3) \<leftarrow> scan_exp s2;
        Some (sg @ i @ f @ e, s3)
      })"

definition hex4 :: "string \<Rightarrow> nat option" where
  "hex4 s =
     (case s of
        a # b # c # d # _ \<Rightarrow>
          (case (hex_value a, hex_value b, hex_value c, hex_value d) of
             (Some w, Some x, Some y, Some z) \<Rightarrow> Some (w * 4096 + x * 256 + y * 16 + z)
           | _ \<Rightarrow> None)
      | _ \<Rightarrow> None)"

definition is_surrogate :: "nat \<Rightarrow> bool" where
  "is_surrogate r \<longleftrightarrow> 55296 \<le> r \<and> r < 57344"

text \<open>
  What follows the two characters \<^verbatim>\<open>\u\<close>: the bytes of the character and the number of characters
  read. A surrogate takes the second half from a \<^verbatim>\<open>\u\<close> escape behind it, or is the replacement
  character.
\<close>

definition u_unescape :: "string \<Rightarrow> (string \<times> nat) option" where
  "u_unescape s =
     (case hex4 s of
        None \<Rightarrow> None
      | Some r \<Rightarrow>
          if \<not> is_surrogate r then Some (utf8_encode r, 4)
          else
            (case drop 4 s of
               a # b # t \<Rightarrow>
                 if a = backslash \<and> b = CHR ''u'' then
                   (case hex4 t of
                      Some r2 \<Rightarrow>
                        if r < 56320 \<and> 56320 \<le> r2 \<and> r2 < 57344
                        then Some (utf8_encode (65536 + (r - 55296) * 1024 + (r2 - 56320)), 10)
                        else Some (rune_error, 4)
                    | None \<Rightarrow> Some (rune_error, 4))
                 else Some (rune_error, 4)
             | _ \<Rightarrow> Some (rune_error, 4)))"

definition simple_escape :: "char \<Rightarrow> char option" where
  "simple_escape c =
     (if c = quote \<or> c = backslash \<or> c = CHR ''/'' then Some c
      else if c = CHR ''b'' then Some (byte_of 8)
      else if c = CHR ''f'' then Some (byte_of 12)
      else if c = CHR ''n'' then Some (byte_of 10)
      else if c = CHR ''r'' then Some (byte_of 13)
      else if c = CHR ''t'' then Some (byte_of 9)
      else None)"

text \<open>The content of a string literal behind its opening quote, and the rest behind the closing one.\<close>

function json_unescape :: "string \<Rightarrow> (string \<times> string) option" where
  "json_unescape [] = None"
| "json_unescape (c # s) =
     (if c = quote then Some ([], s)
      else if c = backslash then
        (case s of
           [] \<Rightarrow> None
         | d # t \<Rightarrow>
             if d = CHR ''u'' then
               (case u_unescape t of
                  None \<Rightarrow> None
                | Some (x, k) \<Rightarrow> map_option (apfst ((@) x)) (json_unescape (drop k t)))
             else
               (case simple_escape d of
                  None \<Rightarrow> None
                | Some x \<Rightarrow> map_option (apfst ((#) x)) (json_unescape t)))
      else if byte_val c < 32 then None
      else if byte_val c < 128 then map_option (apfst ((#) c)) (json_unescape s)
      else
        let k = utf8_size (c # s) in
        if k = 0 then map_option (apfst ((@) rune_error)) (json_unescape s)
        else map_option (apfst ((@) (take k (c # s)))) (json_unescape (drop (k - 1) s)))"
  by pat_completeness auto
termination by (relation "measure length") auto

text \<open>
  The value parser; its first argument bounds the number of nested calls, and the length of the text
  is always enough.
\<close>

fun scan_value :: "nat \<Rightarrow> string \<Rightarrow> (json \<times> string) option"
  and scan_elems :: "nat \<Rightarrow> string \<Rightarrow> (json list \<times> string) option"
  and scan_members :: "nat \<Rightarrow> string \<Rightarrow> ((string \<times> json) list \<times> string) option" where
  "scan_value 0 s = None"
| "scan_value (Suc n) s =
     (case skip_space s of
        [] \<Rightarrow> None
      | c # r \<Rightarrow>
          if c = quote then map_option (apfst JString) (json_unescape r)
          else if c = CHR ''['' then
            (case skip_space r of
               [] \<Rightarrow> None
             | d # t \<Rightarrow> if d = CHR '']'' then Some (JArray [], t)
                        else map_option (apfst JArray) (scan_elems n r))
          else if c = CHR ''{'' then
            (case skip_space r of
               [] \<Rightarrow> None
             | d # t \<Rightarrow> if d = CHR ''}'' then Some (JObject [], t)
                        else map_option (apfst JObject) (scan_members n r))
          else if take 4 (c # r) = ''true'' then Some (JBool True, drop 4 (c # r))
          else if take 5 (c # r) = ''false'' then Some (JBool False, drop 5 (c # r))
          else if take 4 (c # r) = ''null'' then Some (JNull, drop 4 (c # r))
          else map_option (apfst JNumber) (scan_number (c # r)))"
| "scan_elems 0 s = None"
| "scan_elems (Suc n) s =
     (case scan_value n s of
        None \<Rightarrow> None
      | Some (x, r) \<Rightarrow>
          (case skip_space r of
             [] \<Rightarrow> None
           | d # t \<Rightarrow> if d = CHR '']'' then Some ([x], t)
                      else if d = CHR '','' then map_option (apfst ((#) x)) (scan_elems n t)
                      else None))"
| "scan_members 0 s = None"
| "scan_members (Suc n) s =
     (case skip_space s of
        [] \<Rightarrow> None
      | q # r \<Rightarrow>
          if q \<noteq> quote then None
          else
            (case json_unescape r of
               None \<Rightarrow> None
             | Some (k, r1) \<Rightarrow>
                 (case skip_space r1 of
                    [] \<Rightarrow> None
                  | e # r2 \<Rightarrow>
                      if e \<noteq> CHR '':'' then None
                      else
                        (case scan_value n r2 of
                           None \<Rightarrow> None
                         | Some (x, r3) \<Rightarrow>
                             (case skip_space r3 of
                                [] \<Rightarrow> None
                              | d # t \<Rightarrow>
                                  if d = CHR ''}'' then Some ([(k, x)], t)
                                  else if d = CHR '','' then map_option (apfst ((#) (k, x))) (scan_members n t)
                                  else None)))))"

definition json_parse :: "string \<Rightarrow> json option" where
  "json_parse s =
     (case scan_value (Suc (length s)) s of
        Some (j, r) \<Rightarrow> if skip_space r = [] then Some j else None
      | None \<Rightarrow> None)"

section \<open>Fields of a struct\<close>

text \<open>
  A member sets the field with its name, letter case aside. Two characters outside ASCII fold to a
  letter: the long s (bytes 197, 191) and the Kelvin sign (bytes 226, 132, 170).
\<close>

definition lower :: "char \<Rightarrow> char" where
  "lower c = (if in_range 65 90 c then byte_of (byte_val c + 32) else c)"

fun fold_name :: "string \<Rightarrow> string" where
  "fold_name (a # b # c # s) =
     (if map byte_val [a, b, c] = [226, 132, 170] then CHR ''k'' # fold_name s
      else if map byte_val [a, b] = [197, 191] then CHR ''s'' # fold_name (c # s)
      else lower a # fold_name (b # c # s))"
| "fold_name [a, b] = (if map byte_val [a, b] = [197, 191] then ''s'' else [lower a, lower b])"
| "fold_name [a] = [lower a]"
| "fold_name [] = []"

definition names_field :: "string \<Rightarrow> string \<Rightarrow> bool" where
  "names_field f k \<longleftrightarrow> k = f \<or> fold_name k = fold_name f"

text \<open>
  Reading a struct: the members in their order, with what each does to the struct and to the flag that no
  value had a wrong type; null leaves the struct as it is.
\<close>

type_synonym 'a member_reader = "string \<times> json \<Rightarrow> 'a \<times> bool \<Rightarrow> 'a \<times> bool"

definition read_struct :: "'a member_reader \<Rightarrow> 'a \<Rightarrow> json option \<Rightarrow> 'a option" where
  "read_struct member zero j =
     (case j of
        Some JNull \<Rightarrow> Some zero
      | Some (JObject ms) \<Rightarrow> (case fold member ms (zero, True) of (x, good) \<Rightarrow> if good then Some x else None)
      | _ \<Rightarrow> None)"

definition read_string :: "(string \<Rightarrow> 'a \<Rightarrow> 'a) \<Rightarrow> json \<Rightarrow> 'a \<times> bool \<Rightarrow> 'a \<times> bool" where
  "read_string upd x acc =
     (case x of JString v \<Rightarrow> (upd v (fst acc), snd acc) | JNull \<Rightarrow> acc | _ \<Rightarrow> (fst acc, False))"

definition read_bool :: "(bool \<Rightarrow> 'a \<Rightarrow> 'a) \<Rightarrow> json \<Rightarrow> 'a \<times> bool \<Rightarrow> 'a \<times> bool" where
  "read_bool upd x acc =
     (case x of JBool v \<Rightarrow> (upd v (fst acc), snd acc) | JNull \<Rightarrow> acc | _ \<Rightarrow> (fst acc, False))"

definition read_int64 :: "(int \<Rightarrow> 'a \<Rightarrow> 'a) \<Rightarrow> json \<Rightarrow> 'a \<times> bool \<Rightarrow> 'a \<times> bool" where
  "read_int64 upd x acc =
     (case x of
        JNumber n \<Rightarrow> (case ParseInt n of Some i \<Rightarrow> (upd i (fst acc), snd acc) | None \<Rightarrow> (fst acc, False))
      | JNull \<Rightarrow> acc
      | _ \<Rightarrow> (fst acc, False))"

text \<open>An object and a slice inside a value.\<close>

definition read_object :: "'a member_reader \<Rightarrow> json \<Rightarrow> 'a \<times> bool \<Rightarrow> 'a \<times> bool" where
  "read_object member x acc =
     (case x of JObject ms \<Rightarrow> fold member ms acc | JNull \<Rightarrow> acc | _ \<Rightarrow> (fst acc, False))"

text \<open>
  A slice is its memory and its length: an element is read into the memory that an earlier member of the
  same name has left there.
\<close>

definition read_slice :: "(json \<Rightarrow> 'a \<times> bool \<Rightarrow> 'a \<times> bool) \<Rightarrow> 'a \<Rightarrow> json \<Rightarrow> ('a list \<times> nat) \<times> bool \<Rightarrow> ('a list \<times> nat) \<times> bool" where
  "read_slice elem zero x acc =
     (case x of
        JNull \<Rightarrow> (([], 0), snd acc)
      | JArray [] \<Rightarrow> (([], 0), snd acc)
      | JArray xs \<Rightarrow>
          (let mem = fst (fst acc);
               rs = map (\<lambda>(x, old). elem x (old, True)) (zip xs (mem @ replicate (length xs) zero))
           in ((map fst rs @ drop (length xs) mem, length xs), snd acc \<and> list_all snd rs))
      | _ \<Rightarrow> (fst acc, False))"

definition slice_list :: "'a list \<times> nat \<Rightarrow> 'a list" where
  "slice_list sl = take (snd sl) (fst sl)"

text \<open>
  Into a map from strings to strings: null as a value is the empty string, any other value is an error and
  leaves the empty string, a later member overwrites an earlier one.
\<close>

definition map_member :: "(string, string) gomap member_reader" where
  "map_member km acc =
     (case km of (k, x) \<Rightarrow>
        (case x of
           JString v \<Rightarrow> (mput k v (fst acc), snd acc)
         | JNull \<Rightarrow> (mput k [] (fst acc), snd acc)
         | _ \<Rightarrow> (mput k [] (fst acc), False)))"

text \<open>\<^verbatim>\<open>Decoder.Decode\<close> reads one value and does not look at what follows it.\<close>

definition json_read :: "string \<Rightarrow> json option" where
  "json_read s = map_option fst (scan_value (Suc (length s)) s)"

lemma json_read_parse: "json_parse s = Some j \<Longrightarrow> json_read s = Some j"
  by (auto simp: json_parse_def json_read_def split: option.splits if_splits)

section \<open>Reading back\<close>

definition ascii :: "string \<Rightarrow> bool" where
  "ascii s \<longleftrightarrow> list_all (\<lambda>c. byte_val c < 128) s"

lemma byte_val_eq_iff: "byte_val c = byte_val d \<longleftrightarrow> c = d"
  by (metis byte_of_val)

lemma marks [simp]: "byte_val quote = 34" "byte_val backslash = 92" "quote \<noteq> backslash" "backslash \<noteq> quote"
  by (simp_all add: quote_def backslash_def byte_val_def)

lemma hex_digit_marks [simp]: "n < 16 \<Longrightarrow> hex_value (hex_digit n) = Some n"
  by simp

lemma u_unescape_ascii:
  assumes "n < 128"
  shows "u_unescape (drop 2 (u_escape n) @ t) = Some ([byte_of n], 4)"
proof -
  have "n div 4096 = 0" "n div 256 = 0" "n div 16 mod 16 = n div 16" "n div 16 * 16 + n mod 16 = n"
    using assms by auto
  then have "hex4 (drop 2 (u_escape n) @ t) = Some n" by (simp add: hex4_def u_escape_def)
  then show ?thesis using assms by (simp add: u_unescape_def is_surrogate_def utf8_encode_def)
qed

lemma unescape_u_escape:
  assumes "n < 128"
  shows "json_unescape (u_escape n @ t) = map_option (apfst ((#) (byte_of n))) (json_unescape t)"
proof -
  define ds where "ds = drop 2 (u_escape n)"
  have u: "u_escape n = backslash # CHR ''u'' # ds" "length ds = 4" by (simp_all add: u_escape_def ds_def)
  have "u_unescape (ds @ t) = Some ([byte_of n], 4)" unfolding ds_def by (rule u_unescape_ascii [OF assms])
  moreover have "(@) [x] = (#) x" for x :: char by (simp add: fun_eq_iff)
  ultimately show ?thesis by (simp add: u)
qed

lemma unescape_short:
  assumes "simple_escape d = Some x" and "d \<noteq> CHR ''u''"
  shows "json_unescape (backslash # d # t) = map_option (apfst ((#) x)) (json_unescape t)"
  using assms by simp

lemma unescape_short_ascii:
  "n \<in> {8, 12, 10, 13, 9} \<Longrightarrow>
    json_unescape (escape_ascii (byte_of n) @ t) = map_option (apfst ((#) (byte_of n))) (json_unescape t)"
  by (elim insertE emptyE; hypsubst)
    (simp_all add: escape_ascii_def Let_def, simp_all add: simple_escape_def quote_def backslash_def)

lemma unescape_escape_ascii:
  assumes "byte_val c < 128"
  shows "json_unescape (escape_ascii c @ t) = map_option (apfst ((#) c)) (json_unescape t)"
proof -
  let ?n = "byte_val c"
  consider "?n = 34 \<or> ?n = 92" | "?n \<in> {8, 12, 10, 13, 9}"
    | "?n \<notin> {34, 92, 8, 12, 10, 13, 9}" "?n < 32 \<or> ?n = 60 \<or> ?n = 62 \<or> ?n = 38"
    | "?n \<notin> {34, 92}" "32 \<le> ?n" "?n \<noteq> 60" "?n \<noteq> 62" "?n \<noteq> 38"
    using not_less [of ?n 32] by blast
  then show ?thesis
  proof cases
    case 1
    then have "c = quote \<or> c = backslash" by (metis byte_of_val marks(1,2))
    then have "simple_escape c = Some c" "c \<noteq> CHR ''u''"
      by (auto simp: simple_escape_def quote_def backslash_def byte_of_def)
    with 1 show ?thesis using unescape_short [of c c t] by (simp add: escape_ascii_def)
  next
    case 2
    then show ?thesis using unescape_short_ascii [of ?n t] by simp
  next
    case 3
    then show ?thesis using unescape_u_escape [of ?n t] assms by (simp add: escape_ascii_def Let_def)
  next
    case 4
    then have "c \<noteq> quote" "c \<noteq> backslash" by auto
    with 4 assms show ?thesis by (simp add: escape_ascii_def Let_def)
  qed
qed

lemma unescape_quote: "json_unescape (quote # t) = Some ([], t)"
  by simp

declare json_unescape.simps [simp del]

lemma unescape_escape: "ascii s \<Longrightarrow> json_unescape (json_escape s @ quote # t) = Some (s, t)"
proof (induction s)
  case Nil
  then show ?case by (simp add: unescape_quote)
next
  case (Cons c s)
  then have "byte_val c < 128" "ascii s" by (simp_all add: ascii_def)
  with Cons.IH show ?case by (simp add: unescape_escape_ascii)
qed

section \<open>Reading back a value\<close>

text \<open>What may follow a value: the end, or a character that no number literal continues with.\<close>

definition delimited :: "string \<Rightarrow> bool" where
  "delimited t \<longleftrightarrow> (case t of [] \<Rightarrow> True | c # _ \<Rightarrow> c \<in> {CHR '','', CHR '']'', CHR ''}'', CHR 0x0A})"

definition number_ok :: "string \<Rightarrow> bool" where
  "number_ok s \<longleftrightarrow> scan_number s = Some (s, [])"

lemma delimited_cases:
  assumes "delimited t"
  shows "takeWhile is_digit t = []" "dropWhile is_digit t = t" "scan_frac t = Some ([], t)"
    "scan_exp t = Some ([], t)"
  using assms by (auto simp: delimited_def is_digit_def scan_frac_def scan_exp_def split: list.splits)

definition plain_int :: "string \<Rightarrow> bool" where
  "plain_int ds \<longleftrightarrow> ds \<noteq> [] \<and> list_all is_digit ds \<and> (hd ds = CHR ''0'' \<longrightarrow> ds = ''0'')"

lemma scan_int_plain:
  assumes "plain_int ds" and "delimited t"
  shows "scan_int (ds @ t) = Some (ds, t)"
proof -
  obtain c cs where ds: "ds = c # cs" using assms(1) by (cases ds) (auto simp: plain_int_def)
  have cs: "list_all is_digit cs" "is_digit c" using assms(1) by (simp_all add: plain_int_def ds)
  then have "takeWhile is_digit (cs @ t) = cs" "dropWhile is_digit (cs @ t) = t"
    using delimited_cases(1,2) [OF assms(2)] by (induction cs) simp_all
  then show ?thesis using assms(1) cs(2) by (auto simp: scan_int_def ds plain_int_def)
qed

lemma scan_number_plain:
  assumes "plain_int ds" and "delimited t"
  shows "scan_number (ds @ t) = Some (ds, t)" "scan_number (CHR ''-'' # ds @ t) = Some (CHR ''-'' # ds, t)"
proof -
  have "ds \<noteq> []" "hd ds \<noteq> CHR ''-''" using assms(1) by (auto simp: plain_int_def is_digit_def neq_Nil_conv)
  then show "scan_number (ds @ t) = Some (ds, t)"
    using scan_int_plain [OF assms] delimited_cases [OF assms(2)]
    by (cases ds) (simp_all add: scan_number_def Let_def)
  show "scan_number (CHR ''-'' # ds @ t) = Some (CHR ''-'' # ds, t)"
    using scan_int_plain [OF assms] delimited_cases [OF assms(2)] by (simp add: scan_number_def Let_def)
qed

lemma plain_int_digits: "plain_int (digits n)"
proof (cases "n = 0")
  case True
  then show ?thesis by (simp add: digits.simps [of 0] plain_int_def digit_def is_digit_def)
next
  case False
  then show ?thesis using digits_head [of n] by (simp add: plain_int_def)
qed

fun json_wf :: "json \<Rightarrow> bool" where
  "json_wf JNull = True"
| "json_wf (JBool _) = True"
| "json_wf (JNumber s) \<longleftrightarrow> plain_int s \<or> s \<noteq> [] \<and> hd s = CHR ''-'' \<and> plain_int (tl s)"
| "json_wf (JString s) = ascii s"
| "json_wf (JArray xs) = list_all json_wf xs"
| "json_wf (JObject ms) = list_all (\<lambda>(k, x). ascii k \<and> json_wf x) ms"

lemma scan_number_wf:
  "json_wf (JNumber s) \<Longrightarrow> delimited t \<Longrightarrow> scan_number (s @ t) = Some (s, t)"
  using scan_number_plain [of s t] scan_number_plain [of "tl s" t] by (cases s) auto

lemma number_head:
  assumes "json_wf (JNumber s)"
  shows "\<exists>c r. s = c # r \<and> (is_digit c \<or> c = CHR ''-'')"
  using assms by (cases s) (auto simp: plain_int_def)

lemma head_marks:
  "is_digit c \<or> c = CHR ''-'' \<Longrightarrow>
    \<not> is_space c \<and> c \<noteq> quote \<and> c \<notin> {CHR ''['', CHR '']'', CHR ''{'', CHR ''}'', CHR ''t'', CHR ''f'', CHR ''n''}"
  by (auto simp: is_digit_def is_space_def quote_def byte_val_def)

lemma json_print_head:
  assumes "json_wf j"
  shows "\<exists>c r. json_print j = c # r \<and> \<not> is_space c \<and> c \<noteq> CHR '']'' \<and> c \<noteq> CHR ''}''"
proof (cases j)
  case (JNumber s)
  then show ?thesis using assms number_head [of s] head_marks by fastforce
qed (auto simp: is_space_def byte_val_def json_quote_def quote_def)

lemma skip_space_print: "json_wf j \<Longrightarrow> skip_space (json_print j @ t) = json_print j @ t"
  using json_print_head [of j] by (auto simp: skip_space_def)

lemma skip_space_mark [simp]:
  "skip_space (CHR '','' # t) = CHR '','' # t" "skip_space (CHR '']'' # t) = CHR '']'' # t"
  "skip_space (CHR ''}'' # t) = CHR ''}'' # t" "skip_space (CHR '':'' # t) = CHR '':'' # t"
  "skip_space (CHR ''['' # t) = CHR ''['' # t" "skip_space (CHR ''{'' # t) = CHR ''{'' # t"
  "skip_space (quote # t) = quote # t"
  by (simp_all add: skip_space_def is_space_def byte_val_def quote_def)

lemma scan_quote: "ascii k \<Longrightarrow> json_quote k @ t = quote # json_escape k @ quote # t"
  by (simp add: json_quote_def)

lemma scan_leaf:
  assumes "json_wf j" and "delimited t" and "n \<noteq> 0"
  shows "j = JNull \<or> j = JBool b \<or> j = JString s \<or> j = JNumber s \<Longrightarrow>
    scan_value n (json_print j @ t) = Some (j, t)"
proof (elim disjE)
  obtain m where n: "n = Suc m" using assms(3) by (cases n) auto
  show "scan_value n (json_print j @ t) = Some (j, t)" if "j = JNull"
    using that skip_space_print [of JNull t] by (simp add: n quote_def)
  show "scan_value n (json_print j @ t) = Some (j, t)" if "j = JBool b"
    using that skip_space_print [of "JBool b" t] by (cases b) (simp_all add: n quote_def)
  show "scan_value n (json_print j @ t) = Some (j, t)" if "j = JString s"
    using that assms(1) by (simp add: n json_quote_def unescape_escape)
  assume j: "j = JNumber s"
  then obtain c r where s: "s = c # r" "is_digit c \<or> c = CHR ''-''" using assms(1) number_head [of s] by auto
  have "scan_number (c # r @ t) = Some (s, t)" using scan_number_wf [of s t] assms(1,2) j s(1) by simp
  moreover have "skip_space (c # r @ t) = c # r @ t" using skip_space_print [OF assms(1), of t] j s(1) by simp
  ultimately show "scan_value n (json_print j @ t) = Some (j, t)"
    using head_marks [OF s(2)] by (simp add: n j s(1))
qed

lemma scan_print:
  "json_wf j \<Longrightarrow> delimited t \<Longrightarrow> length (json_print j) \<le> n \<Longrightarrow>
    scan_value n (json_print j @ t) = Some (j, t)"
  "xs \<noteq> [] \<Longrightarrow> list_all json_wf xs \<Longrightarrow> length (json_print_elems xs) \<le> n \<Longrightarrow>
    scan_elems n (json_print_elems xs @ t) = Some (xs, t)"
  "ms \<noteq> [] \<Longrightarrow> list_all (\<lambda>(k, x). ascii k \<and> json_wf x) ms \<Longrightarrow> length (json_print_members ms) \<le> n \<Longrightarrow>
    scan_members n (json_print_members ms @ t) = Some (ms, t)"
proof (induction j and xs and ms arbitrary: n t and n t and n t
    rule: json_print_json_print_elems_json_print_members.induct)
  case (5 xs)
  then obtain m where n: "n = Suc m" by (cases n) auto
  show ?case
  proof (cases xs)
    case Nil
    then show ?thesis by (simp add: n quote_def)
  next
    case (Cons x ys)
    then obtain c r where "json_print x = c # r" "\<not> is_space c" "c \<noteq> CHR '']''"
      using 5(2) json_print_head [of x] by auto
    then have "\<exists>u. skip_space (json_print_elems xs @ t) = c # u" "c \<noteq> CHR '']''"
      by (cases ys; simp add: Cons skip_space_def)+
    moreover have "scan_elems m (json_print_elems xs @ t) = Some (xs, t)"
      using 5 by (simp add: n Cons)
    ultimately show ?thesis by (auto simp: n quote_def)
  qed
next
  case (6 ms)
  then obtain m where n: "n = Suc m" by (cases n) auto
  show ?case
  proof (cases ms)
    case Nil
    then show ?thesis by (simp add: n quote_def)
  next
    case (Cons x ys)
    obtain k y where x: "x = (k, y)" by (cases x)
    have "\<exists>u. skip_space (json_print_members ms @ t) = quote # u"
      by (cases ys) (simp_all add: Cons x json_quote_def)
    moreover have "quote \<noteq> CHR ''}''" by (simp add: quote_def)
    moreover have "scan_members m (json_print_members ms @ t) = Some (ms, t)"
      using 6 by (simp add: n Cons)
    ultimately show ?thesis by (auto simp: n quote_def)
  qed
next
  case (8 x)
  then obtain m where n: "n = Suc m" by (cases n) auto
  with 8 show ?case by (simp add: delimited_def)
next
  case (9 x y xs)
  then obtain m where n: "n = Suc m" by (cases n) auto
  with 9 show ?case by (simp add: delimited_def)
next
  case (11 k x)
  then obtain m where n: "n = Suc m" by (cases n) auto
  with 11 show ?case by (simp add: delimited_def json_quote_def unescape_escape)
next
  case (12 k x m' ms)
  then obtain m where n: "n = Suc m" by (cases n) auto
  with 12 show ?case by (simp add: delimited_def json_quote_def unescape_escape)
next
  case 1
  then show ?case by (intro scan_leaf) auto
next
  case (2 b)
  then show ?case by (intro scan_leaf) (auto split: if_splits)
next
  case (3 s)
  then have "n \<noteq> 0" using number_head [of s] by auto
  with 3 show ?case by (intro scan_leaf) auto
next
  case (4 s)
  then show ?case by (intro scan_leaf) (auto simp: json_quote_def)
qed simp_all

lemma json_parse_print:
  assumes "json_wf j"
  shows "json_parse (json_print j) = Some j"
  using scan_print(1) [OF assms, of "[]" "Suc (length (json_print j))"]
  by (simp add: json_parse_def delimited_def skip_space_def)

text \<open>Both readers also read what an encoder wrote with its newline.\<close>

lemma json_parse_line:
  assumes "json_wf j"
  shows "json_parse (json_print j @ [CHR 0x0A]) = Some j"
  using scan_print(1) [OF assms, of "[CHR 0x0A]" "Suc (length (json_print j @ [CHR 0x0A]))"]
  by (simp add: json_parse_def delimited_def skip_space_def is_space_def byte_val_def)

lemma json_read_line:
  assumes "json_wf j"
  shows "json_read (json_print j @ [CHR 0x0A]) = Some j"
  by (intro json_read_parse json_parse_line assms)

end
