(* ===== verification/GoTime.thy ===== *)
theory GoTime
  imports GoText "HOL-Library.Monad_Syntax"
begin

text \<open>
  How \<^verbatim>\<open>time.Time\<close> is written into and read from JSON: RFC 3339 with up to nine fractional digits. A
  time is its instant, and the zone in which it is written, in minutes east of UTC, is an argument.
  The calendar is computed by searching the year and the month of a day number, which makes reading
  back what was written immediate. The strict parser is the library's fast path; texts that only the
  general parser would accept are errors here.
\<close>

section \<open>The calendar\<close>

definition leap :: "int \<Rightarrow> bool" where
  "leap y \<longleftrightarrow> 4 dvd y \<and> (\<not> 100 dvd y \<or> 400 dvd y)"

text \<open>Days from 1 January of year 1 to 1 January of the year.\<close>

definition days_before_year :: "int \<Rightarrow> int" where
  "days_before_year y = 365 * (y - 1) + (y - 1) div 4 - (y - 1) div 100 + (y - 1) div 400"

definition month_lengths :: "int \<Rightarrow> int list" where
  "month_lengths y = [31, if leap y then 29 else 28, 31, 30, 31, 30, 31, 31, 30, 31, 30, 31]"

lemma days_before_year_less: "days_before_year y < days_before_year (y + 1)"
proof -
  have "(y - 1) div 4 \<le> y div 4" "y div 100 \<le> (y - 1) div 100 + 1" "(y - 1) div 400 \<le> y div 400"
    by (simp_all add: zdiv_mono1) 
  then show ?thesis by (simp add: days_before_year_def)
qed

function find_year :: "int \<Rightarrow> int \<Rightarrow> int" where
  "find_year d y = (if days_before_year (y + 1) \<le> d then find_year d (y + 1) else y)"
  by auto
termination
proof (relation "measure (\<lambda>(d, y). nat (d - days_before_year y))")
  show "((d, y + 1), (d, y)) \<in> measure (\<lambda>(d, y). nat (d - days_before_year y))"
    if "days_before_year (y + 1) \<le> d" for d y
    using that days_before_year_less [of y] by simp
qed simp

declare find_year.simps [simp del]

fun find_month :: "int list \<Rightarrow> int \<Rightarrow> nat \<Rightarrow> nat \<times> int" where
  "find_month [] d m = (m, d)"
| "find_month (l # ls) d m = (if d < l then (m, d) else find_month ls (d - l) (Suc m))"

definition days_before_month :: "int \<Rightarrow> nat \<Rightarrow> int" where
  "days_before_month y m = sum_list (take (m - 1) (month_lengths y))"

record civil =
  cv_year :: int
  cv_month :: nat
  cv_day :: int

definition civil_of :: "int \<Rightarrow> civil" where
  "civil_of d =
     (let y = find_year d (d div 366 + 1);
          (m, k) = find_month (month_lengths y) (d - days_before_year y) 1
      in \<lparr>cv_year = y, cv_month = m, cv_day = k + 1\<rparr>)"

definition day_number :: "civil \<Rightarrow> int" where
  "day_number c = days_before_year (cv_year c) + days_before_month (cv_year c) (cv_month c) + cv_day c - 1"

lemma find_year_bounds:
  "days_before_year y \<le> d \<Longrightarrow>
    days_before_year (find_year d y) \<le> d \<and> d < days_before_year (find_year d y + 1)"
proof (induction d y rule: find_year.induct)
  case (1 d y)
  then show ?case by (subst (1 2) find_year.simps) (auto simp: not_le)
qed

lemma find_month_spec:
  assumes "find_month ls d m = (m', d')" and "0 \<le> d" and "d < sum_list ls"
  shows "m \<le> m' \<and> m' - m < length ls \<and> d = sum_list (take (m' - m) ls) + d' \<and> 0 \<le> d' \<and> d' < ls ! (m' - m)"
  using assms
proof (induction ls d m rule: find_month.induct)
  case (2 l ls d m)
  show ?case
  proof (cases "d < l")
    case True
    with 2 show ?thesis by auto
  next
    case False
    with 2 have "Suc m \<le> m' \<and> m' - Suc m < length ls \<and> d - l = sum_list (take (m' - Suc m) ls) + d'
        \<and> 0 \<le> d' \<and> d' < ls ! (m' - Suc m)" by simp
    moreover from this have "m' - m = Suc (m' - Suc m)" by linarith
    ultimately show ?thesis by auto
  qed
qed simp

lemma div_pred:
  assumes "(0 :: int) < n"
  shows "y div n = (y - 1) div n + (if n dvd y then 1 else 0)"
proof (cases "n dvd y")
  case True
  then obtain k where y: "y = n * k" by auto
  have "(n * k - 1) div n = k - 1"
    using assms by (intro int_div_pos_eq [of _ _ _ "n - 1"]) (simp_all add: algebra_simps)
  then show ?thesis using True assms by (simp add: y)
next
  case False
  then have "0 < y mod n" using pos_mod_sign [OF assms, of y] by (simp add: dvd_eq_mod_eq_0)
  then have "(y - 1) div n = y div n"
    using assms pos_mod_bound [OF assms, of y]
    by (intro int_div_pos_eq [of _ _ _ "y mod n - 1"]) (simp_all add: algebra_simps)
  then show ?thesis using False by simp
qed

lemma year_length: "days_before_year (y + 1) = days_before_year y + sum_list (month_lengths y)"
proof -
  have "y div 4 = (y - 1) div 4 + (if 4 dvd y then 1 else 0)"
      "y div 100 = (y - 1) div 100 + (if 100 dvd y then 1 else 0)"
      "y div 400 = (y - 1) div 400 + (if 400 dvd y then 1 else 0)"
    by (rule div_pred, simp)+
  then have "days_before_year (y + 1) = days_before_year y + 365 + (if 4 dvd y then 1 else 0)
      - (if 100 dvd y then 1 else 0) + (if 400 dvd y then 1 else 0)"
    by (simp add: days_before_year_def)
  moreover have "400 dvd y \<Longrightarrow> 100 dvd y" "100 dvd y \<Longrightarrow> 4 dvd y"
    by (rule dvd_trans [rotated], assumption, simp)+
  moreover have "sum_list (month_lengths y) = 365 + (if leap y then 1 else 0)"
    by (simp add: month_lengths_def)
  ultimately show ?thesis
    by (cases "400 dvd y"; cases "100 dvd y"; cases "4 dvd y") (simp_all add: leap_def)
qed

definition civil_ok :: "civil \<Rightarrow> bool" where
  "civil_ok c \<longleftrightarrow> 0 \<le> cv_year c \<and> cv_year c \<le> 9999 \<and> 1 \<le> cv_month c \<and> cv_month c \<le> 12
     \<and> 1 \<le> cv_day c \<and> cv_day c \<le> month_lengths (cv_year c) ! (cv_month c - 1)"

lemma days_before_year_guess: "- 366 \<le> d \<Longrightarrow> days_before_year (d div 366 + 1) \<le> d"
proof -
  assume d: "- 366 \<le> d"
  define k where "k = d div 366"
  have "366 * k \<le> d" "- 1 \<le> k" using d by (simp_all add: k_def)
  moreover have "k div 4 - k div 100 + k div 400 \<le> k" if "- 1 \<le> k"
  proof (cases "k = - 1")
    case False
    then have "0 \<le> k" using that by simp
    then have "k div 4 \<le> k div 1" "k div 400 \<le> k div 100"
      by (intro zdiv_mono2; simp)+
    then show ?thesis by simp
  qed simp
  ultimately show ?thesis by (simp add: days_before_year_def k_def [symmetric])
qed

lemma civil_of_spec:
  assumes "- 366 \<le> d"
  shows "day_number (civil_of d) = d"
    and "0 \<le> cv_year (civil_of d) \<Longrightarrow> cv_year (civil_of d) \<le> 9999 \<Longrightarrow> civil_ok (civil_of d)"
proof -
  define y where "y = find_year d (d div 366 + 1)"
  obtain m k where m: "find_month (month_lengths y) (d - days_before_year y) 1 = (m, k)" by fastforce
  have c: "civil_of d = \<lparr>cv_year = y, cv_month = m, cv_day = k + 1\<rparr>"
    by (simp add: civil_of_def Let_def y_def [symmetric] m [unfolded One_nat_def])
  have "days_before_year y \<le> d" "d < days_before_year (y + 1)"
    using find_year_bounds [OF days_before_year_guess [OF assms]] by (simp_all add: y_def)
  then have "1 \<le> m \<and> m - 1 < length (month_lengths y)
      \<and> d - days_before_year y = sum_list (take (m - 1) (month_lengths y)) + k \<and> 0 \<le> k
      \<and> k < month_lengths y ! (m - 1)"
    using find_month_spec [OF m] by (simp add: year_length)
  then show "day_number (civil_of d) = d"
    and "0 \<le> cv_year (civil_of d) \<Longrightarrow> cv_year (civil_of d) \<le> 9999 \<Longrightarrow> civil_ok (civil_of d)"
    by (simp_all add: c day_number_def days_before_month_def civil_ok_def)
      (auto simp: month_lengths_def)
qed

section \<open>RFC 3339\<close>

definition day_ns :: int where "day_ns = 86400000000000"

definition fraction :: "nat \<Rightarrow> string" where
  "fraction ns =
     (if ns = 0 then [] else CHR ''.'' # rev (dropWhile (\<lambda>c. c = CHR ''0'') (rev (pad 9 ns))))"

definition zone_text :: "int \<Rightarrow> string" where
  "zone_text tz =
     (if tz = 0 then ''Z''
      else (if tz < 0 then CHR ''-'' else CHR ''+'') # pad 2 (nat \<bar>tz\<bar> div 60) @ '':'' @ pad 2 (nat \<bar>tz\<bar> mod 60))"

definition clock_text :: "nat \<Rightarrow> string" where
  "clock_text s = pad 2 (s div 3600) @ '':'' @ pad 2 (s div 60 mod 60) @ '':'' @ pad 2 (s mod 60)"

definition date_text :: "civil \<Rightarrow> string" where
  "date_text c = pad 4 (nat (cv_year c)) @ ''-'' @ pad 2 (cv_month c) @ ''-'' @ pad 2 (nat (cv_day c))"

definition format_rfc3339 :: "int \<Rightarrow> time \<Rightarrow> string option" where
  "format_rfc3339 tz t =
     (let l = t + tz * 60000000000; c = civil_of (l div day_ns); ns = nat (l mod day_ns)
      in if l < - 366 * day_ns \<or> cv_year c < 0 \<or> 9999 < cv_year c \<or> 1440 \<le> \<bar>tz\<bar> then None
         else Some (date_text c @ ''T'' @ clock_text (ns div 1000000000) @ fraction (ns mod 1000000000) @ zone_text tz))"

text \<open>A field of a fixed number of digits with a value in a range.\<close>

definition field :: "nat \<Rightarrow> nat \<Rightarrow> nat \<Rightarrow> string \<Rightarrow> (nat \<times> string) option" where
  "field w lo hi s =
     (let ds = take w s; v = digits_value ds
      in if length ds < w \<or> \<not> list_all is_digit ds \<or> v < lo \<or> hi < v then None else Some (v, drop w s))"

definition expect :: "char \<Rightarrow> string \<Rightarrow> string option" where
  "expect c s = (case s of d # r \<Rightarrow> if d = c then Some r else None | [] \<Rightarrow> None)"

definition parse_fraction :: "string \<Rightarrow> nat \<times> string" where
  "parse_fraction s =
     (case s of
        c # r \<Rightarrow>
          if c = CHR ''.'' \<and> takeWhile is_digit r \<noteq> [] then
            (digits_value (take 9 (takeWhile is_digit r @ replicate 9 CHR ''0'')), dropWhile is_digit r)
          else (0, s)
      | [] \<Rightarrow> (0, s))"

definition parse_zone :: "string \<Rightarrow> int option" where
  "parse_zone s =
     (if s = ''Z'' then Some 0
      else if length s \<noteq> 6 then None
      else
        do {
          (h, r1) \<leftarrow> field 2 0 23 (tl s);
          r2 \<leftarrow> expect (CHR '':'') r1;
          (m, r3) \<leftarrow> field 2 0 59 r2;
          if hd s = CHR ''-'' then Some (- int (h * 60 + m))
          else if hd s = CHR ''+'' then Some (int (h * 60 + m)) else None
        })"

definition parse_rfc3339 :: "string \<Rightarrow> time option" where
  "parse_rfc3339 s =
     do {
       (y, s) \<leftarrow> field 4 0 9999 s;
       s \<leftarrow> expect (CHR ''-'') s;
       (mo, s) \<leftarrow> field 2 1 12 s;
       s \<leftarrow> expect (CHR ''-'') s;
       (d, s) \<leftarrow> field 2 1 (nat (month_lengths (int y) ! (mo - 1))) s;
       s \<leftarrow> expect (CHR ''T'') s;
       (h, s) \<leftarrow> field 2 0 23 s;
       s \<leftarrow> expect (CHR '':'') s;
       (mi, s) \<leftarrow> field 2 0 59 s;
       s \<leftarrow> expect (CHR '':'') s;
       (sec, s) \<leftarrow> field 2 0 59 s;
       let (ns, s) = parse_fraction s;
       tz \<leftarrow> parse_zone s;
       Some (day_number \<lparr>cv_year = int y, cv_month = mo, cv_day = int d\<rparr> * day_ns
             + int ((h * 3600 + mi * 60 + sec) * 1000000000 + ns) - tz * 60000000000)
     }"

lemma field_pad:
  assumes "n < 10 ^ w" and "0 < w" and "lo \<le> n" and "n \<le> hi"
  shows "field w lo hi (pad w n @ r) = Some (n, r)"
  using assms length_pad [OF assms(1,2)] by (simp add: field_def Let_def)

lemma expect_same [simp]: "expect c (c # r) = Some r"
  by (simp add: expect_def)

lemma trim_zeros:
  "rev (dropWhile (\<lambda>c. c = z) (rev p)) @ replicate (length (takeWhile (\<lambda>c. c = z) (rev p))) z = p"
proof -
  let ?t = "takeWhile (\<lambda>c. c = z) (rev p)"
  have "?t = replicate (length ?t) z" by (rule replicate_eqI) (auto dest: set_takeWhileD)
  moreover have "rev p = ?t @ dropWhile (\<lambda>c. c = z) (rev p)" by simp
  ultimately have "p = rev (dropWhile (\<lambda>c. c = z) (rev p)) @ rev (replicate (length ?t) z)"
    by (metis rev_append rev_rev_ident)
  then show ?thesis by simp
qed

definition no_digit_ahead :: "string \<Rightarrow> bool" where
  "no_digit_ahead r \<longleftrightarrow> (case r of [] \<Rightarrow> True | c # _ \<Rightarrow> \<not> is_digit c \<and> c \<noteq> CHR ''.'')"

lemma span_digits:
  assumes "list_all is_digit ds" and "no_digit_ahead r"
  shows "takeWhile is_digit (ds @ r) = ds" and "dropWhile is_digit (ds @ r) = r"
  using assms by (induction ds) (auto simp: no_digit_ahead_def split: list.splits)

lemma parse_fraction_fraction:
  assumes "ns < 1000000000" and "no_digit_ahead r"
  shows "parse_fraction (fraction ns @ r) = (ns, r)"
proof (cases "ns = 0")
  case True
  then show ?thesis
    using assms(2) by (auto simp: fraction_def parse_fraction_def no_digit_ahead_def split: list.splits)
next
  case False
  define t where "t = rev (dropWhile (\<lambda>c. c = CHR ''0'') (rev (pad 9 ns)))"
  define k where "k = length (takeWhile (\<lambda>c. c = CHR ''0'') (rev (pad 9 ns)))"
  have p: "t @ replicate k CHR ''0'' = pad 9 ns" unfolding t_def k_def by (rule trim_zeros)
  have l: "length t + k = 9" using arg_cong [OF p, of length] length_pad [of ns 9] assms(1) by simp
  have "list_all is_digit t" using p pad_digits [of 9 ns] by (metis list_all_append)
  note sp = span_digits [OF this assms(2)]
  have "t \<noteq> []"
  proof
    assume "t = []"
    then have "digits_value (pad 9 ns) = 0" using p digits_value_zeros [of k "[]"]
      by (simp add: digits_value_def flip: p)
    then show False using False by simp
  qed
  moreover have "take 9 (t @ replicate 9 CHR ''0'') = pad 9 ns"
    using l by (simp add: p [symmetric] min_def)
  ultimately show ?thesis
    using False sp by (simp add: fraction_def t_def [symmetric] parse_fraction_def)
qed

lemma zone_text_head: "no_digit_ahead (zone_text tz)"
  by (simp add: no_digit_ahead_def zone_text_def is_digit_def)

lemma parse_zone_text:
  assumes "\<bar>tz\<bar> < 1440"
  shows "parse_zone (zone_text tz) = Some tz"
proof (cases "tz = 0")
  case True
  then show ?thesis by (simp add: parse_zone_def zone_text_def)
next
  case False
  define n where "n = nat \<bar>tz\<bar>"
  have n: "n div 60 < 10 ^ 2" "n div 60 \<le> 23" "n mod 60 < 10 ^ 2" "n mod 60 \<le> 59"
      "n div 60 * 60 + n mod 60 = n"
    using assms by (auto simp: n_def)
  have "length (pad 2 (n div 60)) = 2" "length (pad 2 (n mod 60)) = 2"
    using n length_pad [of _ 2] by auto
  moreover have "field 2 0 59 (pad 2 (n mod 60)) = Some (n mod 60, [])"
    using field_pad [of "n mod 60" 2 0 59 "[]"] n by simp
  moreover have "tz < 0 \<Longrightarrow> tz = - int n" "0 < tz \<Longrightarrow> tz = int n" by (simp_all add: n_def)
  ultimately show ?thesis
    using False n
    by (auto simp: parse_zone_def zone_text_def n_def [symmetric] field_pad)
qed

lemma parse_format:
  assumes "format_rfc3339 tz t = Some s"
  shows "parse_rfc3339 s = Some t"
proof -
  define l where "l = t + tz * 60000000000"
  define c where "c = civil_of (l div day_ns)"
  define ns where "ns = nat (l mod day_ns)"
  have ok: "- 366 * day_ns \<le> l" "0 \<le> cv_year c" "cv_year c \<le> 9999" "\<bar>tz\<bar> < 1440"
    and s: "s = date_text c @ ''T'' @ clock_text (ns div 1000000000) @ fraction (ns mod 1000000000) @ zone_text tz"
    using assms by (simp_all add: format_rfc3339_def Let_def l_def [symmetric] c_def [symmetric]
        ns_def [symmetric] split: if_splits)
  have d: "- 366 \<le> l div day_ns" using ok(1) by (simp add: day_ns_def)
  note cv = civil_of_spec [OF d, folded c_def]
  have cok: "civil_ok c" using cv(2) ok(2,3) by simp
  have ns: "ns < 86400 * 1000000000" by (simp add: ns_def day_ns_def nat_less_iff)
  define y d where "y = nat (cv_year c)" and "d = nat (cv_day c)"
  have len: "month_lengths (cv_year c) ! (cv_month c - 1) \<le> 31"
    using cok by (auto simp: civil_ok_def month_lengths_def nth_Cons split: nat.splits)
  have yd: "int y = cv_year c" "int d = cv_day c" "y < 10 ^ 4" "y \<le> 9999" "1 \<le> d" "d < 10 ^ 2"
      "d \<le> nat (month_lengths (int y) ! (cv_month c - 1))" "1 \<le> cv_month c" "cv_month c \<le> 12" "cv_month c < 10 ^ 2"
    using cok len by (auto simp: civil_ok_def y_def d_def)
  define x where "x = ns div 1000000000"
  have x: "x div 3600 \<le> 23" "x div 3600 < 10 ^ 2" "x div 60 mod 60 \<le> 59" "x div 60 mod 60 < 10 ^ 2"
      "x mod 60 \<le> 59" "x mod 60 < 10 ^ 2" using ns by (auto simp: x_def)
  have "x div 3600 = x div 60 div 60" using div_mult2_eq [of x 60 60] by simp
  then have xs: "x div 3600 * 3600 + x div 60 mod 60 * 60 + x mod 60 = x"
    using div_mult_mod_eq [of x 60] div_mult_mod_eq [of "x div 60" 60] by linarith
  have zone: "parse_zone (zone_text tz) = Some tz" by (rule parse_zone_text [OF ok(4)])
  have frac: "parse_fraction (fraction (ns mod 1000000000) @ zone_text tz) = (ns mod 1000000000, zone_text tz)"
    by (rule parse_fraction_fraction) (simp_all add: zone_text_head)
  have "day_number \<lparr>cv_year = int y, cv_month = cv_month c, cv_day = int d\<rparr> = l div day_ns"
    using cv(1) by (simp add: yd(1,2) day_number_def)
  moreover have "l div day_ns * day_ns + int ((x div 3600 * 3600 + x div 60 mod 60 * 60 + x mod 60) * 1000000000
      + ns mod 1000000000) - tz * 60000000000 = t"
  proof -
    have "int (x * 1000000000 + ns mod 1000000000) = l mod day_ns" by (simp add: x_def ns_def day_ns_def)
    then show ?thesis unfolding xs using div_mult_mod_eq [of l day_ns] by (simp add: l_def)
  qed
  ultimately show ?thesis
    using yd(3-10) x
    by (simp add: parse_rfc3339_def s date_text_def clock_text_def field_pad frac zone x_def [symmetric]
        y_def [symmetric] d_def [symmetric])
qed

end
