(* ===== verification/LeaderElection.thy ===== *)
theory LeaderElection
  imports KvApi GoJson GoTime
begin

text \<open>
  The leader election, \<^verbatim>\<open>internal/util/leader/leader.go\<close> and \<^verbatim>\<open>codec.go\<close>, over any provider of the
  \<^verbatim>\<open>KV\<close> interface. A tick reads the group's record and then writes it; between the two other
  candidates run, so the tick is \<^verbatim>\<open>tick_read\<close>, which yields what to write, and \<^verbatim>\<open>tick_write\<close>. The
  record is stored as JSON; the zone \<^verbatim>\<open>tz\<close> is the process's local zone, in which the expiry is
  written. A time literal with escape sequences inside is read as if it had none.
\<close>

section \<open>Data\<close>

datatype State = Follower | Candidate | Leader

record ElectionConfig =
  lc_NodeID :: string
  lc_Group :: string
  lc_TTL :: duration
  lc_Heartbeat :: duration

record Election =
  el_cfg :: ElectionConfig
  el_state :: State
  el_term :: u64
  el_lastSeen :: time
  el_stopped :: bool

record LeaderRecord =
  lr_NodeID :: string
  lr_Term :: u64
  lr_Expiry :: time

section \<open>The codec\<close>

definition mustMarshal :: "int \<Rightarrow> LeaderRecord \<Rightarrow> bytes" where
  "mustMarshal tz lr =
     (case format_rfc3339 tz (lr_Expiry lr) of
        None \<Rightarrow> []
      | Some e \<Rightarrow>
          json_print (JObject [(''node_id'', JString (lr_NodeID lr)),
            (''term'', JNumber (digits (unat (lr_Term lr)))), (''expiry'', JString e)]))"

definition ParseUint64 :: "string \<Rightarrow> u64 option" where
  "ParseUint64 s =
     (if s \<noteq> [] \<and> list_all is_digit s \<and> digits_value s < 2 ^ 64 then Some (of_nat (digits_value s)) else None)"

text \<open>
  One member of the object. A value of the wrong type leaves a string or number field alone and
  reading goes on; a bad expiry ends it. The second component says whether to go on.
\<close>

definition unmarshal_member :: "string \<times> json \<Rightarrow> LeaderRecord \<times> bool \<Rightarrow> LeaderRecord \<times> bool" where
  "unmarshal_member km acc =
     (case (km, acc) of
        ((k, x), (lr, go)) \<Rightarrow>
          if \<not> go then (lr, go)
          else if names_field ''node_id'' k then
            (case x of JString v \<Rightarrow> (lr\<lparr>lr_NodeID := v\<rparr>, True) | _ \<Rightarrow> (lr, True))
          else if names_field ''term'' k then
            (case x of
               JNumber s \<Rightarrow> (case ParseUint64 s of Some n \<Rightarrow> (lr\<lparr>lr_Term := n\<rparr>, True) | None \<Rightarrow> (lr, True))
             | _ \<Rightarrow> (lr, True))
          else if names_field ''expiry'' k then
            (case x of
               JNull \<Rightarrow> (lr, True)
             | JString s \<Rightarrow>
                 (case parse_rfc3339 s of
                    Some t \<Rightarrow> (lr\<lparr>lr_Expiry := t\<rparr>, True)
                  | None \<Rightarrow> (lr\<lparr>lr_Expiry := zero_time\<rparr>, False))
             | _ \<Rightarrow> (lr, False))
          else (lr, True))"

definition mustUnmarshal :: "bytes \<Rightarrow> LeaderRecord \<Rightarrow> LeaderRecord" where
  "mustUnmarshal data lr =
     (case json_parse data of
        Some (JObject ms) \<Rightarrow> fst (fold unmarshal_member ms (lr, True))
      | _ \<Rightarrow> lr)"

definition empty_record :: LeaderRecord where
  "empty_record = \<lparr>lr_NodeID = [], lr_Term = 0, lr_Expiry = zero_time\<rparr>"

section \<open>Operations\<close>

definition NewElection :: "ElectionConfig \<Rightarrow> Election" where
  "NewElection cfg =
     (let c1 = (if lc_TTL cfg = 0 then cfg\<lparr>lc_TTL := 5 * second\<rparr> else cfg);
          c2 = (if lc_Heartbeat c1 = 0 then c1\<lparr>lc_Heartbeat := 1500 * millisecond\<rparr> else c1)
      in \<lparr>el_cfg = c2, el_state = Follower, el_term = 0, el_lastSeen = zero_time, el_stopped = False\<rparr>)"

definition el_Stop :: "Election \<Rightarrow> unit outcome \<times> Election" where
  "el_Stop e =
     (if el_stopped e then (Panic ''close of closed channel'', e) else (Ok (), e\<lparr>el_stopped := True\<rparr>))"

definition IsLeader :: "Election \<Rightarrow> bool" where
  "IsLeader e \<longleftrightarrow> el_state e = Leader"

definition Term :: "Election \<Rightarrow> u64" where
  "Term e = el_term e"

definition leaderKey :: "string \<Rightarrow> string" where
  "leaderKey grp = ''_leader/'' @ grp"

definition versionOrZero :: "Entry option \<Rightarrow> u64" where
  "versionOrZero ent = (case ent of None \<Rightarrow> 0 | Some e \<Rightarrow> en_Version e)"

text \<open>What a tick does after it has read the record.\<close>

datatype tick_plan = GiveUp | ClaimPut bytes | ClaimCas bytes u64

definition tick_read :: "'s KV \<Rightarrow> int \<Rightarrow> time \<Rightarrow> 's \<Rightarrow> Election \<Rightarrow> tick_plan \<times> Election" where
  "tick_read K tz now s e =
     (let e1 = e\<lparr>el_state := Candidate, el_term := el_term e + 1\<rparr>;
          cur = \<lparr>lr_NodeID = lc_NodeID (el_cfg e), lr_Term = el_term e1, lr_Expiry = now + lc_TTL (el_cfg e)\<rparr>;
          b = mustMarshal tz cur
      in case kv_Get K s (leaderKey (lc_Group (el_cfg e))) of
           Err x \<Rightarrow> if errors_Is x ErrNotFound then (ClaimPut b, e1) else (GiveUp, e1)
         | Panic _ \<Rightarrow> (GiveUp, e1)
         | Ok ent \<Rightarrow>
             let prev = mustUnmarshal (en_Value ent) empty_record
             in if lr_Expiry prev > now \<and> lr_Term prev \<ge> lr_Term cur
                then (GiveUp, e1\<lparr>el_state := Follower, el_term := lr_Term prev, el_lastSeen := now\<rparr>)
                else (ClaimCas b (en_Version ent), e1))"

definition tick_write :: "'s KV \<Rightarrow> time \<Rightarrow> time \<Rightarrow> tick_plan \<Rightarrow> 's \<times> Election \<Rightarrow> 's \<times> Election" where
  "tick_write K now wnow plan se =
     (let (s, e) = se; key = leaderKey (lc_Group (el_cfg e));
          won = e\<lparr>el_state := Leader, el_lastSeen := now\<rparr>
      in case plan of
           GiveUp \<Rightarrow> (s, e)
         | ClaimPut b \<Rightarrow> (case kv_Put K wnow key b s of (r, s') \<Rightarrow> (s', if is_ok r then won else e))
         | ClaimCas b n \<Rightarrow>
             (case kv_CompareAndSwap K wnow key b n s of (r, s') \<Rightarrow> (s', if is_ok r then won else e)))"

definition tick :: "'s KV \<Rightarrow> int \<Rightarrow> time \<Rightarrow> time \<Rightarrow> 's \<times> Election \<Rightarrow> 's \<times> Election" where
  "tick K tz now wnow se =
     (case se of (s, e) \<Rightarrow>
       (case tick_read K tz now s e of (plan, e1) \<Rightarrow> tick_write K now wnow plan (s, e1)))"

text \<open>One wake-up of Run: the context ended, the loop was stopped, or the ticker fired.\<close>

definition run_wake :: "'s KV \<Rightarrow> int \<Rightarrow> bool \<Rightarrow> time \<Rightarrow> time \<Rightarrow> 's \<times> Election \<Rightarrow> ('s \<times> Election) option" where
  "run_wake K tz ctx_done now wnow se =
     (if ctx_done \<or> el_stopped (snd se) then None else Some (tick K tz now wnow se))"

definition GetLeader :: "'s KV \<Rightarrow> string \<Rightarrow> 's \<Rightarrow> LeaderRecord outcome" where
  "GetLeader K grp s =
     (case kv_Get K s (leaderKey grp) of
        Ok ent \<Rightarrow> Ok (mustUnmarshal (en_Value ent) empty_record)
      | Err x \<Rightarrow> Err x
      | Panic m \<Rightarrow> Panic m)"

section \<open>Reading back the record\<close>

definition writable :: "int \<Rightarrow> LeaderRecord \<Rightarrow> bool" where
  "writable tz lr \<longleftrightarrow> ascii (lr_NodeID lr) \<and> format_rfc3339 tz (lr_Expiry lr) \<noteq> None"

lemma field_names [simp]:
  "names_field ''node_id'' ''node_id''" "\<not> names_field ''node_id'' ''term''" "\<not> names_field ''node_id'' ''expiry''"
  "names_field ''term'' ''term''" "\<not> names_field ''term'' ''expiry''" "names_field ''expiry'' ''expiry''"
  by (simp_all add: names_field_def lower_def in_range_def byte_val_def)

lemma ParseUint64_digits [simp]: "ParseUint64 (digits (unat n)) = Some n"
proof -
  have "unat n < 2 ^ LENGTH(64)" by (rule unsigned_less)
  then show ?thesis by (simp add: ParseUint64_def)
qed

lemma ascii_simps [simp]:
  "ascii []" "ascii (c # s) \<longleftrightarrow> byte_val c < 128 \<and> ascii s" "ascii (s @ t) \<longleftrightarrow> ascii s \<and> ascii t"
  by (simp_all add: ascii_def)

lemma ascii_digits: "list_all is_digit s \<Longrightarrow> ascii s"
  by (induction s) (auto simp: is_digit_def byte_val_def)

lemma ascii_format: "format_rfc3339 tz t = Some s \<Longrightarrow> ascii s"
proof -
  have "ascii (rev (dropWhile (\<lambda>c. c = CHR ''0'') (rev (pad 9 n))))" for n
    using ascii_digits [OF pad_digits, of 9 n] trim_zeros [of "CHR ''0''" "pad 9 n"] by (metis ascii_simps(3))
  moreover assume "format_rfc3339 tz t = Some s"
  ultimately show ?thesis
    by (auto simp: format_rfc3339_def Let_def date_text_def clock_text_def fraction_def zone_text_def
        ascii_digits byte_val_def split: if_splits)
qed

lemma unmarshal_marshal:
  assumes "writable tz lr"
  shows "mustUnmarshal (mustMarshal tz lr) r0 = lr"
proof -
  obtain e where e: "format_rfc3339 tz (lr_Expiry lr) = Some e" using assms by (auto simp: writable_def)
  let ?j = "JObject [(''node_id'', JString (lr_NodeID lr)),
      (''term'', JNumber (digits (unat (lr_Term lr)))), (''expiry'', JString e)]"
  have "json_wf ?j"
    using assms ascii_format [OF e]
    by (simp add: writable_def plain_int_digits byte_val_def)
  then have "json_parse (json_print ?j) = Some ?j" by (rule json_parse_print)
  moreover have "mustMarshal tz lr = json_print ?j" by (simp only: mustMarshal_def e option.case)
  ultimately show ?thesis
    using parse_format [OF e] by (simp add: mustUnmarshal_def unmarshal_member_def)
qed

section \<open>The election over the contract of the store\<close>

definition claim :: "Election \<Rightarrow> time \<Rightarrow> LeaderRecord" where
  "claim e now =
     \<lparr>lr_NodeID = lc_NodeID (el_cfg e), lr_Term = el_term e + 1, lr_Expiry = now + lc_TTL (el_cfg e)\<rparr>"

definition group_key :: "Election \<Rightarrow> string" where
  "group_key e = leaderKey (lc_Group (el_cfg e))"

text \<open>The record keeps a candidate with the given term away.\<close>

definition blocks :: "LeaderRecord \<Rightarrow> u64 \<Rightarrow> time \<Rightarrow> bool" where
  "blocks prev term now \<longleftrightarrow> lr_Expiry prev > now \<and> lr_Term prev \<ge> term"

text \<open>What an election can rely on: a store that keeps the contract of the interface.\<close>

locale election_store = kv_contract K wf room abs
  for K :: "'s KV" and wf :: "'s \<Rightarrow> bool" and room :: "'s \<Rightarrow> nat" and abs :: "'s \<Rightarrow> kvmap"
begin

lemma tick_read_absent:
  assumes "wf s" and "abs s (group_key e) = None"
  shows "tick_read K tz now s e =
    (ClaimPut (mustMarshal tz (claim e now)), e\<lparr>el_state := Candidate, el_term := el_term e + 1\<rparr>)"
  using Get_absent [OF assms] by (simp add: tick_read_def claim_def group_key_def Let_def ErrNotFound_def)

lemma tick_read_present:
  assumes "wf s" and "abs s (group_key e) = Some (v, n)" and "prev = mustUnmarshal v empty_record"
  shows "tick_read K tz now s e =
    (if blocks prev (el_term e + 1) now
     then (GiveUp, e\<lparr>el_state := Follower, el_term := lr_Term prev, el_lastSeen := now\<rparr>)
     else (ClaimCas (mustMarshal tz (claim e now)) n,
           e\<lparr>el_state := Candidate, el_term := el_term e + 1\<rparr>))"
proof -
  obtain ent where "kv_Get K s (group_key e) = Ok ent" "entry_holds ent (group_key e) v n"
    using Get_present [OF assms(1,2)] by blast
  then show ?thesis
    using assms(3) by (simp add: tick_read_def claim_def group_key_def blocks_def entry_holds_def Let_def)
qed

lemma write_put:
  assumes "wf s" and "0 < room s"
  shows "\<exists>s'. tick_write K now wnow (ClaimPut b) (s, e) = (s', e\<lparr>el_state := Leader, el_lastSeen := now\<rparr>)
    \<and> wf s' \<and> room s' = room s - 1 \<and> abs s' = spec_put (group_key e) b (abs s)"
  using Put_law [OF assms, of wnow "group_key e" b]
  by (auto simp: tick_write_def group_key_def Let_def)

lemma write_cas:
  assumes "wf s" and "0 < room s" and "cas_matches (abs s) (group_key e) n"
  shows "\<exists>s'. tick_write K now wnow (ClaimCas b n) (s, e) = (s', e\<lparr>el_state := Leader, el_lastSeen := now\<rparr>)
    \<and> wf s' \<and> room s' = room s - 1 \<and> abs s' = spec_put (group_key e) b (abs s)"
  using Cas_match [OF assms, of wnow b]
  by (auto simp: tick_write_def group_key_def Let_def)

lemma write_cas_lost:
  assumes "wf s" and "\<not> cas_matches (abs s) (group_key e) n"
  shows "tick_write K now wnow (ClaimCas b n) (s, e) = (s, e)"
  using Cas_mismatch [OF assms, of wnow b]
  by (simp add: tick_write_def group_key_def Let_def)

lemma tick_claims:
  assumes "wf s" and "0 < room s"
    and "\<And>v n. abs s (group_key e) = Some (v, n) \<Longrightarrow>
      \<not> blocks (mustUnmarshal v empty_record) (el_term e + 1) now"
  shows "\<exists>s'. tick K tz now wnow (s, e) =
      (s', e\<lparr>el_state := Leader, el_term := el_term e + 1, el_lastSeen := now\<rparr>)
    \<and> wf s' \<and> room s' = room s - 1
    \<and> abs s' = spec_put (group_key e) (mustMarshal tz (claim e now)) (abs s)"
proof (cases "abs s (group_key e)")
  case None
  then show ?thesis
    using write_put [OF assms(1,2), of now wnow "mustMarshal tz (claim e now)"
        "e\<lparr>el_state := Candidate, el_term := el_term e + 1\<rparr>"]
    by (auto simp: tick_def tick_read_absent [OF assms(1)] group_key_def)
next
  case (Some vn)
  obtain v n where vn: "vn = (v, n)" by (cases vn)
  have "cas_matches (abs s) (group_key (e\<lparr>el_state := Candidate, el_term := el_term e + 1\<rparr>)) n"
    using Some vn by (simp add: cas_matches_def group_key_def)
  from write_cas [OF assms(1,2) this, of now wnow "mustMarshal tz (claim e now)"] Some vn show ?thesis
    using assms(3) [of v n]
    by (auto simp: tick_def tick_read_present [OF assms(1) Some [unfolded vn] refl] group_key_def)
qed

lemma tick_follows:
  assumes "wf s" and "abs s (group_key e) = Some (v, n)"
    and "blocks (mustUnmarshal v empty_record) (el_term e + 1) now"
  shows "tick K tz now wnow (s, e) = (s, e\<lparr>el_state := Follower,
      el_term := lr_Term (mustUnmarshal v empty_record), el_lastSeen := now\<rparr>)"
  using assms(3) by (simp add: tick_def tick_read_present [OF assms(1,2) refl] tick_write_def)

lemma lease_stolen:
  assumes "wf s" and "1 < room s" and "abs s (group_key a) = None" and "group_key b = group_key a"
    and "el_term a = 0" and "el_term b = 0" and "writable tz (claim a t1)"
    and "t2 < t1 + lc_TTL (el_cfg a)" and "t3 < t1 + lc_TTL (el_cfg a)"
  shows "\<exists>s1 a1 b1 s2 b2. tick K tz t1 w1 (s, a) = (s1, a1) \<and> IsLeader a1
    \<and> tick K tz t2 w2 (s1, b) = (s1, b1) \<and> \<not> IsLeader b1
    \<and> tick K tz t3 w3 (s1, b1) = (s2, b2) \<and> IsLeader b2
    \<and> GetLeader K (lc_Group (el_cfg a)) s1 = Ok (claim a t1)"
proof -
  let ?v = "mustMarshal tz (claim a t1)"
  obtain s1 where s1: "tick K tz t1 w1 (s, a) =
      (s1, a\<lparr>el_state := Leader, el_term := el_term a + 1, el_lastSeen := t1\<rparr>)"
      "wf s1" "room s1 = room s - 1" "abs s1 = spec_put (group_key a) ?v (abs s)"
    using tick_claims [OF assms(1), of a t1 tz w1] assms(2,3) by auto
  have v: "mustUnmarshal ?v empty_record = claim a t1" by (rule unmarshal_marshal [OF assms(7)])
  have c: "lr_Term (claim a t1) = 1" "lr_Expiry (claim a t1) = t1 + lc_TTL (el_cfg a)"
    using assms(5) by (simp_all add: claim_def)
  have g: "abs s1 (group_key a) = Some (?v, 1)" using assms(3) by (simp add: s1(4) spec_put_def next_version_def)
  let ?b1 = "b\<lparr>el_state := Follower, el_term := 1, el_lastSeen := t2\<rparr>"
  have "tick K tz t2 w2 (s1, b) = (s1, ?b1)"
    using tick_follows [OF s1(2), of b ?v 1 t2] g assms(4-6,8)
    by (simp add: v blocks_def c)
  moreover have "group_key ?b1 = group_key a" using assms(4) by (simp add: group_key_def)
  then have "\<exists>s2. tick K tz t3 w3 (s1, ?b1) = (s2, ?b1\<lparr>el_state := Leader, el_term := 2, el_lastSeen := t3\<rparr>)"
    using tick_claims [OF s1(2), of ?b1 t3 tz w3] g assms(2,5) s1(3)
    by (auto simp: v blocks_def c word_le_nat_alt)
  moreover have "GetLeader K (lc_Group (el_cfg a)) s1 = Ok (claim a t1)"
    using Get_present [OF s1(2) g] by (auto simp: GetLeader_def group_key_def entry_holds_def v)
  ultimately show ?thesis using s1(1) by (auto simp: IsLeader_def)
qed

lemma put_race:
  assumes "wf s" and "1 < room s" and "abs s (group_key a) = None" and "group_key b = group_key a"
    and "tick_read K tz t1 s a = (pa, a1)" and "tick_read K tz t2 s b = (pb, b1)"
  shows "\<exists>s1 a2 s2 b2. tick_write K t1 w1 pa (s, a1) = (s1, a2) \<and> IsLeader a2
    \<and> tick_write K t2 w2 pb (s1, b1) = (s2, b2) \<and> IsLeader b2"
proof -
  obtain s1 where s1: "tick_write K t1 w1 pa (s, a1) = (s1, a1\<lparr>el_state := Leader, el_lastSeen := t1\<rparr>)"
      "wf s1" "room s1 = room s - 1"
    using write_put [OF assms(1), of t1 w1] assms(2,5) tick_read_absent [OF assms(1,3), of tz t1] by auto
  moreover have "\<exists>s2. tick_write K t2 w2 pb (s1, b1) = (s2, b1\<lparr>el_state := Leader, el_lastSeen := t2\<rparr>)"
    using write_put [OF s1(2), of t2 w2] s1(3) assms(2,3,4,6) tick_read_absent [OF assms(1), of b tz t2]
    by auto
  ultimately show ?thesis by (auto simp: IsLeader_def)
qed

lemma cas_race:
  assumes "wf s" and "0 < room s" and "abs s (group_key a) = Some (v, n)" and "group_key b = group_key a"
    and "tick_read K tz t1 s a = (ClaimCas va n, a1)" and "tick_read K tz t2 s b = (ClaimCas vb n, b1)"
  shows "\<exists>s1 a2. tick_write K t1 w1 (ClaimCas va n) (s, a1) = (s1, a2) \<and> IsLeader a2
    \<and> tick_write K t2 w2 (ClaimCas vb n) (s1, b1) = (s1, b1) \<and> \<not> IsLeader b1
    \<and> abs s1 (group_key a) = Some (mustMarshal tz (claim a t1), n + 1)"
proof -
  have a: "va = mustMarshal tz (claim a t1)" "a1 = a\<lparr>el_state := Candidate, el_term := el_term a + 1\<rparr>"
    using tick_read_present [OF assms(1,3) refl, of tz t1] assms(5) by (simp_all split: if_splits)
  have b: "b1 = b\<lparr>el_state := Candidate, el_term := el_term b + 1\<rparr>"
    using tick_read_present [OF assms(1) _ refl, of b v n tz t2] assms(3,4,6) by (simp split: if_splits)
  have k: "group_key a1 = group_key a" "group_key b1 = group_key a"
    using a(2) b assms(4) by (simp_all add: group_key_def)
  then have m: "cas_matches (abs s) (group_key a1) n" using assms(3) by (simp add: cas_matches_def)
  obtain s1 where s1: "tick_write K t1 w1 (ClaimCas va n) (s, a1) =
      (s1, a1\<lparr>el_state := Leader, el_lastSeen := t1\<rparr>)" "wf s1" "abs s1 = spec_put (group_key a) va (abs s)"
    using write_cas [OF assms(1,2) m, of t1 w1 va] k(1) by auto
  have "abs s1 (group_key a) = Some (va, n + 1)"
    using assms(3) by (simp add: s1(3) spec_put_def next_version_def)
  moreover from this have "\<not> cas_matches (abs s1) (group_key b1) n" using k(2) by (simp add: cas_matches_def)
  from write_cas_lost [OF s1(2) this] have "tick_write K t2 w2 (ClaimCas vb n) (s1, b1) = (s1, b1)" .
  ultimately show ?thesis using s1(1) a(1) b by (auto simp: IsLeader_def)
qed

end

end
