(* ===== verification/LeaderRaft.thy ===== *)
theory LeaderRaft
  imports LeaderElection RaftKv
begin

text \<open>
  The leader election running on the replicated store: the lemmas of \<^verbatim>\<open>LeaderElection\<close> about any store
  that keeps the contract, at the store of \<^verbatim>\<open>RaftKv\<close>.
\<close>

interpretation raft_election: election_store "raft_ops ack JOk" raft_wf raft_room raft_abs for ack
  by (intro election_store.intro raft_kv.kv_contract_axioms)

text \<open>
  A leader record read back from the bytes that were stored is the record that was
  written, for an ASCII node name and an expiry that RFC 3339 can express.
\<close>

theorem leader_record_round_trip:
  assumes "writable tz lr"
  shows "mustUnmarshal (mustMarshal tz lr) empty_record = lr"
  by (rule unmarshal_marshal [OF assms])

definition demo_record :: LeaderRecord where
  "demo_record = \<lparr>lr_NodeID = ''node-1'', lr_Term = 7, lr_Expiry = 5 * second\<rparr>"

lemma civil_0: "civil_of 0 = \<lparr>cv_year = 1, cv_month = 1, cv_day = 1\<rparr>"
  by (simp add: civil_of_def find_year.simps [of 0 1] days_before_year_def month_lengths_def)

lemma pad_small: "n < 10 \<Longrightarrow> pad w n = replicate (w - 1) CHR ''0'' @ [digit n]"
  by (simp add: pad_def digits.simps [of n])

lemma digit_numerals: "digit 0 = CHR ''0''" "digit (Suc 0) = CHR ''1''" "digit 5 = CHR ''5''"
  by (simp_all add: digit_def char_of_def bit_0)

lemma format_5s: "format_rfc3339 0 (5 * second) = Some ''0001-01-01T00:00:05Z''"
  by (simp add: format_rfc3339_def second_def day_ns_def civil_0 date_text_def clock_text_def
      fraction_def zone_text_def pad_small digit_numerals numeral_3_eq_3)

theorem leader_record_round_trip_witness:
  "mustUnmarshal (mustMarshal 0 demo_record) empty_record = demo_record"
  by (rule leader_record_round_trip)
    (simp add: writable_def demo_record_def format_5s byte_val_def)

text \<open>
  Property C4. A tick of a candidate on the replicated store: without a record, or with one that does
  not block the candidate's next term, it becomes leader and the store holds its claim; a record that
  has not expired and whose term is at least the candidate's next one makes it a follower with the
  record's term, and the store is unchanged.
\<close>

theorem tick_outcome:
  assumes "raft_wf s" and "0 < raft_room s" and "tick (raft_ops ack JOk) tz now wnow (s, e) = (s', e')"
  shows "case raft_abs s (group_key e) of
      Some (v, n) \<Rightarrow>
        (let prev = mustUnmarshal v empty_record in
         if blocks prev (Term e + 1) now then \<not> IsLeader e' \<and> Term e' = lr_Term prev \<and> s' = s
         else IsLeader e' \<and> Term e' = Term e + 1
           \<and> raft_abs s' = (raft_abs s)(group_key e \<mapsto> (mustMarshal tz (claim e now), n + 1)))
    | None \<Rightarrow> IsLeader e' \<and> Term e' = Term e + 1
        \<and> raft_abs s' = (raft_abs s)(group_key e \<mapsto> (mustMarshal tz (claim e now), 1))"
proof (cases "\<exists>v n. raft_abs s (group_key e) = Some (v, n)
    \<and> blocks (mustUnmarshal v empty_record) (el_term e + 1) now")
  case True
  then obtain v n where "raft_abs s (group_key e) = Some (v, n)"
      "blocks (mustUnmarshal v empty_record) (el_term e + 1) now" by blast
  with raft_election.tick_follows [OF assms(1) this, of ack tz wnow] assms(3) show ?thesis
    by (simp add: IsLeader_def Term_def Let_def)
next
  case False
  then obtain s'' where "tick (raft_ops ack JOk) tz now wnow (s, e) =
      (s'', e\<lparr>el_state := Leader, el_term := el_term e + 1, el_lastSeen := now\<rparr>)"
      "raft_abs s'' = spec_put (group_key e) (mustMarshal tz (claim e now)) (raft_abs s)"
    using raft_election.tick_claims [OF assms(1,2), of e now ack tz wnow] by blast
  with assms(3) False show ?thesis
    by (auto simp: IsLeader_def Term_def Let_def spec_put_def next_version_def split: option.splits)
qed

definition demo_candidate :: "string \<Rightarrow> Election" where
  "demo_candidate node = NewElection \<lparr>lc_NodeID = node, lc_Group = ''sched'', lc_TTL = 0, lc_Heartbeat = 0\<rparr>"

lemma demo_candidate_fields:
  "el_term (demo_candidate n) = 0" "group_key (demo_candidate n) = ''_leader/sched''"
  "lc_TTL (el_cfg (demo_candidate n)) = 5 * second" "lc_NodeID (el_cfg (demo_candidate n)) = n"
  "lc_Group (el_cfg (demo_candidate n)) = ''sched''"
  by (simp_all add: demo_candidate_def NewElection_def group_key_def leaderKey_def Let_def)

theorem tick_outcome_witness:
  "\<exists>s' e'. tick (raft_ops (\<lambda>_. False) JOk) 0 0 0 (demo_raft [], demo_candidate ''a'') = (s', e') \<and> IsLeader e'
    \<and> raft_abs s' (''_leader/sched'') = Some (mustMarshal 0 (claim (demo_candidate ''a'') 0), 1)"
proof -
  obtain s' e' where t: "tick (raft_ops (\<lambda>_. False) JOk) 0 0 0 (demo_raft [], demo_candidate ''a'') = (s', e')"
    by fastforce
  have "0 < raft_room (demo_raft [])" by (simp add: demo_solo)
  from tick_outcome [OF demo_solo(1) this t] t show ?thesis
    by (simp add: demo_solo demo_candidate_fields)
qed

text \<open>
  A candidate that is told that another node leads takes that node's term, so its next
  tick carries a higher one and displaces the leader although the lease still runs: two nodes report
  themselves leader.
\<close>

theorem running_lease_is_stolen:
  assumes "raft_wf s" and "1 < raft_room s" and "raft_abs s (group_key a) = None"
    and "group_key b = group_key a" and "el_term a = 0" and "el_term b = 0"
    and "writable tz (claim a t1)" and "t2 < t1 + lc_TTL (el_cfg a)" and "t3 < t1 + lc_TTL (el_cfg a)"
  shows "\<exists>s1 a1 b1 s2 b2. tick (raft_ops ack JOk) tz t1 w1 (s, a) = (s1, a1) \<and> IsLeader a1
    \<and> tick (raft_ops ack JOk) tz t2 w2 (s1, b) = (s1, b1) \<and> \<not> IsLeader b1
    \<and> tick (raft_ops ack JOk) tz t3 w3 (s1, b1) = (s2, b2) \<and> IsLeader b2
    \<and> GetLeader (raft_ops ack JOk) (lc_Group (el_cfg a)) s1 = Ok (claim a t1)"
  by (rule raft_election.lease_stolen [OF assms])

lemma demo_writable: "writable 0 (claim (demo_candidate ''a'') 0)"
  by (simp add: writable_def claim_def demo_candidate_fields format_5s byte_val_def)

theorem running_lease_is_stolen_witness:
  "\<exists>s1 a1 b1 s2 b2. tick (raft_ops (\<lambda>_. False) JOk) 0 0 0 (demo_raft [], demo_candidate ''a'') = (s1, a1)
    \<and> IsLeader a1 \<and> tick (raft_ops (\<lambda>_. False) JOk) 0 second second (s1, demo_candidate ''b'') = (s1, b1)
    \<and> tick (raft_ops (\<lambda>_. False) JOk) 0 (2 * second) (2 * second) (s1, b1) = (s2, b2) \<and> IsLeader b2"
proof -
  have "1 < raft_room (demo_raft [])" "raft_abs (demo_raft []) (group_key (demo_candidate ''a'')) = None"
    by (simp_all add: demo_solo)
  from running_lease_is_stolen [OF demo_solo(1) this _ _ _ demo_writable, of "demo_candidate ''b''" second
      "2 * second" "\<lambda>_. False" 0 second "2 * second"]
  show ?thesis by (auto simp: demo_candidate_fields second_def)
qed

text \<open>
  Two candidates that both find no record claim it with Put, and both become leader; had
  they found a record they could claim, the compare-and-swap lets exactly the first writer win.
\<close>

theorem first_claim_has_two_winners:
  assumes "raft_wf s" and "1 < raft_room s" and "group_key b = group_key a"
    and "tick_read (raft_ops ack JOk) tz t1 s a = (pa, a1)"
    and "tick_read (raft_ops ack JOk) tz t2 s b = (pb, b1)"
    and "tick_write (raft_ops ack JOk) t1 w1 pa (s, a1) = (s1, a2)"
    and "tick_write (raft_ops ack JOk) t2 w2 pb (s1, b1) = (s2, b2)"
  shows "(raft_abs s (group_key a) = None \<longrightarrow> IsLeader a2 \<and> IsLeader b2)
    \<and> (\<forall>va vb n. pa = ClaimCas va n \<and> pb = ClaimCas vb n \<longrightarrow> IsLeader a2 \<and> \<not> IsLeader b2)"
proof (intro conjI allI impI)
  assume "raft_abs s (group_key a) = None"
  from raft_election.put_race [OF assms(1,2) this assms(3-5), of w1 w2] assms(6,7)
  show "IsLeader a2" "IsLeader b2" by auto
next
  fix va vb n
  assume p: "pa = ClaimCas va n \<and> pb = ClaimCas vb n"
  have "raft_abs s (group_key a) \<noteq> None"
  proof
    assume "raft_abs s (group_key a) = None"
    from raft_election.tick_read_absent [OF assms(1) this, of ack tz t1] assms(4) p show False by simp
  qed
  then obtain v m where v: "raft_abs s (group_key a) = Some (v, m)" by auto
  have "m = n"
    using raft_election.tick_read_present [OF assms(1) v refl, of ack tz t1] assms(4) p by (auto split: if_splits)
  with raft_election.cas_race [OF assms(1) _ v assms(3), of ack tz t1 va a1 t2 vb b1 w1 w2] p assms(2,4-7)
  show "IsLeader a2" "\<not> IsLeader b2" by auto
qed

theorem first_claim_has_two_winners_witness:
  "\<exists>pa a1 pb b1 s1 a2 s2 b2.
     tick_read (raft_ops (\<lambda>_. False) JOk) 0 0 (demo_raft []) (demo_candidate ''a'') = (pa, a1)
   \<and> tick_read (raft_ops (\<lambda>_. False) JOk) 0 1 (demo_raft []) (demo_candidate ''b'') = (pb, b1)
   \<and> tick_write (raft_ops (\<lambda>_. False) JOk) 0 2 pa (demo_raft [], a1) = (s1, a2) \<and> IsLeader a2
   \<and> tick_write (raft_ops (\<lambda>_. False) JOk) 1 3 pb (s1, b1) = (s2, b2) \<and> IsLeader b2"
proof -
  let ?K = "raft_ops (\<lambda>_. False) JOk"
  obtain pa a1 pb b1 where r: "tick_read ?K 0 0 (demo_raft []) (demo_candidate ''a'') = (pa, a1)"
      "tick_read ?K 0 1 (demo_raft []) (demo_candidate ''b'') = (pb, b1)" by fastforce
  obtain s1 a2 where w1: "tick_write ?K 0 2 pa (demo_raft [], a1) = (s1, a2)" by fastforce
  obtain s2 b2 where w2: "tick_write ?K 1 3 pb (s1, b1) = (s2, b2)" by fastforce
  have "1 < raft_room (demo_raft [])" "group_key (demo_candidate ''b'') = group_key (demo_candidate ''a'')"
    by (simp_all add: demo_solo demo_candidate_fields)
  from first_claim_has_two_winners [OF demo_solo(1) this r w1 w2] r w1 w2 show ?thesis
    by (auto simp: demo_solo)
qed

end
