(* ===== verification/MessageQueue.thy ===== *)
theory MessageQueue
  imports GoPrelude
begin

text \<open>
  The in-memory broker, \<^verbatim>\<open>internal/primitives/mq/mq.go\<close>. A queue of the code holds pointers to
  messages, and a retry mutates the message and appends the same pointer again; the model keeps the
  messages in \<^verbatim>\<open>mq_heap\<close>, and queues, dead-letter lists and channels hold addresses, indices into that
  heap. The channels are numbered too, since two names can be given the same or different channels.
  A handler is a function of the message it is given; \<^verbatim>\<open>deliver_take\<close> and \<^verbatim>\<open>deliver_finish\<close> are the
  parts of deliverOnce before and after the call of the handler, between which other goroutines run.
\<close>

section \<open>Data\<close>

definition ErrNoMessages :: go_error where
  "ErrNoMessages = ErrorString ''mq: no messages''"

record Message =
  ms_Topic :: string
  ms_Partition :: int
  ms_Offset :: u64
  ms_Key :: string
  ms_Value :: bytes
  ms_Headers :: "(string, string) gomap option"
  ms_Timestamp :: time

type_synonym Handler = "Message \<Rightarrow> go_error option"

record BrokerConfig =
  bc_DataDir :: string
  bc_MaxRetries :: int
  bc_BaseBackoff :: duration
  bc_MaxBackoff :: duration
  bc_PersistOnDisk :: bool

record Stats =
  s_Published :: u64
  s_Delivered :: u64
  s_Acked :: u64
  s_Nacked :: u64
  s_Retried :: u64
  s_Dead :: u64

type_synonym addr = nat

record topic =
  tp_name :: string
  tp_nextOff :: u64
  tp_queue :: "addr list"
  tp_groups :: "(string, u64) gomap"
  tp_dlq :: "addr list"

record mem =
  mq_cfg :: BrokerConfig
  mq_t :: "(string, topic) gomap"
  mq_dlq :: "(string, nat) gomap"
  mq_stop :: bool
  mq_st :: Stats
  mq_heap :: "Message list"
  mq_chans :: "addr list list"

section \<open>Operations\<close>

definition newMem :: "BrokerConfig \<Rightarrow> mem" where
  "newMem cfg =
     \<lparr>mq_cfg = cfg, mq_t = [], mq_dlq = [], mq_stop = False,
      mq_st = \<lparr>s_Published = 0, s_Delivered = 0, s_Acked = 0, s_Nacked = 0, s_Retried = 0, s_Dead = 0\<rparr>,
      mq_heap = [], mq_chans = []\<rparr>"

definition mq_Open :: "BrokerConfig \<Rightarrow> mem" where
  "mq_Open cfg =
     (let c1 = (if bc_MaxRetries cfg = 0 then cfg\<lparr>bc_MaxRetries := 5\<rparr> else cfg);
          c2 = (if bc_BaseBackoff c1 = 0 then c1\<lparr>bc_BaseBackoff := 100 * millisecond\<rparr> else c1);
          c3 = (if bc_MaxBackoff c2 = 0 then c2\<lparr>bc_MaxBackoff := 30 * second\<rparr> else c2)
      in newMem c3)"

definition getOrCreateTopic :: "string \<Rightarrow> mem \<Rightarrow> topic \<times> mem" where
  "getOrCreateTopic name m =
     (case mget (mq_t m) name of
        Some t \<Rightarrow> (t, m)
      | None \<Rightarrow>
          let t = \<lparr>tp_name = name, tp_nextOff = 0, tp_queue = [], tp_groups = [], tp_dlq = []\<rparr>
          in (t, m\<lparr>mq_t := mput name t (mq_t m),
                  mq_dlq := mput name (length (mq_chans m)) (mq_dlq m),
                  mq_chans := mq_chans m @ [[]]\<rparr>))"

definition set_topic :: "topic \<Rightarrow> mem \<Rightarrow> mem" where
  "set_topic t m = m\<lparr>mq_t := mput (tp_name t) t (mq_t m)\<rparr>"

definition bump :: "(Stats \<Rightarrow> Stats) \<Rightarrow> mem \<Rightarrow> mem" where
  "bump fn m = m\<lparr>mq_st := fn (mq_st m)\<rparr>"

definition copyHeaders :: "(string, string) gomap option \<Rightarrow> (string, string) gomap option" where
  "copyHeaders h = (case h of None \<Rightarrow> None | Some xs \<Rightarrow> Some (fold (\<lambda>(k, v). mput k v) xs []))"

definition mq_Publish ::
    "time \<Rightarrow> string \<Rightarrow> string \<Rightarrow> bytes \<Rightarrow> (string, string) gomap option \<Rightarrow> mem \<Rightarrow> mem" where
  "mq_Publish now topic key value headers m =
     (let (t, m1) = getOrCreateTopic topic m;
          off = tp_nextOff t + 1;
          mv = \<lparr>ms_Topic = topic, ms_Partition = 0, ms_Offset = off, ms_Key = key, ms_Value = value,
                ms_Headers = copyHeaders headers, ms_Timestamp = now\<rparr>;
          t' = t\<lparr>tp_nextOff := off, tp_queue := tp_queue t @ [length (mq_heap m1)]\<rparr>
      in bump (\<lambda>s. s\<lparr>s_Published := s_Published s + 1\<rparr>)
           (set_topic t' (m1\<lparr>mq_heap := mq_heap m1 @ [mv]\<rparr>)))"

definition mq_DLQ :: "string \<Rightarrow> mem \<Rightarrow> nat \<times> mem" where
  "mq_DLQ topic m =
     (case mget (mq_dlq m) topic of
        Some ch \<Rightarrow> (ch, m)
      | None \<Rightarrow>
          let ch = length (mq_chans m)
          in (ch, m\<lparr>mq_dlq := mput topic ch (mq_dlq m), mq_chans := mq_chans m @ [[]]\<rparr>))"

definition mq_Stats :: "mem \<Rightarrow> Stats" where
  "mq_Stats m = mq_st m"

definition mq_Close :: "mem \<Rightarrow> unit outcome \<times> mem" where
  "mq_Close m = (if mq_stop m then (Panic ''close of closed channel'', m) else (Ok (), m\<lparr>mq_stop := True\<rparr>))"

text \<open>
  Sending to a dead-letter channel never blocks: a channel holds 1024 messages and a full one, or
  a nil one for a name without a channel, takes the default branch.
\<close>

definition send_dlq :: "string \<Rightarrow> addr \<Rightarrow> mem \<Rightarrow> mem" where
  "send_dlq name a m =
     (case mget (mq_dlq m) name of
        None \<Rightarrow> m
      | Some ch \<Rightarrow>
          if length (mq_chans m ! ch) < 1024
          then m\<lparr>mq_chans := (mq_chans m)[ch := mq_chans m ! ch @ [a]]\<rparr> else m)"

definition toDLQ :: "topic \<Rightarrow> addr \<Rightarrow> mem \<Rightarrow> mem" where
  "toDLQ t a m =
     send_dlq (tp_name t) a
       (bump (\<lambda>s. s\<lparr>s_Dead := s_Dead s + 1\<rparr>)
         (set_topic (t\<lparr>tp_dlq := tp_dlq t @ [a]\<rparr>) m))"

text \<open>The digits go into a buffer of 16 bytes from the right; an index below zero is a panic.\<close>

function itoa_loop :: "int \<Rightarrow> nat \<Rightarrow> string \<Rightarrow> string outcome" where
  "itoa_loop n i buf =
     (if n > 0 then
        (case i of
           0 \<Rightarrow> Panic ''index out of range''
         | Suc j \<Rightarrow> itoa_loop (n div 10) j (char_of (48 + n mod 10) # buf))
      else Ok buf)"
  by auto
termination by (relation "measure (\<lambda>(n, i, buf). i)") auto

declare itoa_loop.simps [simp del]

definition itoa :: "int \<Rightarrow> string outcome" where
  "itoa n = (if n = 0 then Ok ''0'' else itoa_loop n 16 [])"

fun count_retries :: "string \<Rightarrow> int \<Rightarrow> int" where
  "count_retries [] r = r"
| "count_retries (c # cs) r =
     (if of_char c < (48 :: int) \<or> of_char c > (57 :: int) then r
      else count_retries cs (i64 (r * 10 + (of_char c - 48))))"

definition retries_of :: "Message \<Rightarrow> int" where
  "retries_of mv =
     (case ms_Headers mv of
        None \<Rightarrow> 0
      | Some h \<Rightarrow> (case mget h ''retries'' of None \<Rightarrow> 0 | Some v \<Rightarrow> count_retries v 0))"

definition deliver_take :: "string \<Rightarrow> string \<Rightarrow> mem \<Rightarrow> addr option \<times> mem" where
  "deliver_take name grp m =
     (case mget (mq_t m) name of
        None \<Rightarrow> (None, m)
      | Some t \<Rightarrow>
          case mget (tp_groups t) grp of
            None \<Rightarrow> (None, m)
          | Some cursor \<Rightarrow>
              if cursor \<ge> of_nat (length (tp_queue t)) then (None, m)
              else
                (Some (tp_queue t ! unat cursor),
                 bump (\<lambda>s. s\<lparr>s_Delivered := s_Delivered s + 1\<rparr>)
                   (set_topic (t\<lparr>tp_groups := mput grp (cursor + 1) (tp_groups t)\<rparr>) m)))"

text \<open>
  On a retry the code replaces the headers by an empty map, copies that map onto itself, and then
  sets the counter.
\<close>

definition deliver_retry :: "topic \<Rightarrow> addr \<Rightarrow> int \<Rightarrow> mem \<Rightarrow> bool outcome \<times> mem" where
  "deliver_retry t a retries m =
     (case itoa (i64 (retries + 1)) of
        Ok v \<Rightarrow>
          (Ok True,
           bump (\<lambda>s. s\<lparr>s_Retried := s_Retried s + 1\<rparr>)
             (set_topic (t\<lparr>tp_queue := tp_queue t @ [a]\<rparr>)
               (m\<lparr>mq_heap := (mq_heap m)[a := (mq_heap m ! a)\<lparr>ms_Headers := Some (mput ''retries'' v [])\<rparr>]\<rparr>)))
      | Err e \<Rightarrow> (Err e, m)
      | Panic p \<Rightarrow>
          (Panic p, m\<lparr>mq_heap := (mq_heap m)[a := (mq_heap m ! a)\<lparr>ms_Headers := Some []\<rparr>]\<rparr>))"

definition deliver_finish :: "string \<Rightarrow> addr \<Rightarrow> go_error option \<Rightarrow> mem \<Rightarrow> bool outcome \<times> mem" where
  "deliver_finish name a err m =
     (case err of
        None \<Rightarrow> (Ok True, bump (\<lambda>s. s\<lparr>s_Acked := s_Acked s + 1\<rparr>) m)
      | Some _ \<Rightarrow>
          case mget (mq_t m) name of
            None \<Rightarrow> (Ok True, m)
          | Some t \<Rightarrow>
              let retries = retries_of (mq_heap m ! a)
              in if retries \<ge> bc_MaxRetries (mq_cfg m) then (Ok True, toDLQ t a m)
                 else deliver_retry t a retries m)"

definition deliverOnce :: "string \<Rightarrow> string \<Rightarrow> Handler \<Rightarrow> mem \<Rightarrow> bool outcome \<times> mem" where
  "deliverOnce name grp handler m =
     (case deliver_take name grp m of
        (None, m1) \<Rightarrow> (Ok False, m1)
      | (Some a, m1) \<Rightarrow> deliver_finish name a (handler (mq_heap m1 ! a)) m1)"

definition mq_Subscribe :: "string \<Rightarrow> string \<Rightarrow> mem \<Rightarrow> mem" where
  "mq_Subscribe topic grp m =
     (let (t, m1) = getOrCreateTopic topic m
      in case mget (tp_groups t) grp of
           Some _ \<Rightarrow> m1
         | None \<Rightarrow> set_topic (t\<lparr>tp_groups := mput grp 0 (tp_groups t)\<rparr>) m1)"

text \<open>
  One iteration of the goroutine that Subscribe starts; \<^const>\<open>None\<close> when it returns. After an
  iteration that delivered nothing it waits for 50 milliseconds unless it is stopped meanwhile.
\<close>

definition subscriber_iter :: "bool \<Rightarrow> string \<Rightarrow> string \<Rightarrow> Handler \<Rightarrow> mem \<Rightarrow> (bool outcome \<times> mem) option" where
  "subscriber_iter ctx_done topic grp handler m =
     (if ctx_done \<or> mq_stop m then None else Some (deliverOnce topic grp handler m))"

section \<open>The retry counter\<close>

lemma char_of_digit [simp]: "of_char (char_of (48 + n mod 10 :: int)) = (48 + n mod 10 :: int)"
proof -
  have "0 \<le> n mod 10" "n mod 10 < 10" by simp_all
  then show ?thesis by (simp add: of_char_of)
qed

lemma itoa_loop_count:
  assumes "0 \<le> n" and "n < 10 ^ i" and "i \<le> 16"
  shows "\<exists>ds. itoa_loop n i buf = Ok (ds @ buf) \<and> (\<forall>rest. count_retries (ds @ rest) 0 = count_retries rest n)"
  using assms
proof (induction i arbitrary: n buf)
  case 0
  then have "n = 0" by simp
  then show ?case by (simp add: itoa_loop.simps)
next
  case (Suc i)
  show ?case
  proof (cases "n = 0")
    case True
    then show ?thesis by (simp add: itoa_loop.simps)
  next
    case False
    let ?c = "char_of (48 + n mod 10) :: char"
    from Suc.prems have "0 \<le> n div 10" "n div 10 < 10 ^ i" "i \<le> 16" by auto
    from Suc.IH [OF this, of "?c # buf"] obtain ds where
      ds: "itoa_loop (n div 10) i (?c # buf) = Ok (ds @ ?c # buf)"
        "\<And>rest. count_retries (ds @ rest) 0 = count_retries rest (n div 10)" by blast
    have "(10 :: int) ^ Suc i \<le> 10 ^ 16" using Suc.prems(3) by (intro power_increasing) auto
    then have "i64 n = n" using Suc.prems by (intro i64_small) auto
    then have "i64 (n div 10 * 10 + n mod 10) = n" by simp
    moreover have "\<not> n mod 10 < 0" "\<not> n mod 10 > 9"
      using pos_mod_bound [of 10 n] by (simp_all add: not_less)
    ultimately have "count_retries ((ds @ [?c]) @ rest) 0 = count_retries rest n" for rest
      using ds(2) [of "?c # rest"] by simp
    moreover have "itoa_loop n (Suc i) buf = Ok ((ds @ [?c]) @ buf)"
      using ds(1) False Suc.prems(1) by (simp add: itoa_loop.simps [of n])
    ultimately show ?thesis by blast
  qed
qed

lemma itoa_count:
  assumes "0 \<le> n" and "n < 10 ^ 16"
  shows "\<exists>v. itoa n = Ok v \<and> count_retries v 0 = n"
proof (cases "n = 0")
  case True
  then show ?thesis by (simp add: itoa_def i64_def)
next
  case False
  then show ?thesis using itoa_loop_count [of n 16 "[]"] assms by (auto simp: itoa_def) (metis append_Nil2 count_retries.simps(1))
qed

section \<open>One delivery\<close>

text \<open>What a group still has to be given of a topic: the queue from the group's cursor on.\<close>

definition pending :: "topic \<Rightarrow> u64 \<Rightarrow> addr list" where
  "pending t c = drop (unat c) (tp_queue t)"

definition group_view :: "string \<Rightarrow> string \<Rightarrow> mem \<Rightarrow> topic \<Rightarrow> u64 \<Rightarrow> bool" where
  "group_view name grp m t c \<longleftrightarrow>
     mget (mq_t m) name = Some t \<and> tp_name t = name \<and> mget (tp_groups t) grp = Some c
     \<and> unat c \<le> length (tp_queue t) \<and> length (tp_queue t) < 2 ^ 64
     \<and> list_all (\<lambda>a. a < length (mq_heap m)) (tp_queue t)"

lemma mq_fields [simp]:
  "mq_heap (bump f m) = mq_heap m" "mq_cfg (bump f m) = mq_cfg m" "mq_t (bump f m) = mq_t m"
  "mq_st (bump f m) = f (mq_st m)" "mq_stop (bump f m) = mq_stop m"
  "mq_heap (set_topic t m) = mq_heap m" "mq_cfg (set_topic t m) = mq_cfg m"
  "mq_t (set_topic t m) = mput (tp_name t) t (mq_t m)" "mq_st (set_topic t m) = mq_st m"
  "mq_heap (send_dlq n a m) = mq_heap m" "mq_cfg (send_dlq n a m) = mq_cfg m"
  "mq_t (send_dlq n a m) = mq_t m" "mq_st (send_dlq n a m) = mq_st m"
  by (simp_all add: bump_def set_topic_def send_dlq_def split: option.splits)

lemma take_pending:
  assumes "group_view name grp m t c" and "pending t c = a # rest"
  obtains m1 where "deliver_take name grp m = (Some a, m1)"
    "group_view name grp m1 (t\<lparr>tp_groups := mput grp (c + 1) (tp_groups t)\<rparr>) (c + 1)"
    "pending (t\<lparr>tp_groups := mput grp (c + 1) (tp_groups t)\<rparr>) (c + 1) = rest" "a < length (mq_heap m)"
    "mq_heap m1 = mq_heap m" "mq_cfg m1 = mq_cfg m"
    "mq_st m1 = (mq_st m)\<lparr>s_Delivered := s_Delivered (mq_st m) + 1\<rparr>"
proof -
  let ?q = "tp_queue t" and ?t = "t\<lparr>tp_groups := mput grp (c + 1) (tp_groups t)\<rparr>"
  let ?m = "bump (\<lambda>s. s\<lparr>s_Delivered := s_Delivered s + 1\<rparr>) (set_topic ?t m)"
  have lt: "unat c < length ?q" using assms(2) by (cases "unat c < length ?q") (auto simp: pending_def)
  have a: "?q ! unat c = a" "drop (Suc (unat c)) ?q = rest"
    using assms(2) lt by (simp_all add: pending_def Cons_nth_drop_Suc [symmetric])
  have q: "length ?q < 2 ^ 64" using assms(1) by (simp add: group_view_def)
  have "c < of_nat (length ?q)" using lt q by (simp add: word_less_nat_alt unat_of_nat)
  moreover have suc: "unat (c + 1) = Suc (unat c)"
    using lt q by (simp add: unat_word_ariths)
  moreover have "a < length (mq_heap m)"
    using assms(1) lt a(1) by (auto simp: group_view_def list_all_length)
  ultimately show ?thesis
    using that [of ?m] assms(1) lt a
    by (simp add: deliver_take_def group_view_def pending_def not_le)
qed

lemma drain_empty:
  assumes "group_view name grp m t c" and "pending t c = []"
  shows "deliverOnce name grp h m = (Ok False, m)"
proof -
  have "c \<ge> of_nat (length (tp_queue t))"
    using assms by (simp add: group_view_def pending_def word_le_nat_alt unat_of_nat)
  then show ?thesis using assms(1) by (simp add: deliverOnce_def deliver_take_def group_view_def)
qed

lemma retries_of_counter: "retries_of (mv\<lparr>ms_Headers := Some (mput ''retries'' v [])\<rparr>) = count_retries v 0"
  by (simp add: retries_of_def)

lemma finish_retry:
  assumes "group_view name grp m t c" and "a < length (mq_heap m)" and "Suc (length (tp_queue t)) < 2 ^ 64"
    and "0 \<le> retries_of (mq_heap m ! a)" and "retries_of (mq_heap m ! a) < bc_MaxRetries (mq_cfg m)"
    and "bc_MaxRetries (mq_cfg m) < 10 ^ 16"
  shows "\<exists>m' mv. deliver_finish name a (Some e) m = (Ok True, m')
    \<and> group_view name grp m' (t\<lparr>tp_queue := tp_queue t @ [a]\<rparr>) c \<and> mq_cfg m' = mq_cfg m
    \<and> mq_heap m' = (mq_heap m)[a := mv] \<and> (\<exists>hs. mv = (mq_heap m ! a)\<lparr>ms_Headers := hs\<rparr>)
    \<and> retries_of mv = retries_of (mq_heap m ! a) + 1 \<and> s_Acked (mq_st m') = s_Acked (mq_st m)"
proof -
  let ?r = "retries_of (mq_heap m ! a)"
  have "i64 (?r + 1) = ?r + 1" using assms(4-6) by (intro i64_small) auto
  moreover obtain v where "itoa (?r + 1) = Ok v" "count_retries v 0 = ?r + 1"
    using itoa_count [of "?r + 1"] assms(4-6) by auto
  ultimately show ?thesis
    using assms
    by (auto simp: deliver_finish_def deliver_retry_def group_view_def retries_of_counter list_all_iff)
qed

lemma finish_dead:
  assumes "group_view name grp m t c" and "retries_of (mq_heap m ! a) \<ge> bc_MaxRetries (mq_cfg m)"
  shows "\<exists>m'. deliver_finish name a (Some e) m = (Ok True, m')
    \<and> group_view name grp m' (t\<lparr>tp_dlq := tp_dlq t @ [a]\<rparr>) c \<and> mq_cfg m' = mq_cfg m
    \<and> mq_heap m' = mq_heap m \<and> s_Acked (mq_st m') = s_Acked (mq_st m)"
  using assms by (auto simp: deliver_finish_def toDLQ_def group_view_def)

lemma finish_ack:
  assumes "group_view name grp m t c"
  shows "\<exists>m'. deliver_finish name a None m = (Ok True, m') \<and> group_view name grp m' t c
    \<and> mq_cfg m' = mq_cfg m \<and> mq_heap m' = mq_heap m \<and> s_Acked (mq_st m') = s_Acked (mq_st m) + 1"
  using assms by (simp add: deliver_finish_def group_view_def)

section \<open>Draining a topic\<close>

text \<open>How often the broker calls the handler with a message before it is acknowledged or dead.\<close>

definition attempts :: "mem \<Rightarrow> Handler \<Rightarrow> addr \<Rightarrow> nat" where
  "attempts m h a =
     (if h (mq_heap m ! a) = None then 1
      else Suc (nat (bc_MaxRetries (mq_cfg m) - retries_of (mq_heap m ! a))))"

definition payload_only :: "Handler \<Rightarrow> bool" where
  "payload_only h \<longleftrightarrow> (\<forall>mv hs. h (mv\<lparr>ms_Headers := hs\<rparr>) = h mv)"

fun deliver_n :: "nat \<Rightarrow> string \<Rightarrow> string \<Rightarrow> Handler \<Rightarrow> mem \<Rightarrow> mem option" where
  "deliver_n 0 name grp h m = Some m"
| "deliver_n (Suc n) name grp h m =
     (case deliverOnce name grp h m of
        (Ok True, m1) \<Rightarrow> deliver_n n name grp h m1
      | _ \<Rightarrow> None)"

text \<open>The three ends of a delivery: acknowledged, dead, or appended again with the counter increased.\<close>

definition delivery_effect ::
    "Handler \<Rightarrow> mem \<Rightarrow> topic \<Rightarrow> addr \<Rightarrow> addr list \<Rightarrow> mem \<Rightarrow> topic \<Rightarrow> addr list \<Rightarrow> bool" where
  "delivery_effect h m t a rest m' t' ps' \<longleftrightarrow>
    (if h (mq_heap m ! a) = None then
       ps' = rest \<and> mq_heap m' = mq_heap m \<and> tp_dlq t' = tp_dlq t
       \<and> length (tp_queue t') = length (tp_queue t) \<and> s_Acked (mq_st m') = s_Acked (mq_st m) + 1
     else s_Acked (mq_st m') = s_Acked (mq_st m) \<and>
      (if retries_of (mq_heap m ! a) \<ge> bc_MaxRetries (mq_cfg m) then
         ps' = rest \<and> mq_heap m' = mq_heap m \<and> tp_dlq t' = tp_dlq t @ [a]
         \<and> length (tp_queue t') = length (tp_queue t)
       else
         ps' = rest @ [a] \<and> tp_dlq t' = tp_dlq t
         \<and> length (tp_queue t') = Suc (length (tp_queue t))
         \<and> (\<exists>mv hs. mq_heap m' = (mq_heap m)[a := mv] \<and> mv = (mq_heap m ! a)\<lparr>ms_Headers := hs\<rparr>
              \<and> retries_of mv = retries_of (mq_heap m ! a) + 1)))"

lemma deliver_one:
  assumes v: "group_view name grp m t c" and p: "pending t c = a # rest"
    and r: "0 \<le> retries_of (mq_heap m ! a)" and max: "bc_MaxRetries (mq_cfg m) < 10 ^ 16"
    and q: "Suc (length (tp_queue t)) < 2 ^ 64"
  shows "\<exists>m' t' c'. deliverOnce name grp h m = (Ok True, m') \<and> group_view name grp m' t' c'
    \<and> mq_cfg m' = mq_cfg m \<and>
    delivery_effect h m t a rest m' t' (pending t' c')"
proof -
  let ?t = "t\<lparr>tp_groups := mput grp (c + 1) (tp_groups t)\<rparr>"
  obtain m1 where m1: "deliver_take name grp m = (Some a, m1)" "group_view name grp m1 ?t (c + 1)"
      "pending ?t (c + 1) = rest" "a < length (mq_heap m)" "mq_heap m1 = mq_heap m" "mq_cfg m1 = mq_cfg m"
      "mq_st m1 = (mq_st m)\<lparr>s_Delivered := s_Delivered (mq_st m) + 1\<rparr>"
    by (rule take_pending [OF v p])
  have le: "unat (c + 1) \<le> length (tp_queue t)" using m1(2) by (simp add: group_view_def)
  show ?thesis
  proof (cases "h (mq_heap m ! a)")
    case None
    from finish_ack [OF m1(2), of a] None m1(1,3,5-7) show ?thesis
      by (force simp: deliverOnce_def delivery_effect_def)
  next
    case (Some e)
    show ?thesis
    proof (cases "retries_of (mq_heap m ! a) \<ge> bc_MaxRetries (mq_cfg m)")
      case True
      from finish_dead [OF m1(2), of a e] True Some m1(1,3,5-7) show ?thesis
        by (force simp: deliverOnce_def pending_def delivery_effect_def)
    next
      case False
      let ?t2 = "?t\<lparr>tp_queue := tp_queue ?t @ [a]\<rparr>"
      from finish_retry [OF m1(2), of a e] False r max q m1(4-7) obtain m' mv hs where
        m': "deliver_finish name a (Some e) m1 = (Ok True, m')" "group_view name grp m' ?t2 (c + 1)"
          "mq_cfg m' = mq_cfg m" "mq_heap m' = (mq_heap m)[a := mv]" "mv = (mq_heap m ! a)\<lparr>ms_Headers := hs\<rparr>"
          "retries_of mv = retries_of (mq_heap m ! a) + 1" "s_Acked (mq_st m') = s_Acked (mq_st m)"
        by auto
      moreover have "pending ?t2 (c + 1) = rest @ [a]" using m1(3) le by (simp add: pending_def)
      moreover have "deliverOnce name grp h m = (Ok True, m')"
        using m1(1,5) m'(1) Some by (simp add: deliverOnce_def)
      ultimately show ?thesis
        using False Some by (intro exI [of _ m'] exI [of _ ?t2] exI [of _ "c + 1"]) (auto simp: delivery_effect_def)
    qed
  qed
qed

definition fails :: "mem \<Rightarrow> Handler \<Rightarrow> addr \<Rightarrow> bool" where
  "fails m h a \<longleftrightarrow> h (mq_heap m ! a) \<noteq> None"

lemma attempts_pos: "0 < attempts m h a"
  by (simp add: attempts_def)

text \<open>A retry moves the message to the end and takes one of its attempts; the others keep theirs.\<close>

lemma retry_attempts:
  assumes "mq_heap m' = (mq_heap m)[a := mv]" and "mv = (mq_heap m ! a)\<lparr>ms_Headers := hs\<rparr>"
    and "retries_of mv = retries_of (mq_heap m ! a) + 1" and "mq_cfg m' = mq_cfg m"
    and "payload_only h" and "fails m h a" and "a < length (mq_heap m)"
    and "retries_of (mq_heap m ! a) < bc_MaxRetries (mq_cfg m)"
  shows "attempts m h a = Suc (attempts m' h a)" and "b \<noteq> a \<Longrightarrow> attempts m' h b = attempts m h b"
    and "fails m' h b = fails m h b"
  using assms by (auto simp: attempts_def fails_def payload_only_def nth_list_update)

definition drained :: "string \<Rightarrow> string \<Rightarrow> Handler \<Rightarrow> mem \<Rightarrow> topic \<Rightarrow> addr list \<Rightarrow> mem \<Rightarrow> bool" where
  "drained name grp h m t ps m' \<longleftrightarrow>
     (\<exists>t' c'. group_view name grp m' t' c' \<and> pending t' c' = []
       \<and> mset (tp_dlq t') = mset (tp_dlq t) + mset (filter (fails m h) ps)
       \<and> s_Acked (mq_st m') = s_Acked (mq_st m) + of_nat (length (filter (Not \<circ> fails m h) ps)))"

definition drainable :: "Handler \<Rightarrow> mem \<Rightarrow> addr list \<Rightarrow> bool" where
  "drainable h m ps \<longleftrightarrow>
     distinct ps \<and> (\<forall>a \<in> set ps. 0 \<le> retries_of (mq_heap m ! a))
     \<and> bc_MaxRetries (mq_cfg m) < 10 ^ 16 \<and> payload_only h"

lemma effect_progress:
  assumes "delivery_effect h m t a rest m' t' ps'" and "mq_cfg m' = mq_cfg m"
    and "drainable h m (a # rest)" and "a < length (mq_heap m)"
  shows "drainable h m' ps'"
    and "sum_list (map (attempts m h) (a # rest)) = Suc (sum_list (map (attempts m' h) ps'))"
    and "length (tp_queue t') \<le> Suc (length (tp_queue t))"
    and "mset (tp_dlq t') + mset (filter (fails m' h) ps') =
         mset (tp_dlq t) + mset (filter (fails m h) (a # rest))"
    and "s_Acked (mq_st m') + of_nat (length (filter (Not \<circ> fails m' h) ps')) =
         s_Acked (mq_st m) + of_nat (length (filter (Not \<circ> fails m h) (a # rest)))"
proof -
  let ?r = "retries_of (mq_heap m ! a)"
  have "drainable h m' ps' \<and>
      sum_list (map (attempts m h) (a # rest)) = Suc (sum_list (map (attempts m' h) ps')) \<and>
      length (tp_queue t') \<le> Suc (length (tp_queue t)) \<and>
      mset (tp_dlq t') + mset (filter (fails m' h) ps') =
         mset (tp_dlq t) + mset (filter (fails m h) (a # rest)) \<and>
      s_Acked (mq_st m') + of_nat (length (filter (Not \<circ> fails m' h) ps')) =
         s_Acked (mq_st m) + of_nat (length (filter (Not \<circ> fails m h) (a # rest)))"
  proof (cases "fails m h a \<and> ?r < bc_MaxRetries (mq_cfg m)")
    case False
    then have heap: "mq_heap m' = mq_heap m" "ps' = rest" "drainable h m' rest"
      using assms(1-3) by (auto simp: delivery_effect_def fails_def drainable_def split: if_splits)
    have "attempts m' h = attempts m h" "fails m' h = fails m h" "attempts m h a = 1"
      using heap(1) assms(2) False by (auto simp: fun_eq_iff attempts_def fails_def)
    with False assms(1) heap(2,3) show ?thesis
      by (auto simp: delivery_effect_def fails_def split: if_splits)
  next
    case True
    then obtain mv hs where mv: "mq_heap m' = (mq_heap m)[a := mv]"
        "mv = (mq_heap m ! a)\<lparr>ms_Headers := hs\<rparr>" "retries_of mv = ?r + 1" "ps' = rest @ [a]"
        "tp_dlq t' = tp_dlq t" "length (tp_queue t') = Suc (length (tp_queue t))"
        "s_Acked (mq_st m') = s_Acked (mq_st m)"
      using assms(1) by (auto simp: delivery_effect_def fails_def)
    have h: "payload_only h" and n: "a \<notin> set rest" using assms(3) by (simp_all add: drainable_def)
    note ra = retry_attempts [OF mv(1-3) assms(2) h _ assms(4)]
    have "attempts m' h b = attempts m h b" if "b \<in> set rest" for b
      using ra(2) [of b] True n that by metis
    then have "sum_list (map (attempts m' h) rest) = sum_list (map (attempts m h) rest)"
      by (simp cong: map_cong)
    moreover have "attempts m h a = Suc (attempts m' h a)" "fails m' h = fails m h"
      using ra(1,3) True by (simp_all add: fun_eq_iff)
    moreover have "drainable h m' (rest @ [a])"
      using assms(2-4) mv(1,3) by (auto simp: drainable_def nth_list_update)
    ultimately show ?thesis using mv(4-7) True by simp
  qed
  then show "drainable h m' ps'"
    and "sum_list (map (attempts m h) (a # rest)) = Suc (sum_list (map (attempts m' h) ps'))"
    and "length (tp_queue t') \<le> Suc (length (tp_queue t))"
    and "mset (tp_dlq t') + mset (filter (fails m' h) ps') =
         mset (tp_dlq t) + mset (filter (fails m h) (a # rest))"
    and "s_Acked (mq_st m') + of_nat (length (filter (Not \<circ> fails m' h) ps')) =
         s_Acked (mq_st m) + of_nat (length (filter (Not \<circ> fails m h) (a # rest)))"
    by blast+
qed

lemma drain_topic:
  assumes "group_view name grp m t c" and "drainable h m (pending t c)"
    and "sum_list (map (attempts m h) (pending t c)) = K" and "length (tp_queue t) + K < 2 ^ 64"
  shows "\<exists>m'. deliver_n K name grp h m = Some m' \<and> drained name grp h m t (pending t c) m'"
  using assms
proof (induction K arbitrary: m t c)
  case 0
  then have "pending t c = []"
    using attempts_pos [of m h "hd (pending t c)"] by (cases "pending t c") simp_all
  with 0 show ?case by (auto simp: drained_def)
next
  case (Suc K)
  then obtain a rest where p: "pending t c = a # rest" by (cases "pending t c") auto
  have a: "a < length (mq_heap m)" by (rule take_pending [OF Suc.prems(1) p])
  have "0 \<le> retries_of (mq_heap m ! a)" "bc_MaxRetries (mq_cfg m) < 10 ^ 16"
      "Suc (length (tp_queue t)) < 2 ^ 64"
    using Suc.prems(2,4) p by (auto simp: drainable_def)
  from deliver_one [OF Suc.prems(1) p this, of h] obtain m1 t1 c1 where
    m1: "deliverOnce name grp h m = (Ok True, m1)" "group_view name grp m1 t1 c1" "mq_cfg m1 = mq_cfg m"
      "delivery_effect h m t a rest m1 t1 (pending t1 c1)" by blast
  note e = effect_progress [OF m1(4,3) Suc.prems(2) [unfolded p] a]
  have "sum_list (map (attempts m1 h) (pending t1 c1)) = K" "length (tp_queue t1) + K < 2 ^ 64"
    using e(2,3) Suc.prems(3,4) p by simp_all
  from Suc.IH [OF m1(2) e(1) this] obtain m' where
    "deliver_n K name grp h m1 = Some m'" "drained name grp h m1 t1 (pending t1 c1) m'" by blast
  moreover from this(2) have "drained name grp h m t (pending t c) m'"
    unfolding drained_def p e(4,5) by blast
  ultimately show ?case using m1(1) by auto
qed

text \<open>
  Property C10. A consumer group works a topic off: with a handler that judges the payload, exactly
  the sum of the messages' attempts deliveries (one for a message the handler accepts, one more than
  the remaining retries for one it rejects) empty the group's backlog; the rejected messages, and only
  they, have joined the topic's dead-letter list, and every accepted message was acknowledged once.
\<close>

theorem group_drains_topic:
  assumes "group_view name grp m t c" and "drainable h m (pending t c)"
    and "length (tp_queue t) + sum_list (map (attempts m h) (pending t c)) < 2 ^ 64"
  shows "\<exists>m' t' c'. deliver_n (sum_list (map (attempts m h) (pending t c))) name grp h m = Some m'
    \<and> deliverOnce name grp h m' = (Ok False, m') \<and> group_view name grp m' t' c'
    \<and> mset (tp_dlq t') = mset (tp_dlq t) + mset (filter (fails m h) (pending t c))
    \<and> s_Acked (mq_Stats m') =
        s_Acked (mq_Stats m) + of_nat (length (filter (Not \<circ> fails m h) (pending t c)))"
proof -
  from drain_topic [OF assms(1,2) refl assms(3)] obtain m' where
    "deliver_n (sum_list (map (attempts m h) (pending t c))) name grp h m = Some m'"
    "drained name grp h m t (pending t c) m'" by blast
  moreover from this(2) obtain t' c' where "group_view name grp m' t' c'" "pending t' c' = []"
    "mset (tp_dlq t') = mset (tp_dlq t) + mset (filter (fails m h) (pending t c))"
    "s_Acked (mq_st m') = s_Acked (mq_st m) + of_nat (length (filter (Not \<circ> fails m h) (pending t c)))"
    by (auto simp: drained_def)
  ultimately show ?thesis
    using drain_empty [of name grp m' t' c' h]
    by (intro exI [of _ m'] exI [of _ t'] exI [of _ c']) (simp add: mq_Stats_def)
qed

definition demo_mq :: mem where
  "demo_mq =
     mq_Subscribe ''t'' ''g'' (mq_Publish 7 ''t'' ''k2'' ''good'' None
       (mq_Publish 5 ''t'' ''k1'' ''bad'' None
         (mq_Open \<lparr>bc_DataDir = [], bc_MaxRetries = 2, bc_BaseBackoff = 0, bc_MaxBackoff = 0,
                   bc_PersistOnDisk = False\<rparr>)))"

definition demo_handler :: Handler where
  "demo_handler mv = (if ms_Value mv = ''bad'' then Some (ErrorString ''nope'') else None)"

definition demo_topic :: topic where
  "demo_topic = the (mget (mq_t demo_mq) ''t'')"

lemmas mq_exec = mq_Open_def newMem_def mq_Publish_def mq_Subscribe_def getOrCreateTopic_def Let_def
  set_topic_def bump_def copyHeaders_def mget_def mput_def

theorem group_drains_topic_witness:
  "pending demo_topic 0 = [0, 1] \<and> (\<exists>m' t' c'. deliver_n 4 ''t'' ''g'' demo_handler demo_mq = Some m'
    \<and> deliverOnce ''t'' ''g'' demo_handler m' = (Ok False, m') \<and> group_view ''t'' ''g'' m' t' c'
    \<and> mset (tp_dlq t') = {#0#} \<and> s_Acked (mq_Stats m') = 1)"
proof -
  have m: "group_view ''t'' ''g'' demo_mq demo_topic 0" "pending demo_topic 0 = [0, 1]"
      "tp_dlq demo_topic = []" "tp_queue demo_topic = [0, 1]" "s_Acked (mq_Stats demo_mq) = 0"
      "bc_MaxRetries (mq_cfg demo_mq) = 2"
    by (simp_all add: demo_topic_def demo_mq_def mq_exec group_view_def pending_def mq_Stats_def)
  have heap: "map ms_Value (mq_heap demo_mq) = [''bad'', ''good'']" "map retries_of (mq_heap demo_mq) = [0, 0]"
    by (simp_all add: demo_mq_def mq_exec retries_of_def)
  then have h: "length (mq_heap demo_mq) = 2" "ms_Value (mq_heap demo_mq ! 0) = ''bad''"
      "ms_Value (mq_heap demo_mq ! 1) = ''good''" "retries_of (mq_heap demo_mq ! 0) = 0"
      "retries_of (mq_heap demo_mq ! 1) = 0"
    by (auto simp: map_eq_Cons_conv)
  then have "drainable demo_handler demo_mq (pending demo_topic 0)"
    by (simp add: drainable_def m payload_only_def demo_handler_def)
  moreover have "map (attempts demo_mq demo_handler) (pending demo_topic 0) = [3, 1]"
      "filter (fails demo_mq demo_handler) (pending demo_topic 0) = [0]"
      "filter (Not \<circ> fails demo_mq demo_handler) (pending demo_topic 0) = [1]"
    using h by (simp_all add: m attempts_def fails_def demo_handler_def)
  ultimately show ?thesis
    using group_drains_topic [OF m(1), of demo_handler] m(2-5) by simp
qed

section \<open>Publishing\<close>

text \<open>
  Publish appends a new message to the end of its topic's queue with the next offset, so
  that it joins the backlog of every group of the topic, and leaves every message already queued as
  it was.
\<close>

theorem publish_appends:
  assumes "group_view name grp m t c" and "Suc (length (tp_queue t)) < 2 ^ 64"
    and "mq_Publish now name key value headers m = m'"
  shows "\<exists>t'. group_view name grp m' t' c \<and> pending t' c = pending t c @ [length (mq_heap m)]
    \<and> tp_nextOff t' = tp_nextOff t + 1 \<and> s_Published (mq_Stats m') = s_Published (mq_Stats m) + 1
    \<and> mq_heap m' = mq_heap m @ [\<lparr>ms_Topic = name, ms_Partition = 0, ms_Offset = tp_nextOff t + 1,
        ms_Key = key, ms_Value = value, ms_Headers = copyHeaders headers, ms_Timestamp = now\<rparr>]"
  using assms
  by (auto simp: mq_Publish_def getOrCreateTopic_def Let_def group_view_def pending_def mq_Stats_def
      list_all_iff less_SucI)

theorem publish_appends_witness:
  "\<exists>t'. group_view ''t'' ''g'' (mq_Publish 9 ''t'' ''k3'' ''v'' None demo_mq) t' 0
    \<and> pending t' 0 = [0, 1, 2] \<and> tp_nextOff t' = 3"
proof -
  have m: "group_view ''t'' ''g'' demo_mq demo_topic 0" "pending demo_topic 0 = [0, 1]"
      "tp_queue demo_topic = [0, 1]" "length (mq_heap demo_mq) = 2" "tp_nextOff demo_topic = 2"
    by (simp_all add: demo_topic_def demo_mq_def mq_exec group_view_def pending_def)
  then show ?thesis
    using publish_appends [OF m(1) _ refl, of 9 "''k3''" "''v''" None] by auto
qed

section \<open>Retries and the other groups\<close>

text \<open>
  A retry replaces the message's headers by the retry counter alone: every header the
  producer set is gone when the message is delivered again.
\<close>

theorem retry_drops_headers:
  assumes "group_view name grp m t c" and "a < length (mq_heap m)"
    and "0 \<le> retries_of (mq_heap m ! a)" and "retries_of (mq_heap m ! a) < bc_MaxRetries (mq_cfg m)"
    and "bc_MaxRetries (mq_cfg m) < 10 ^ 16"
  shows "\<exists>m' v. deliver_finish name a (Some e) m = (Ok True, m')
    \<and> ms_Headers (mq_heap m' ! a) = Some [(''retries'', v)]
    \<and> count_retries v 0 = retries_of (mq_heap m ! a) + 1"
proof -
  let ?r = "retries_of (mq_heap m ! a)"
  have "i64 (?r + 1) = ?r + 1" using assms(3-5) by (intro i64_small) auto
  moreover obtain v where "itoa (?r + 1) = Ok v" "count_retries v 0 = ?r + 1"
    using itoa_count [of "?r + 1"] assms(3-5) by auto
  ultimately show ?thesis
    using assms by (auto simp: deliver_finish_def deliver_retry_def group_view_def mput_def)
qed

theorem retry_drops_headers_witness:
  "\<exists>m' v. deliver_finish ''t'' 0 (Some ErrNoMessages)
      (mq_Publish 5 ''t'' ''k'' ''v'' (Some [(''trace'', ''abc'')]) (mq_Subscribe ''t'' ''g'' (mq_Open
        \<lparr>bc_DataDir = [], bc_MaxRetries = 2, bc_BaseBackoff = 0, bc_MaxBackoff = 0,
         bc_PersistOnDisk = False\<rparr>))) = (Ok True, m')
    \<and> ms_Headers (mq_heap m' ! 0) = Some [(''retries'', v)] \<and> count_retries v 0 = 1"
  (is "\<exists>m' v. deliver_finish _ _ _ ?m = _ \<and> _ \<and> _")
proof -
  have m: "group_view ''t'' ''g'' ?m (the (mget (mq_t ?m) ''t'')) 0" "length (mq_heap ?m) = 1"
      "retries_of (mq_heap ?m ! 0) = 0" "bc_MaxRetries (mq_cfg ?m) = 2"
    by (simp_all add: mq_exec group_view_def retries_of_def)
  show ?thesis using retry_drops_headers [OF m(1), of 0 ErrNoMessages] m(2-4) by simp
qed

text \<open>
  The queue of retries is shared by all groups: when a delivery to one group fails and
  is retried, a group that had already worked off the whole topic is given the message again.
\<close>

theorem retry_redelivers_to_other_group:
  assumes "group_view name g1 m t c1" and "pending t c1 = a # rest" and "g1 \<noteq> g2"
    and "mget (tp_groups t) g2 = Some c2" and "unat c2 = length (tp_queue t)"
    and "Suc (length (tp_queue t)) < 2 ^ 64" and "h (mq_heap m ! a) = Some e"
    and "0 \<le> retries_of (mq_heap m ! a)" and "retries_of (mq_heap m ! a) < bc_MaxRetries (mq_cfg m)"
    and "bc_MaxRetries (mq_cfg m) < 10 ^ 16"
  shows "fst (deliver_take name g2 m) = None
    \<and> (\<exists>m' m2. deliverOnce name g1 h m = (Ok True, m') \<and> deliver_take name g2 m' = (Some a, m2))"
proof -
  let ?t = "t\<lparr>tp_groups := mput g1 (c1 + 1) (tp_groups t)\<rparr>"
  obtain m1 where m1: "deliver_take name g1 m = (Some a, m1)" "group_view name g1 m1 ?t (c1 + 1)"
      "a < length (mq_heap m)" "mq_heap m1 = mq_heap m" "mq_cfg m1 = mq_cfg m"
    by (rule take_pending [OF assms(1,2)])
  obtain m' where m': "deliver_finish name a (Some e) m1 = (Ok True, m')"
      "group_view name g1 m' (?t\<lparr>tp_queue := tp_queue ?t @ [a]\<rparr>) (c1 + 1)"
    using finish_retry [OF m1(2), of a e] m1(3-5) assms(6,8-10) by auto
  have v: "group_view name g2 m' (?t\<lparr>tp_queue := tp_queue ?t @ [a]\<rparr>) c2"
    using m'(2) assms(3-5) by (simp add: group_view_def)
  have p: "pending (?t\<lparr>tp_queue := tp_queue ?t @ [a]\<rparr>) c2 = [a]"
    using assms(5) by (simp add: pending_def)
  obtain m2 where "deliver_take name g2 m' = (Some a, m2)" by (rule take_pending [OF v p])
  moreover have "of_nat (length (tp_queue t)) \<le> c2"
    using assms(5,6) by (simp add: word_le_nat_alt unat_of_nat)
  ultimately show ?thesis
    using m1(1,4) m'(1) assms(1,4,7) by (simp add: deliverOnce_def deliver_take_def group_view_def)
qed

definition demo_two_groups :: mem where
  "demo_two_groups =
     snd (deliverOnce ''t'' ''g2'' (\<lambda>_. None) (mq_Subscribe ''t'' ''g2'' (mq_Subscribe ''t'' ''g1''
       (mq_Publish 5 ''t'' ''k1'' ''bad'' None
         (mq_Open \<lparr>bc_DataDir = [], bc_MaxRetries = 2, bc_BaseBackoff = 0, bc_MaxBackoff = 0,
                   bc_PersistOnDisk = False\<rparr>)))))"

theorem retry_redelivers_to_other_group_witness:
  "fst (deliver_take ''t'' ''g2'' demo_two_groups) = None
    \<and> (\<exists>m' m2. deliverOnce ''t'' ''g1'' demo_handler demo_two_groups = (Ok True, m')
        \<and> deliver_take ''t'' ''g2'' m' = (Some 0, m2))"
proof -
  let ?m = demo_two_groups and ?t = "the (mget (mq_t demo_two_groups) ''t'')"
  have m: "group_view ''t'' ''g1'' ?m ?t 0" "pending ?t 0 = [0]" "mget (tp_groups ?t) ''g2'' = Some 1"
      "tp_queue ?t = [0]" "bc_MaxRetries (mq_cfg ?m) = 2" "retries_of (mq_heap ?m ! 0) = 0"
      "demo_handler (mq_heap ?m ! 0) = Some (ErrorString ''nope'')"
    by (simp_all add: demo_two_groups_def deliverOnce_def deliver_take_def deliver_finish_def mq_exec
        group_view_def pending_def retries_of_def demo_handler_def)
  show ?thesis
    using retry_redelivers_to_other_group [OF m(1,2), of "''g2''" 1 demo_handler] m(3-7) by simp
qed

text \<open>
  A channel that DLQ handed out before the topic existed is replaced when the topic is
  created, so the messages that die later are sent to another channel.
\<close>

theorem early_dlq_channel_orphaned:
  assumes "mget (mq_t m) name = None" and "mget (mq_dlq m) name = None" and "mq_DLQ name m = (ch, m1)"
  shows "\<exists>ch' m2. mq_DLQ name (mq_Publish now name key value headers m1) = (ch', m2) \<and> ch' \<noteq> ch
    \<and> mget (mq_dlq m1) name = Some ch"
proof -
  have m1: "m1 = m\<lparr>mq_dlq := mput name ch (mq_dlq m), mq_chans := mq_chans m @ [[]]\<rparr>"
      "ch = length (mq_chans m)"
    using assms(2,3) by (auto simp: mq_DLQ_def Let_def)
  have "mget (mq_dlq (mq_Publish now name key value headers m1)) name = Some (Suc ch)"
    using assms(1) by (simp add: m1 mq_Publish_def getOrCreateTopic_def Let_def bump_def set_topic_def)
  then show ?thesis by (simp add: mq_DLQ_def m1(1))
qed

theorem early_dlq_channel_orphaned_witness:
  "\<exists>ch' m2. mq_DLQ ''u'' (mq_Publish 3 ''u'' ''k'' ''v'' None (snd (mq_DLQ ''u'' demo_mq))) = (ch', m2)
    \<and> ch' \<noteq> fst (mq_DLQ ''u'' demo_mq)"
proof -
  have "mget (mq_t demo_mq) ''u'' = None" "mget (mq_dlq demo_mq) ''u'' = None"
    by (simp_all add: demo_mq_def mq_exec)
  from early_dlq_channel_orphaned [OF this, of "fst (mq_DLQ ''u'' demo_mq)" "snd (mq_DLQ ''u'' demo_mq)"]
  show ?thesis by fastforce
qed

section \<open>The counters under interleaving\<close>



definition queued :: "mem \<Rightarrow> u64" where
  "queued m = sum_list (map (\<lambda>(_, t). of_nat (length (tp_queue t))) (mq_t m))"

definition topics_named :: "mem \<Rightarrow> bool" where
  "topics_named m \<longleftrightarrow> (\<forall>k t. mget (mq_t m) k = Some t \<longrightarrow> tp_name t = k)"



lemma queued_frame [simp]:
  "queued (bump f m) = queued m" "queued (send_dlq n a m) = queued m" "queued (m\<lparr>mq_heap := h\<rparr>) = queued m"
  "topics_named (bump f m) = topics_named m" "topics_named (send_dlq n a m) = topics_named m"
  "topics_named (m\<lparr>mq_heap := h\<rparr>) = topics_named m"
  by (simp_all add: queued_def topics_named_def)


lemma topics_named_set_topic [simp]: "topics_named m \<Longrightarrow> topics_named (set_topic t m)"
  by (simp add: topics_named_def)









end
