(* ===== verification/StateTypes.thy ===== *)
theory StateTypes
  imports GoPrelude
begin

text \<open>
  The resources of \<^verbatim>\<open>internal/state\<close>, a package that is not part of the source tree: records with the
  fields that the modelled components read or write (the embedded base with its identifier, name and
  project is flattened), and the operations of its store that they call, as a record of functions over
  the state \<^typ>\<open>'s\<close> of the store. Whatever a component relies on is a hypothesis of its theorems.
\<close>

record Taint =
  ta_Key :: string
  ta_Value :: string
  ta_Effect :: string

record Node =
  n_ID :: string
  n_Name :: string
  n_Address :: string
  n_Status :: string
  n_Unschedulable :: bool
  n_Drain :: bool
  n_Cordoned :: bool
  n_CPUAllocatable :: int
  n_CPUAllocated :: int
  n_MemAllocatable :: int
  n_MemAllocated :: int
  n_GPUs :: int
  n_Labels :: "(string, string) gomap"
  n_Taints :: "Taint list"
  n_LastHeartbeat :: time

record WorkloadStatus =
  ws_Available :: bool
  ws_Message :: string
  ws_ReadyReplicas :: int
  ws_DesiredReplicas :: int

record Workload =
  w_ID :: string
  w_Name :: string
  w_ProjectID :: string
  w_Replicas :: int
  w_CPUMillicores :: int
  w_MemoryBytes :: int
  w_GPUs :: int
  w_NodeSelector :: "(string, string) gomap"
  w_Tolerations :: "string list"
  w_AntiAffinity :: "string list"
  w_Status :: WorkloadStatus

record StatePlacement =
  pl_ID :: string
  pl_Name :: string
  pl_ProjectID :: string
  pl_WorkloadID :: string
  pl_NodeID :: string
  pl_ReplicaIdx :: int
  pl_Status :: string

record Project =
  p_ID :: string
  p_Name :: string
  p_Description :: string
  p_QuotaCPU :: int
  p_QuotaMem :: int
  p_QuotaObj :: int

record Service =
  sv_ID :: string
  sv_Name :: string
  sv_ProjectID :: string
  sv_WorkloadID :: string
  sv_Port :: int

record DNSRecord =
  dr_ID :: string
  dr_Name :: string
  dr_ProjectID :: string
  dr_IP :: string
  dr_Type :: string

record User =
  u_ID :: string
  u_Name :: string
  u_Email :: string
  u_DisplayName :: string
  u_Admin :: bool
  u_PasswordBcrypt :: string

record APIKey =
  ak_ID :: string
  ak_Name :: string
  ak_ProjectID :: string
  ak_Hash :: string
  ak_Prefix :: string
  ak_ExpiresAt :: time

text \<open>
  A create operation gets a pointer and may fill in fields of the resource: it returns the resource as
  the caller finds it afterwards.
\<close>

record 's UserStore =
  us_FindUserByEmail :: "string \<Rightarrow> 's \<Rightarrow> User outcome"
  us_GetUser :: "string \<Rightarrow> 's \<Rightarrow> User outcome"
  us_CreateUser :: "User \<Rightarrow> 's \<Rightarrow> User outcome \<times> 's"
  us_ListAPIKeys :: "'s \<Rightarrow> APIKey list outcome"
  us_CreateAPIKey :: "APIKey \<Rightarrow> 's \<Rightarrow> APIKey outcome \<times> 's"

record 's ClusterStore =
  cs_ListProjects :: "'s \<Rightarrow> Project list outcome"
  cs_ListWorkloads :: "string \<Rightarrow> 's \<Rightarrow> Workload list outcome"
  cs_GetWorkload :: "string \<Rightarrow> string \<Rightarrow> 's \<Rightarrow> Workload outcome"
  cs_UpdateWorkload :: "Workload \<Rightarrow> 's \<Rightarrow> unit outcome \<times> 's"
  cs_SetPlacements :: "string \<Rightarrow> StatePlacement list \<Rightarrow> 's \<Rightarrow> unit outcome \<times> 's"
  cs_GetPlacements :: "string \<Rightarrow> 's \<Rightarrow> StatePlacement list outcome"
  cs_ListNodes :: "'s \<Rightarrow> Node list outcome"
  cs_GetNode :: "string \<Rightarrow> 's \<Rightarrow> Node outcome"
  cs_UpsertNode :: "Node \<Rightarrow> 's \<Rightarrow> unit outcome \<times> 's"
  cs_ListServices :: "string \<Rightarrow> 's \<Rightarrow> Service list outcome"
  cs_ListDNS :: "string \<Rightarrow> 's \<Rightarrow> DNSRecord list outcome"
  cs_PutDNS :: "DNSRecord \<Rightarrow> 's \<Rightarrow> unit outcome \<times> 's"

text \<open>What a call with a discarded error yields: nothing when it failed.\<close>

definition or_nil :: "'a list outcome \<Rightarrow> 'a list" where
  "or_nil r = (case r of Ok xs \<Rightarrow> xs | _ \<Rightarrow> [])"

end
