(* ===== verification/GoFloat.thy ===== *)
theory GoFloat
  imports Complex_Main GoPrelude
begin

text \<open>
  \<^verbatim>\<open>float64\<close>: the finite values as rationals, the two infinities and not-a-number. Every operation
  computes the exact rational result and rounds it to the nearest value with 53 significant bits (ties
  to the even one), with the exponent range of the format: gradual underflow below \<^verbatim>\<open>2^-1022\<close>, overflow
  to infinity. The sign of zero is not kept. \<^verbatim>\<open>stable_sort\<close> is \<^verbatim>\<open>sort.SliceStable\<close> for a comparison that
  is a strict weak order.
\<close>

section \<open>Values and rounding\<close>

datatype float64 = Fin rat | PInf | NInf | NaN

fun ilog2 :: "nat \<Rightarrow> nat" where
  "ilog2 n = (if n < 2 then 0 else Suc (ilog2 (n div 2)))"

declare ilog2.simps [simp del]

definition pow2 :: "int \<Rightarrow> rat" where
  "pow2 e = (if 0 \<le> e then 2 ^ nat e else 1 / 2 ^ nat (- e))"

text \<open>The exponent of the last of the 53 bits of a positive rational.\<close>

definition unit_exp :: "rat \<Rightarrow> int" where
  "unit_exp q =
     (let (a, b) = quotient_of q; e = int (ilog2 (nat a)) - int (ilog2 (nat b)) - 52
      in max (- 1074) (if q < pow2 (e + 52) then e - 1 else e))"

definition round_even :: "rat \<Rightarrow> int" where
  "round_even q =
     (let f = \<lfloor>q\<rfloor>; r = q - of_int f
      in if r < 1 / 2 then f else if r > 1 / 2 then f + 1 else if even f then f else f + 1)"

definition f64_round :: "rat \<Rightarrow> float64" where
  "f64_round q =
     (if q = 0 then Fin 0
      else
        let e = unit_exp \<bar>q\<bar>; v = of_int (round_even (\<bar>q\<bar> / pow2 e)) * pow2 e
        in if v \<ge> pow2 1024 then (if q > 0 then PInf else NInf)
           else Fin (if q > 0 then v else - v))"

definition f64_of_int :: "int \<Rightarrow> float64" where
  "f64_of_int i = f64_round (of_int i)"

section \<open>Arithmetic and comparison\<close>

fun f64_add :: "float64 \<Rightarrow> float64 \<Rightarrow> float64" where
  "f64_add (Fin a) (Fin b) = f64_round (a + b)"
| "f64_add NaN _ = NaN"
| "f64_add _ NaN = NaN"
| "f64_add PInf NInf = NaN"
| "f64_add NInf PInf = NaN"
| "f64_add PInf _ = PInf"
| "f64_add _ PInf = PInf"
| "f64_add NInf _ = NInf"
| "f64_add _ NInf = NInf"

fun f64_neg :: "float64 \<Rightarrow> float64" where
  "f64_neg (Fin a) = Fin (- a)"
| "f64_neg PInf = NInf"
| "f64_neg NInf = PInf"
| "f64_neg NaN = NaN"

definition f64_sub :: "float64 \<Rightarrow> float64 \<Rightarrow> float64" where
  "f64_sub a b = f64_add a (f64_neg b)"

text \<open>Division by a finite number; every zero counts as positive.\<close>

fun f64_div :: "float64 \<Rightarrow> float64 \<Rightarrow> float64" where
  "f64_div (Fin a) (Fin b) =
     (if b = 0 then (if a = 0 then NaN else if a > 0 then PInf else NInf) else f64_round (a / b))"
| "f64_div NaN _ = NaN"
| "f64_div _ NaN = NaN"
| "f64_div (Fin a) _ = Fin 0"
| "f64_div PInf (Fin b) = (if b < 0 then NInf else PInf)"
| "f64_div NInf (Fin b) = (if b < 0 then PInf else NInf)"
| "f64_div _ _ = NaN"

fun f64_mul :: "float64 \<Rightarrow> float64 \<Rightarrow> float64" where
  "f64_mul (Fin a) (Fin b) = f64_round (a * b)"
| "f64_mul NaN _ = NaN"
| "f64_mul _ NaN = NaN"
| "f64_mul (Fin a) PInf = (if a = 0 then NaN else if a > 0 then PInf else NInf)"
| "f64_mul (Fin a) NInf = (if a = 0 then NaN else if a > 0 then NInf else PInf)"
| "f64_mul PInf (Fin a) = (if a = 0 then NaN else if a > 0 then PInf else NInf)"
| "f64_mul NInf (Fin a) = (if a = 0 then NaN else if a > 0 then NInf else PInf)"
| "f64_mul PInf PInf = PInf"
| "f64_mul PInf NInf = NInf"
| "f64_mul NInf PInf = NInf"
| "f64_mul NInf NInf = PInf"

fun f64_less :: "float64 \<Rightarrow> float64 \<Rightarrow> bool" where
  "f64_less (Fin a) (Fin b) = (a < b)"
| "f64_less NaN _ = False"
| "f64_less _ NaN = False"
| "f64_less PInf _ = False"
| "f64_less NInf b = (b \<noteq> NInf)"
| "f64_less (Fin _) b = (b = PInf)"

definition f64_eq :: "float64 \<Rightarrow> float64 \<Rightarrow> bool" where
  "f64_eq a b \<longleftrightarrow> a = b \<and> a \<noteq> NaN"

definition f64_le :: "float64 \<Rightarrow> float64 \<Rightarrow> bool" where
  "f64_le a b \<longleftrightarrow> f64_less a b \<or> f64_eq a b"

lemma f64_less_trans: "f64_less a b \<Longrightarrow> f64_less b c \<Longrightarrow> f64_less a c"
  by (cases a; cases b; cases c) auto

lemma f64_less_irrefl [simp]: "\<not> f64_less a a"
  by (cases a) auto

text \<open>Without not-a-number the comparison is a strict weak order.\<close>

lemma f64_not_less_trans:
  "b \<noteq> NaN \<Longrightarrow> \<not> f64_less a b \<Longrightarrow> \<not> f64_less b c \<Longrightarrow> \<not> f64_less a c"
  by (cases a; cases b; cases c) auto

section \<open>Small integers are exact\<close>

lemma ilog2_bounds: "0 < n \<Longrightarrow> 2 ^ ilog2 n \<le> n \<and> n < 2 ^ Suc (ilog2 n)"
proof (induction n rule: ilog2.induct)
  case (1 n)
  show ?case
  proof (cases "n < 2")
    case True
    with 1 show ?thesis by (simp add: ilog2.simps [of n])
  next
    case False
    with 1 have "2 ^ ilog2 (n div 2) \<le> n div 2 \<and> n div 2 < 2 ^ Suc (ilog2 (n div 2))" by simp
    then have "2 * 2 ^ ilog2 (n div 2) \<le> n" "n < 2 * 2 ^ Suc (ilog2 (n div 2))" by linarith+
    with False show ?thesis by (simp add: ilog2.simps [of n])
  qed
qed

lemma round_even_int [simp]: "round_even (of_int i) = i"
  by (simp add: round_even_def)

lemma pow2_pos [simp]: "0 < pow2 e"
  by (simp add: pow2_def)

lemma pow2_int: "e \<le> 0 \<Longrightarrow> of_int i / pow2 e = (of_int (i * 2 ^ nat (- e)) :: rat)"
  by (auto simp: pow2_def)

lemma f64_of_int_exact:
  assumes "\<bar>i\<bar> < 2 ^ 53"
  shows "f64_of_int i = Fin (of_int i)"
proof (cases "i = 0")
  case True
  then show ?thesis by (simp add: f64_of_int_def f64_round_def)
next
  case False
  define e where "e = unit_exp \<bar>of_int i\<bar>"
  have "nat \<bar>i\<bar> < 2 ^ 53" using assms by (simp add: nat_less_iff)
  then have "2 ^ ilog2 (nat \<bar>i\<bar>) < (2 :: nat) ^ 53"
    using ilog2_bounds [of "nat \<bar>i\<bar>"] False by (metis le_less_trans zero_less_abs_iff zero_less_nat_eq)
  then have "ilog2 (nat \<bar>i\<bar>) < 53" by (rule power_less_imp_less_exp [rotated]) simp
  then have l: "ilog2 (nat \<bar>i\<bar>) \<le> 52" by simp
  have "ilog2 1 = 0" by (simp add: ilog2.simps)
  then have e: "e \<le> 0"
    using l by (simp add: e_def unit_exp_def Let_def quotient_of_int flip: of_int_abs)
  have v: "of_int (round_even (\<bar>of_int i\<bar> / pow2 e)) * pow2 e = \<bar>of_int i :: rat\<bar>"
  proof -
    have "\<bar>of_int i\<bar> / pow2 e = (of_int (\<bar>i\<bar> * 2 ^ nat (- e)) :: rat)"
      using pow2_int [OF e, of "\<bar>i\<bar>"] by simp
    then have "of_int (round_even (\<bar>of_int i\<bar> / pow2 e)) = \<bar>of_int i :: rat\<bar> / pow2 e"
      by (simp only: round_even_int)
    then show ?thesis by (simp add: less_imp_neq [symmetric])
  qed
  have "\<bar>of_int i :: rat\<bar> < 2 ^ 1024"
  proof -
    have "\<bar>i\<bar> < 2 ^ 1024" using assms by (rule less_trans) simp
    then show ?thesis by (metis of_int_abs of_int_less_iff of_int_numeral of_int_power)
  qed
  then have "f64_round (of_int i) = Fin (if (of_int i :: rat) > 0 then \<bar>of_int i\<bar> else - \<bar>of_int i\<bar>)"
    unfolding f64_round_def Let_def e_def [symmetric] v using False by (simp add: pow2_def [of 1024])
  then show ?thesis by (simp add: f64_of_int_def)
qed

text \<open>So is a small integer times a power of two.\<close>

lemma scaled_quotient:
  assumes "e \<le> int k"
  shows "\<exists>j. of_int (m * 2 ^ k) / pow2 e = (of_int j :: rat)"
proof (cases "0 \<le> e")
  case True
  then have "nat e \<le> k" using assms by simp
  then have "(2 :: rat) ^ k = 2 ^ (k - nat e) * 2 ^ nat e" by (simp flip: power_add)
  then have "of_int (m * 2 ^ k) / pow2 e = (of_int (m * 2 ^ (k - nat e)) :: rat)" using True by (simp add: pow2_def)
  then show ?thesis by blast
next
  case False
  then show ?thesis using pow2_int [of e "m * 2 ^ k"] by (intro exI [of _ "m * 2 ^ k * 2 ^ nat (- e)"]) simp
qed

lemma unit_exp_int: "ilog2 (nat i) < 53 + k \<Longrightarrow> unit_exp (of_int i) \<le> int k"
  by (simp add: unit_exp_def Let_def quotient_of_int ilog2.simps [of 1])

lemma f64_round_scaled:
  assumes "0 < m" and "m < 2 ^ 53" and "m * 2 ^ k < 2 ^ 1024"
  shows "f64_round (of_int (m * 2 ^ k)) = Fin (of_int (m * 2 ^ k))"
proof -
  let ?i = "m * 2 ^ k"
  define e where "e = unit_exp (of_int ?i)"
  have i: "0 < ?i" using assms(1) by simp
  have "?i < 2 ^ 53 * 2 ^ k" using assms(2) by (intro mult_strict_right_mono) simp_all
  then have "?i < int (2 ^ (53 + k))" by (simp add: power_add)
  then have "nat ?i < 2 ^ (53 + k)" using i by (metis nat_less_iff less_imp_le)
  then have "2 ^ ilog2 (nat ?i) < (2 :: nat) ^ (53 + k)" using ilog2_bounds [of "nat ?i"] i by (metis le_less_trans zero_less_nat_eq)
  then have "ilog2 (nat ?i) < 53 + k" by (rule power_less_imp_less_exp [rotated]) simp
  then have "e \<le> int k" unfolding e_def by (rule unit_exp_int)
  then obtain j where j: "of_int ?i / pow2 e = (of_int j :: rat)" using scaled_quotient [of e k m] by blast
  then have v: "of_int (round_even (of_int ?i / pow2 e)) * pow2 e = (of_int ?i :: rat)"
    using less_imp_neq [OF pow2_pos [of e], symmetric] by (simp only: j round_even_int) (simp only: j [symmetric], simp)
  have "(of_int ?i :: rat) < 2 ^ 1024"
    using assms(3) by (metis of_int_less_iff of_int_numeral of_int_power)
  moreover have "(0 :: rat) < of_int ?i" using i by (simp only: of_int_0_less_iff)
  ultimately show ?thesis
    unfolding f64_round_def Let_def abs_of_pos [OF \<open>(0 :: rat) < of_int ?i\<close>] e_def [symmetric] v
    by (simp add: pow2_def [of 1024])
qed

section \<open>No integer of 64 bits overflows\<close>

lemma f64_round_not_NaN [simp]: "f64_round q \<noteq> NaN"
  by (simp add: f64_round_def Let_def)

lemma round_even_le: "of_int (round_even q) \<le> q + 1"
proof -
  have "round_even q \<le> \<lfloor>q\<rfloor> + 1" by (simp add: round_even_def Let_def)
  then have "(of_int (round_even q) :: rat) \<le> of_int \<lfloor>q\<rfloor> + 1" by (metis of_int_1 of_int_add of_int_le_iff)
  then show ?thesis using of_int_floor_le [of q] by linarith
qed

lemma f64_of_int_Fin:
  assumes "\<bar>i\<bar> \<le> 2 ^ 63"
  shows "\<exists>q. f64_of_int i = Fin q"
proof (cases "i = 0")
  case True
  then show ?thesis by (simp add: f64_of_int_def f64_round_def)
next
  case False
  define e where "e = unit_exp \<bar>of_int i\<bar>"
  have "nat \<bar>i\<bar> < 2 ^ 64" using assms by (simp add: nat_less_iff)
  then have "2 ^ ilog2 (nat \<bar>i\<bar>) < (2 :: nat) ^ 64"
    using ilog2_bounds [of "nat \<bar>i\<bar>"] False by (metis le_less_trans zero_less_abs_iff zero_less_nat_eq)
  then have "ilog2 (nat \<bar>i\<bar>) < 64" by (rule power_less_imp_less_exp [rotated]) simp
  moreover have "ilog2 1 = 0" by (simp add: ilog2.simps)
  ultimately have e: "e \<le> 12"
    by (simp add: e_def unit_exp_def Let_def quotient_of_int flip: of_int_abs)
  have "pow2 e \<le> 2 ^ 12"
  proof (cases "0 \<le> e")
    case True
    then show ?thesis using e by (simp add: pow2_def) (rule power_increasing [of "nat e" 12 "2 :: rat", simplified], simp)
  next
    case False
    have "(1 :: rat) \<le> 2 ^ nat (- e)" by simp
    then have "1 / 2 ^ nat (- e) \<le> (1 :: rat)" by (simp add: divide_le_eq)
    also have "(1 :: rat) \<le> 2 ^ 12" by simp
    finally show ?thesis using False by (simp only: pow2_def if_False)
  qed
  moreover have "of_int (round_even (\<bar>of_int i\<bar> / pow2 e)) * pow2 e \<le> \<bar>of_int i :: rat\<bar> + pow2 e"
    using mult_right_mono [OF round_even_le [of "\<bar>of_int i\<bar> / pow2 e"] less_imp_le [OF pow2_pos [of e]]]
    by (simp add: distrib_right less_imp_neq [OF pow2_pos, symmetric])
  moreover have "\<bar>of_int i :: rat\<bar> \<le> 2 ^ 63"
    using assms by (metis of_int_abs of_int_le_iff of_int_numeral of_int_power)
  ultimately have "of_int (round_even (\<bar>of_int i\<bar> / pow2 e)) * pow2 e \<le> (2 ^ 63 + 2 ^ 12 :: rat)" by linarith
  also have "\<dots> < 2 ^ 1024" by simp
  finally show ?thesis
    using False unfolding f64_of_int_def f64_round_def Let_def e_def [symmetric]
    by (simp add: pow2_def [of 1024])
qed

section \<open>Stable sorting\<close>

fun insort_by :: "('a \<Rightarrow> 'a \<Rightarrow> bool) \<Rightarrow> 'a \<Rightarrow> 'a list \<Rightarrow> 'a list" where
  "insort_by lt x [] = [x]"
| "insort_by lt x (y # ys) = (if lt y x then y # insort_by lt x ys else x # y # ys)"

definition stable_sort :: "('a \<Rightarrow> 'a \<Rightarrow> bool) \<Rightarrow> 'a list \<Rightarrow> 'a list" where
  "stable_sort lt xs = foldr (insort_by lt) xs []"

lemma mset_insort_by [simp]: "mset (insort_by lt x xs) = add_mset x (mset xs)"
  by (induction xs) auto

lemma mset_stable_sort [simp]: "mset (stable_sort lt xs) = mset xs"
  by (induction xs) (simp_all add: stable_sort_def)

lemma set_stable_sort [simp]: "set (stable_sort lt xs) = set xs"
  by (metis mset_stable_sort set_mset_mset)

lemma sorted_insort_by:
  assumes "\<And>a b. lt a b \<Longrightarrow> \<not> lt b a"
    and "\<And>a b c. a \<in> S \<Longrightarrow> b \<in> S \<Longrightarrow> c \<in> S \<Longrightarrow> \<not> lt a b \<Longrightarrow> \<not> lt b c \<Longrightarrow> \<not> lt a c"
    and "x \<in> S" and "set xs \<subseteq> S" and "sorted_wrt (\<lambda>a b. \<not> lt b a) xs"
  shows "sorted_wrt (\<lambda>a b. \<not> lt b a) (insort_by lt x xs)"
  using assms(4,5)
proof (induction xs)
  case (Cons y ys)
  have "set (insort_by lt x ys) = insert x (set ys)"
    using mset_insort_by [of lt x ys] by (metis set_mset_add_mset_insert set_mset_mset)
  then show ?case
    using Cons assms(1) [of y x] assms(2) [of _ y x] assms(3) by auto
qed simp

lemma sorted_stable_sort:
  assumes "\<And>a b. lt a b \<Longrightarrow> \<not> lt b a"
    and "\<And>a b c. a \<in> set xs \<Longrightarrow> b \<in> set xs \<Longrightarrow> c \<in> set xs \<Longrightarrow> \<not> lt a b \<Longrightarrow> \<not> lt b c \<Longrightarrow> \<not> lt a c"
  shows "sorted_wrt (\<lambda>a b. \<not> lt b a) (stable_sort lt xs)"
proof -
  have "sorted_wrt (\<lambda>a b. \<not> lt b a) (foldr (insort_by lt) ys [])" if "set ys \<subseteq> set xs" for ys
    using that
  proof (induction ys)
    case (Cons y ys)
    have "set (foldr (insort_by lt) ys []) = set ys"
      using set_stable_sort [of lt ys] by (simp add: stable_sort_def)
    with Cons show ?case
      unfolding foldr.simps o_apply
      by (intro sorted_insort_by [where S = "set xs" and lt = lt, OF assms]) simp_all
  qed simp
  then show ?thesis by (simp add: stable_sort_def)
qed

end
