(* ===== verification/Scheduler.thy ===== *)
theory Scheduler
  imports StateTypes GoFloat GoText
begin

text \<open>
  The scheduler, \<^verbatim>\<open>internal/scheduler/scheduler.go\<close>: filtering and scoring of nodes, the placement loop
  of Plan, and Reconcile, which stores the placements. The loop is shown to be equal to a closed form:
  the slots of the nodes in score order, cut off at the number of replicas.
\<close>

section \<open>Data\<close>

record Placement =
  pc_NodeID :: string
  pc_ReplicaIdx :: int
  pc_Reason :: string

record Decision =
  d_WorkloadID :: string
  d_Placements :: "Placement list"
  d_Unscheduled :: string

section \<open>Filter\<close>

definition matchSelector :: "(string, string) gomap \<Rightarrow> (string, string) gomap \<Rightarrow> bool" where
  "matchSelector sel labels =
     list_all (\<lambda>(k, v). (case mget labels k of Some l \<Rightarrow> l | None \<Rightarrow> []) = v) sel"

definition hasToleration :: "string list \<Rightarrow> Taint \<Rightarrow> bool" where
  "hasToleration tol t =
     list_ex (\<lambda>t2. case SplitN2 t2 (CHR ''='') of
                     [k, v] \<Rightarrow> k = ta_Key t \<and> (v = ''*'' \<or> v = ta_Value t)
                   | _ \<Rightarrow> False) tol"

definition tolerates :: "string list \<Rightarrow> Taint list \<Rightarrow> bool" where
  "tolerates tol taints =
     list_all (\<lambda>t. \<not> (ta_Effect t = ''NoSchedule'' \<and> \<not> hasToleration tol t)) taints"

definition fits :: "Workload \<Rightarrow> Node \<Rightarrow> bool" where
  "fits w n \<longleftrightarrow>
     \<not> (n_Unschedulable n \<or> n_Drain n \<or> n_Cordoned n) \<and> n_Status n = ''Ready''
     \<and> \<not> i64 (n_CPUAllocatable n - n_CPUAllocated n) < w_CPUMillicores w
     \<and> \<not> i64 (n_MemAllocatable n - n_MemAllocated n) < w_MemoryBytes w
     \<and> \<not> n_GPUs n < w_GPUs w
     \<and> matchSelector (w_NodeSelector w) (n_Labels n)
     \<and> tolerates (w_Tolerations w) (n_Taints n)"

definition filter_nodes :: "Node list \<Rightarrow> Workload \<Rightarrow> Node list" where
  "filter_nodes nodes w = filter (fits w) nodes"

section \<open>Score\<close>

definition node_score :: "Node \<Rightarrow> float64" where
  "node_score n =
     (let freeCPU = f64_of_int (i64 (n_CPUAllocatable n - n_CPUAllocated n));
          freeMem = f64_of_int (i64 (n_MemAllocatable n - n_MemAllocated n));
          total = f64_of_int (i64 (n_CPUAllocatable n + n_MemAllocatable n));
          avail = f64_add freeCPU freeMem
      in if f64_eq total (Fin 0) then Fin 0 else f64_div avail total)"

definition score :: "Node list \<Rightarrow> Workload \<Rightarrow> Node list" where
  "score nodes w =
     map fst (stable_sort (\<lambda>x y. f64_less (snd y) (snd x)) (map (\<lambda>n. (n, node_score n)) nodes))"

section \<open>Plan\<close>

definition maxPerNode :: "Workload \<Rightarrow> Node \<Rightarrow> int" where
  "maxPerNode w n =
     (if list_ex (\<lambda>a. Contains a (w_Name w)) (w_AntiAffinity w) then 1
      else
        let free = i64 (n_CPUAllocatable n - n_CPUAllocated n)
        in if w_CPUMillicores w = 0 then 4
           else
             let c = quot64 free (w_CPUMillicores w)
             in if c > 4 then 4 else if c \<le> 0 then 0 else i32 c)"

definition placed :: "(string, int) gomap \<Rightarrow> Node \<Rightarrow> int" where
  "placed per n = (case mget per (n_ID n) of Some c \<Rightarrow> c | None \<Rightarrow> 0)"

text \<open>The first node in score order that is not full.\<close>

definition choose_node :: "Workload \<Rightarrow> (string, int) gomap \<Rightarrow> Node list \<Rightarrow> Node option" where
  "choose_node w per scored = find (\<lambda>n. \<not> placed per n \<ge> maxPerNode w n) scored"

text \<open>The loop over the replicas; its third argument counts those still to place.\<close>

fun plan_loop :: "Workload \<Rightarrow> Node list \<Rightarrow> nat \<Rightarrow> int \<Rightarrow> (string, int) gomap \<Rightarrow> Placement list \<Rightarrow> Decision" where
  "plan_loop w scored 0 i per ps = \<lparr>d_WorkloadID = w_ID w, d_Placements = ps, d_Unscheduled = []\<rparr>"
| "plan_loop w scored (Suc k) i per ps =
     (case choose_node w per scored of
        None \<Rightarrow> \<lparr>d_WorkloadID = w_ID w, d_Placements = ps,
                 d_Unscheduled = ''not enough capacity for all replicas''\<rparr>
      | Some n \<Rightarrow>
          plan_loop w scored k (i + 1) (mput (n_ID n) (i32 (placed per n + 1)) per)
            (ps @ [\<lparr>pc_NodeID = n_ID n, pc_ReplicaIdx = i, pc_Reason = []\<rparr>]))"

definition Plan :: "'s ClusterStore \<Rightarrow> Workload \<Rightarrow> 's \<Rightarrow> Decision outcome" where
  "Plan S w s =
     (case cs_ListNodes S s of
        Err e \<Rightarrow> Err e
      | Panic m \<Rightarrow> Panic m
      | Ok nodes \<Rightarrow>
          let filtered = filter_nodes nodes w
          in if filtered = [] then
               Ok \<lparr>d_WorkloadID = w_ID w, d_Placements = [], d_Unscheduled = ''no node satisfies filters''\<rparr>
             else if w_Replicas w < 0 then Panic ''makeslice: cap out of range''
             else Ok (plan_loop w (score filtered w) (nat (w_Replicas w)) 0 [] []))"

section \<open>Reconcile\<close>

definition reconcile_placement :: "Workload \<Rightarrow> Placement \<Rightarrow> StatePlacement" where
  "reconcile_placement w p =
     \<lparr>pl_ID = w_ID w @ ''-'' @ FormatInt (pc_ReplicaIdx p),
      pl_Name = w_Name w @ ''-'' @ FormatInt (pc_ReplicaIdx p),
      pl_ProjectID = w_ProjectID w, pl_WorkloadID = w_ID w, pl_NodeID = pc_NodeID p,
      pl_ReplicaIdx = pc_ReplicaIdx p, pl_Status = ''Pending''\<rparr>"

definition Reconcile :: "'s ClusterStore \<Rightarrow> Workload \<Rightarrow> 's \<Rightarrow> unit outcome \<times> 's" where
  "Reconcile S w s =
     (case Plan S w s of
        Err e \<Rightarrow> (Err e, s)
      | Panic m \<Rightarrow> (Panic m, s)
      | Ok d \<Rightarrow> cs_SetPlacements S (w_ID w) (map (reconcile_placement w) (d_Placements d)) s)"

definition ValidateWorkload :: "Workload \<Rightarrow> unit outcome" where
  "ValidateWorkload w =
     (if w_ID w = [] then Err (ErrorString ''scheduler: workload id required'')
      else if w_CPUMillicores w < 0 \<or> w_MemoryBytes w < 0
      then Err (ErrorString ''scheduler: negative resources'')
      else if w_Replicas w < 0 then Err (ErrorString ''scheduler: negative replicas'')
      else Ok ())"

section \<open>The slots of the nodes\<close>

text \<open>A node offers as many slots as replicas of the workload may run on it.\<close>

definition slots :: "Workload \<Rightarrow> Node list \<Rightarrow> string list" where
  "slots w ns = concat (map (\<lambda>n. replicate (nat (maxPerNode w n)) (n_ID n)) ns)"

definition free_slots :: "Workload \<Rightarrow> (string, int) gomap \<Rightarrow> Node list \<Rightarrow> string list" where
  "free_slots w per ns = concat (map (\<lambda>n. replicate (nat (maxPerNode w n - placed per n)) (n_ID n)) ns)"

lemma maxPerNode_bounds: "0 \<le> maxPerNode w n" "maxPerNode w n \<le> 4"
proof -
  have "i32 c = c" if "0 < c" "c \<le> 4" for c using that by (intro i32_small) auto
  then show "0 \<le> maxPerNode w n" "maxPerNode w n \<le> 4"
    by (auto simp: maxPerNode_def Let_def)
qed

lemma placed_mput:
  "placed (mput k c per) n = (if n_ID n = k then c else placed per n)"
  by (simp add: placed_def)

lemma free_slots_other:
  "k \<notin> n_ID ` set ns \<Longrightarrow> free_slots w (mput k c per) ns = free_slots w per ns"
  by (induction ns) (auto simp: free_slots_def placed_mput)

lemma choose_none: "choose_node w per ns = None \<longleftrightarrow> free_slots w per ns = []"
  by (auto simp: choose_node_def find_None_iff free_slots_def)

lemma choose_some:
  assumes "choose_node w per ns = Some n" and "distinct (map n_ID ns)"
  shows "n \<in> set ns \<and> placed per n < maxPerNode w n
    \<and> free_slots w per ns = n_ID n # free_slots w (mput (n_ID n) (placed per n + 1) per) ns"
  using assms
proof (induction ns)
  case (Cons m ns)
  show ?case
  proof (cases "placed per m \<ge> maxPerNode w m")
    case True
    with Cons.prems have c: "choose_node w per ns = Some n" "distinct (map n_ID ns)"
      by (simp_all add: choose_node_def)
    from Cons.IH [OF c] Cons.prems(2) True show ?thesis
      by (auto simp: free_slots_def placed_mput)
  next
    case False
    with Cons.prems have n: "n = m" by (simp add: choose_node_def)
    have "nat (maxPerNode w m - placed per m) = Suc (nat (maxPerNode w m - (placed per m + 1)))"
      using False by simp
    then show ?thesis
      using False Cons.prems(2) free_slots_other [of "n_ID m" ns w "placed per m + 1" per]
      by (simp add: n free_slots_def placed_mput)
  qed
qed (simp add: choose_node_def)

lemma plan_loop_slots:
  assumes "distinct (map n_ID ns)" and "\<And>n. n \<in> set ns \<Longrightarrow> 0 \<le> placed per n"
  shows "map pc_NodeID (d_Placements (plan_loop w ns k i per ps)) =
      map pc_NodeID ps @ take k (free_slots w per ns)
    \<and> map pc_ReplicaIdx (d_Placements (plan_loop w ns k i per ps)) =
      map pc_ReplicaIdx ps @ map (\<lambda>j. i + int j) [0..<min k (length (free_slots w per ns))]
    \<and> d_Unscheduled (plan_loop w ns k i per ps) =
      (if k \<le> length (free_slots w per ns) then [] else ''not enough capacity for all replicas'')
    \<and> d_WorkloadID (plan_loop w ns k i per ps) = w_ID w"
  using assms(2)
proof (induction k arbitrary: i per ps)
  case 0
  then show ?case by simp
next
  case (Suc k)
  show ?case
  proof (cases "choose_node w per ns")
    case None
    then have "free_slots w per ns = []" by (simp add: choose_none)
    with None show ?thesis by simp
  next
    case (Some n)
    let ?per = "mput (n_ID n) (placed per n + 1) per"
    note n = choose_some [OF Some assms(1)]
    have "i32 (placed per n + 1) = placed per n + 1"
      using n Suc.prems [of n] maxPerNode_bounds(2) [of w n] by (intro i32_small) auto
    moreover have "0 \<le> placed ?per m" if "m \<in> set ns" for m
      using n Suc.prems that by (simp add: placed_mput)
    note Suc.IH [OF this, of "i + 1" "ps @ [\<lparr>pc_NodeID = n_ID n, pc_ReplicaIdx = i, pc_Reason = []\<rparr>]"]
    moreover have "map (\<lambda>j. i + int j) [0..<Suc m] = i # map (\<lambda>j. i + 1 + int j) [0..<m]" for m
      by (simp add: upt_conv_Cons map_Suc_upt [symmetric] del: upt_Suc)
    ultimately show ?thesis using n Some by simp
  qed
qed

section \<open>Score order\<close>

lemma abs_i64: "\<bar>i64 x\<bar> \<le> 2 ^ 63"
  using is_i64_i64 [of x] by (auto simp: is_i64_def abs_le_iff)

lemma node_score_not_NaN: "node_score n \<noteq> NaN"
proof -
  obtain a b t where "f64_of_int (i64 (n_CPUAllocatable n - n_CPUAllocated n)) = Fin a"
      "f64_of_int (i64 (n_MemAllocatable n - n_MemAllocated n)) = Fin b"
      "f64_of_int (i64 (n_CPUAllocatable n + n_MemAllocatable n)) = Fin t"
    using f64_of_int_Fin [OF abs_i64] by metis
  then show ?thesis
    by (cases "f64_round (a + b)") (auto simp: node_score_def Let_def f64_eq_def)
qed

lemma mset_score: "mset (score nodes w) = mset nodes"
proof -
  have "mset (score nodes w) = image_mset fst (mset (map (\<lambda>n. (n, node_score n)) nodes))"
    by (simp add: score_def)
  also have "\<dots> = mset nodes" by (induction nodes) simp_all
  finally show ?thesis .
qed

lemma set_score [simp]: "set (score nodes w) = set nodes"
  by (metis mset_score set_mset_mset)

lemma distinct_ids_score: "distinct (map n_ID nodes) \<Longrightarrow> distinct (map n_ID (score nodes w))"
  by (metis mset_score mset_eq_imp_distinct_iff mset_map)

lemma sorted_score:
  "sorted_wrt (\<lambda>a b. \<not> f64_less (node_score a) (node_score b)) (score nodes w)"
proof -
  let ?xs = "map (\<lambda>n. (n, node_score n)) nodes"
  let ?lt = "\<lambda>x y. f64_less (snd y) (snd x)"
  have "sorted_wrt (\<lambda>x y. \<not> ?lt y x) (stable_sort ?lt ?xs)"
  proof (rule sorted_stable_sort)
    show "\<not> ?lt b a" if "?lt a b" for a b :: "Node \<times> float64"
      using that f64_less_trans f64_less_irrefl by blast
    show "\<not> ?lt a c" if "a \<in> set ?xs" "b \<in> set ?xs" "c \<in> set ?xs" "\<not> ?lt a b" "\<not> ?lt b c" for a b c
    proof -
      have "snd b \<noteq> NaN" using that(2) node_score_not_NaN by auto
      from f64_not_less_trans [OF this that(5,4)] show ?thesis .
    qed
  qed
  then have "sorted_wrt (\<lambda>x y. \<not> f64_less (node_score (fst x)) (node_score (fst y))) (stable_sort ?lt ?xs)"
  proof (rule sorted_wrt_mono_rel [rotated])
    fix x y assume "x \<in> set (stable_sort ?lt ?xs)" "y \<in> set (stable_sort ?lt ?xs)" "\<not> ?lt y x"
    then show "\<not> f64_less (node_score (fst x)) (node_score (fst y))"
      unfolding set_stable_sort by auto
  qed
  then show ?thesis by (simp add: score_def sorted_wrt_map)
qed

text \<open>
  Scoring reorders the filtered nodes without dropping or repeating any, and orders them
  by the free share of their resources: no node stands before one with a greater score.
\<close>

theorem score_orders_nodes:
  "mset (score nodes w) = mset nodes
    \<and> sorted_wrt (\<lambda>a b. \<not> f64_less (node_score a) (node_score b)) (score nodes w)"
  by (simp add: mset_score sorted_score)

section \<open>What Plan returns\<close>

lemma slots_free: "slots w ns = free_slots w [] ns"
  by (simp add: slots_def free_slots_def placed_def mget_def)

lemma distinct_ids_filter: "distinct (map n_ID nodes) \<Longrightarrow> distinct (map n_ID (filter_nodes nodes w))"
  by (simp add: filter_nodes_def distinct_map_filter)

lemma plan_takes_slots:
  assumes "cs_ListNodes S s = Ok nodes" and "distinct (map n_ID nodes)" and "0 \<le> w_Replicas w"
  shows "\<exists>d. Plan S w s = Ok d \<and> d_WorkloadID d = w_ID w
    \<and> map pc_NodeID (d_Placements d) =
        take (nat (w_Replicas w)) (slots w (score (filter_nodes nodes w) w))
    \<and> map pc_ReplicaIdx (d_Placements d) = map int [0..<length (d_Placements d)]
    \<and> (filter_nodes nodes w \<noteq> [] \<longrightarrow>
        (d_Unscheduled d = [] \<longleftrightarrow> nat (w_Replicas w) \<le> length (slots w (score (filter_nodes nodes w) w))))"
proof (cases "filter_nodes nodes w = []")
  case True
  have "score [] w = []" by (simp add: score_def stable_sort_def)
  with True assms(1) show ?thesis by (simp add: Plan_def slots_def)
next
  case False
  let ?ns = "score (filter_nodes nodes w) w"
  define d where "d = plan_loop w ?ns (nat (w_Replicas w)) 0 [] []"
  have "distinct (map n_ID ?ns)" by (intro distinct_ids_score distinct_ids_filter assms(2))
  from plan_loop_slots [OF this, of "[]" w "nat (w_Replicas w)" 0 "[]"]
  have d: "map pc_NodeID (d_Placements d) = take (nat (w_Replicas w)) (slots w ?ns)"
      "map pc_ReplicaIdx (d_Placements d) = map int [0..<min (nat (w_Replicas w)) (length (slots w ?ns))]"
      "d_Unscheduled d = (if nat (w_Replicas w) \<le> length (slots w ?ns) then []
        else ''not enough capacity for all replicas'')" "d_WorkloadID d = w_ID w"
    by (simp_all add: d_def slots_free placed_def mget_def)
  have "length (d_Placements d) = min (nat (w_Replicas w)) (length (slots w ?ns))"
    using arg_cong [OF d(1), of length] by simp
  with d have "map pc_ReplicaIdx (d_Placements d) = map int [0..<length (d_Placements d)]" by simp
  moreover have "Plan S w s = Ok d" using False assms(1,3) by (simp add: Plan_def d_def Let_def)
  ultimately show ?thesis using d by auto
qed

text \<open>
  Property C12. The placement loop computes the closed form: the slots of the nodes that pass the
  filter, in score order, as many as there are replicas, numbered from 0; the plan is complete exactly
  when the slots suffice.
\<close>

theorem plan_takes_slots_in_order:
  assumes "cs_ListNodes S s = Ok nodes" and "distinct (map n_ID nodes)" and "0 \<le> w_Replicas w"
  shows "\<exists>d. Plan S w s = Ok d \<and> d_WorkloadID d = w_ID w
    \<and> map pc_NodeID (d_Placements d) =
        take (nat (w_Replicas w)) (slots w (score (filter_nodes nodes w) w))
    \<and> map pc_ReplicaIdx (d_Placements d) = map int [0..<length (d_Placements d)]
    \<and> (filter_nodes nodes w \<noteq> [] \<longrightarrow>
        (d_Unscheduled d = [] \<longleftrightarrow> nat (w_Replicas w) \<le> length (slots w (score (filter_nodes nodes w) w))))"
  by (rule plan_takes_slots [OF assms])

definition demo_store :: "Node list \<Rightarrow> unit ClusterStore" where
  "demo_store nodes =
     \<lparr>cs_ListProjects = (\<lambda>_. Ok []), cs_ListWorkloads = (\<lambda>_ _. Ok []),
      cs_GetWorkload = (\<lambda>_ _ _. Err (ErrorString ''not found'')), cs_UpdateWorkload = (\<lambda>_ s. (Ok (), s)),
      cs_SetPlacements = (\<lambda>_ _ s. (Ok (), s)), cs_GetPlacements = (\<lambda>_ _. Ok []),
      cs_ListNodes = (\<lambda>_. Ok nodes), cs_GetNode = (\<lambda>_ _. Err (ErrorString ''not found'')),
      cs_UpsertNode = (\<lambda>_ s. (Ok (), s)), cs_ListServices = (\<lambda>_ _. Ok []),
      cs_ListDNS = (\<lambda>_ _. Ok []), cs_PutDNS = (\<lambda>_ s. (Ok (), s))\<rparr>"

definition demo_node :: "string \<Rightarrow> int \<Rightarrow> int \<Rightarrow> Node" where
  "demo_node i cpu mem =
     \<lparr>n_ID = i, n_Name = i, n_Address = [], n_Status = ''Ready'', n_Unschedulable = False, n_Drain = False,
      n_Cordoned = False, n_CPUAllocatable = cpu, n_CPUAllocated = 0, n_MemAllocatable = mem,
      n_MemAllocated = 0, n_GPUs = 0, n_Labels = [], n_Taints = [], n_LastHeartbeat = 0\<rparr>"

definition demo_workload :: "int \<Rightarrow> int \<Rightarrow> int \<Rightarrow> string list \<Rightarrow> Workload" where
  "demo_workload replicas cpu mem anti =
     \<lparr>w_ID = ''web'', w_Name = ''web'', w_ProjectID = ''p'', w_Replicas = replicas, w_CPUMillicores = cpu,
      w_MemoryBytes = mem, w_GPUs = 0, w_NodeSelector = [], w_Tolerations = [], w_AntiAffinity = anti,
      w_Status = \<lparr>ws_Available = False, ws_Message = [], ws_ReadyReplicas = 0, ws_DesiredReplicas = 0\<rparr>\<rparr>"

lemmas demo_defs = demo_store_def demo_node_def demo_workload_def

lemma score_single [simp]: "score [n] w = [n]"
  by (simp add: score_def stable_sort_def)

lemma demo_fits: "fits (demo_workload r 1000 512 anti) (demo_node i 3500 1024)"
  by (simp add: fits_def demo_defs i64_def matchSelector_def tolerates_def)

lemma demo_max: "maxPerNode (demo_workload r 1000 512 []) (demo_node i 3500 1024) = 3"
  by (simp add: maxPerNode_def demo_defs i64_def quot64_def i32_def)

theorem plan_takes_slots_in_order_witness:
  "\<exists>d. Plan (demo_store [demo_node ''n1'' 3500 1024]) (demo_workload 2 1000 512 []) () = Ok d
    \<and> map pc_NodeID (d_Placements d) = [''n1'', ''n1''] \<and> d_Unscheduled d = []"
proof -
  let ?n = "demo_node ''n1'' 3500 1024" and ?w = "demo_workload 2 1000 512 []"
  have "cs_ListNodes (demo_store [?n]) () = Ok [?n]" "w_Replicas ?w = 2" by (simp_all add: demo_defs)
  moreover have "slots ?w (score (filter_nodes [?n] ?w) ?w) = [''n1'', ''n1'', ''n1'']"
    by (simp add: filter_nodes_def demo_fits slots_def demo_max)
      (simp add: demo_node_def numeral_3_eq_3)
  ultimately show ?thesis
    using plan_takes_slots_in_order [of "demo_store [?n]" "()" "[?n]" ?w]
    by (auto simp: filter_nodes_def demo_fits numeral_2_eq_2)
qed

lemma count_slots:
  assumes "distinct (map n_ID ns)" and "n \<in> set ns"
  shows "count_list (slots w ns) (n_ID n) = nat (maxPerNode w n)"
  using assms
proof (induction ns)
  case (Cons m ns)
  have r: "count_list (replicate k x) y = (if x = y then k else 0)" for k and x y :: string
    by (induction k) auto
  have z: "count_list (slots w ns) (n_ID m) = 0" using Cons.prems(1)
    by (intro count_notin) (auto simp: slots_def)
  show ?case
  proof (cases "n = m")
    case True
    with z r show ?thesis by (simp add: slots_def)
  next
    case False
    with Cons r show ?thesis by (auto simp: slots_def)
  qed
qed simp

lemma count_take: "count_list (take k xs) x \<le> count_list xs x"
  by (metis append_take_drop_id count_list_append le_add1)

text \<open>
  Property C13. Every replica is placed on a node that passes the filter, and no node gets more replicas
  than its limit; with an anti-affinity rule that names the workload, no node gets two.
\<close>

theorem plan_respects_limits:
  assumes "cs_ListNodes S s = Ok nodes" and "distinct (map n_ID nodes)" and "Plan S w s = Ok d"
    and "0 \<le> w_Replicas w"
  shows "(\<forall>p \<in> set (d_Placements d). \<exists>n \<in> set nodes. fits w n \<and> pc_NodeID p = n_ID n)
    \<and> (\<forall>n \<in> set nodes. int (count_list (map pc_NodeID (d_Placements d)) (n_ID n)) \<le> maxPerNode w n)
    \<and> (list_ex (\<lambda>a. Contains a (w_Name w)) (w_AntiAffinity w) \<longrightarrow> distinct (map pc_NodeID (d_Placements d)))"
proof -
  let ?ns = "score (filter_nodes nodes w) w"
  have d: "map pc_NodeID (d_Placements d) = take (nat (w_Replicas w)) (slots w ?ns)"
    using plan_takes_slots [OF assms(1,2,4)] assms(3) by auto
  have ids: "distinct (map n_ID ?ns)" by (intro distinct_ids_score distinct_ids_filter assms(2))
  have set: "set ?ns = {n \<in> set nodes. fits w n}" by (simp add: filter_nodes_def)
  have c: "count_list (slots w ?ns) (n_ID n) \<le> nat (maxPerNode w n)" if n: "n \<in> set nodes" for n
  proof (cases "n \<in> set ?ns")
    case True
    then show ?thesis using count_slots [OF ids] by simp
  next
    case False
    have "n_ID n \<notin> set (slots w ?ns)"
      using False n assms(2) set by (auto simp: slots_def distinct_map inj_on_def)
    then show ?thesis by (simp add: count_notin)
  qed
  have in_slots: "\<exists>n \<in> set nodes. fits w n \<and> x = n_ID n" if "x \<in> set (slots w ?ns)" for x
    using that set by (auto simp: slots_def)
  have "\<forall>p \<in> set (d_Placements d). \<exists>n \<in> set nodes. fits w n \<and> pc_NodeID p = n_ID n"
    using in_slots d by (metis in_set_takeD image_eqI list.set_map)
  moreover have "int (count_list (map pc_NodeID (d_Placements d)) (n_ID n)) \<le> maxPerNode w n"
    if "n \<in> set nodes" for n
    using c [OF that] count_take [of "nat (w_Replicas w)" "slots w ?ns" "n_ID n"] maxPerNode_bounds(1) [of w n]
    unfolding d by linarith
  moreover have "distinct (map pc_NodeID (d_Placements d))"
    if "list_ex (\<lambda>a. Contains a (w_Name w)) (w_AntiAffinity w)"
  proof -
    have "slots w ?ns = map n_ID ?ns" using that by (simp add: slots_def maxPerNode_def concat_map_singleton)
    then show ?thesis using ids unfolding d by simp
  qed
  ultimately show ?thesis by blast
qed

lemma demo_antiaffine: "list_ex (\<lambda>a. Contains a (w_Name (demo_workload r c m [''web'']))) [''web'']"
  by (simp add: demo_workload_def HasPrefix_def)

theorem plan_respects_limits_witness:
  "\<exists>d. Plan (demo_store [demo_node ''n1'' 3500 1024]) (demo_workload 2 1000 512 [''web'']) () = Ok d
    \<and> (\<forall>p \<in> set (d_Placements d). pc_NodeID p = ''n1'') \<and> distinct (map pc_NodeID (d_Placements d))"
proof -
  let ?n = "demo_node ''n1'' 3500 1024" and ?w = "demo_workload 2 1000 512 [''web'']"
  have l: "cs_ListNodes (demo_store [?n]) () = Ok [?n]" "0 \<le> w_Replicas ?w"
      "w_AntiAffinity ?w = [''web'']" "n_ID ?n = ''n1''"
    by (simp_all add: demo_defs)
  obtain d where d: "Plan (demo_store [?n]) ?w () = Ok d"
    using l by (simp add: Plan_def filter_nodes_def demo_fits)
  have "distinct (map n_ID [?n])" by simp
  from plan_respects_limits [OF l(1) this d l(2)] d show ?thesis
    using demo_antiaffine [of 2 1000 512] by (auto simp: l(3,4))
qed

text \<open>
  The limit of a node counts its free CPU only: two replicas are placed on a node whose free
  memory holds one of them.
\<close>

theorem plan_overcommits_memory:
  assumes "cs_ListNodes S s = Ok [n]" and "fits w n" and "w_Replicas w = 2" and "2 \<le> maxPerNode w n"
    and "i64 (n_MemAllocatable n - n_MemAllocated n) < 2 * w_MemoryBytes w"
  shows "\<exists>d. Plan S w s = Ok d \<and> map pc_NodeID (d_Placements d) = [n_ID n, n_ID n] \<and> d_Unscheduled d = []
    \<and> i64 (n_MemAllocatable n - n_MemAllocated n)
        < int (count_list (map pc_NodeID (d_Placements d)) (n_ID n)) * w_MemoryBytes w"
proof -
  obtain k where k: "nat (maxPerNode w n) = Suc (Suc k)"
    using assms(4) by (metis Suc_nat_eq_nat_zadd1 add_2_eq_Suc le_add_diff_inverse nat_le_iff nat_numeral nat_mono)
  then have "slots w [n] = n_ID n # n_ID n # replicate k (n_ID n)" by (simp add: slots_def)
  moreover have "filter_nodes [n] w = [n]" using assms(2) by (simp add: filter_nodes_def)
  ultimately obtain d where "Plan S w s = Ok d" "map pc_NodeID (d_Placements d) = [n_ID n, n_ID n]"
      "d_Unscheduled d = []"
    using plan_takes_slots [OF assms(1), of w] assms(3) by (auto simp: numeral_2_eq_2)
  then show ?thesis using assms(5) by simp
qed

theorem plan_overcommits_memory_witness:
  "\<exists>d. Plan (demo_store [demo_node ''n1'' 3500 1024]) (demo_workload 2 1000 600 []) () = Ok d
    \<and> map pc_NodeID (d_Placements d) = [''n1'', ''n1''] \<and> d_Unscheduled d = []"
proof -
  let ?n = "demo_node ''n1'' 3500 1024" and ?w = "demo_workload 2 1000 600 []"
  have "fits ?w ?n" "cs_ListNodes (demo_store [?n]) () = Ok [?n]" "2 \<le> maxPerNode ?w ?n"
    by (simp_all add: fits_def demo_defs i64_def matchSelector_def tolerates_def maxPerNode_def quot64_def
        i32_def)
  from plan_overcommits_memory [OF this(2,1) _ this(3)] show ?thesis
    by (auto simp: demo_defs i64_def)
qed

end
