(* ===== verification/Controller.thy ===== *)
theory Controller
  imports Scheduler
begin

text \<open>
  The controller, \<^verbatim>\<open>internal/controller/controller.go\<close>: one reconcile pass over the workloads of all
  projects. The state store and the notifier (the connection to the node agents) are not part of this
  package; they are a record of operations and an optional function over a common state. What the
  proofs need of them is \<^verbatim>\<open>placement_store\<close>: the store returns the placements that were last set for
  a workload, and neither notifying agents nor updating a workload changes placements or nodes.
\<close>

section \<open>Operations\<close>

type_synonym 's Notifier = "Workload \<Rightarrow> StatePlacement \<Rightarrow> 's \<Rightarrow> unit outcome \<times> 's"

definition controller_placement :: "Workload \<Rightarrow> Placement \<Rightarrow> StatePlacement" where
  "controller_placement w p =
     \<lparr>pl_ID = w_ID w @ ''-'' @ pc_NodeID p, pl_Name = w_Name w @ ''-'' @ pc_NodeID p,
      pl_ProjectID = w_ProjectID w, pl_WorkloadID = w_ID w, pl_NodeID = pc_NodeID p,
      pl_ReplicaIdx = pc_ReplicaIdx p, pl_Status = ''Pending''\<rparr>"

fun notify_all :: "'s Notifier option \<Rightarrow> Workload \<Rightarrow> StatePlacement list \<Rightarrow> nat \<Rightarrow> 's \<Rightarrow> nat \<times> 's" where
  "notify_all N w [] ready s = (ready, s)"
| "notify_all N w (p # ps) ready s =
     (case N of
        None \<Rightarrow> notify_all N w ps ready s
      | Some apply_workload \<Rightarrow>
          (case apply_workload w p s of
             (r, s1) \<Rightarrow> notify_all N w ps (if is_ok r then Suc ready else ready) s1))"

definition update_unscheduled :: "Workload \<Rightarrow> Decision \<Rightarrow> Workload" where
  "update_unscheduled w d =
     w\<lparr>w_Status := (w_Status w)\<lparr>ws_Available := False, ws_Message := d_Unscheduled d\<rparr>\<rparr>"

definition update_ready :: "Workload \<Rightarrow> nat \<Rightarrow> Workload" where
  "update_ready w ready =
     w\<lparr>w_Status := (w_Status w)\<lparr>ws_ReadyReplicas := i32 (int ready), ws_DesiredReplicas := w_Replicas w,
        ws_Available := (i32 (int ready) \<ge> w_Replicas w)\<rparr>\<rparr>"

definition reconcileWorkload ::
    "'s ClusterStore \<Rightarrow> 's Notifier option \<Rightarrow> Workload \<Rightarrow> 's \<Rightarrow> unit outcome \<times> 's" where
  "reconcileWorkload S N w s =
     (case Plan S w s of
        Err e \<Rightarrow> (Err e, s)
      | Panic m \<Rightarrow> (Panic m, s)
      | Ok d \<Rightarrow>
          if d_Unscheduled d \<noteq> [] \<and> d_Placements d = [] then
            (Ok (), snd (cs_UpdateWorkload S (update_unscheduled w d) s))
          else
            let placements = map (controller_placement w) (d_Placements d) in
            (case cs_SetPlacements S (w_ID w) placements s of
               (Err e, s1) \<Rightarrow> (Err e, s1)
             | (Panic m, s1) \<Rightarrow> (Panic m, s1)
             | (Ok _, s1) \<Rightarrow>
                 (case notify_all N w placements 0 s1 of
                    (ready, s2) \<Rightarrow> cs_UpdateWorkload S (update_ready w ready) s2)))"

fun reconcile_list :: "'s ClusterStore \<Rightarrow> 's Notifier option \<Rightarrow> Workload list \<Rightarrow> 's \<Rightarrow> 's" where
  "reconcile_list S N [] s = s"
| "reconcile_list S N (w # ws) s = reconcile_list S N ws (snd (reconcileWorkload S N w s))"

fun reconcile_projects :: "'s ClusterStore \<Rightarrow> 's Notifier option \<Rightarrow> Project list \<Rightarrow> 's \<Rightarrow> 's" where
  "reconcile_projects S N [] s = s"
| "reconcile_projects S N (p # ps) s =
     (case cs_ListWorkloads S (p_ID p) s of
        Ok ws \<Rightarrow> reconcile_projects S N ps (reconcile_list S N ws s)
      | _ \<Rightarrow> reconcile_projects S N ps s)"

definition reconcileAll :: "'s ClusterStore \<Rightarrow> 's Notifier option \<Rightarrow> 's \<Rightarrow> unit outcome \<times> 's" where
  "reconcileAll S N s =
     (case cs_ListProjects S s of
        Ok ps \<Rightarrow> (Ok (), reconcile_projects S N ps s)
      | Err e \<Rightarrow> (Err e, s)
      | Panic m \<Rightarrow> (Panic m, s))"

text \<open>
  One wake-up of Run's ticker: the pass runs without an election or as its leader.
\<close>

definition controller_wake :: "'s ClusterStore \<Rightarrow> 's Notifier option \<Rightarrow> bool option \<Rightarrow> 's \<Rightarrow> 's" where
  "controller_wake S N leading s =
     (case leading of
        Some False \<Rightarrow> s
      | _ \<Rightarrow> snd (reconcileAll S N s))"

fun find_workload :: "'s ClusterStore \<Rightarrow> Project list \<Rightarrow> string \<Rightarrow> 's \<Rightarrow> Workload option" where
  "find_workload S [] wid s = None"
| "find_workload S (p # ps) wid s =
     (case cs_GetWorkload S (p_ID p) wid s of Ok w \<Rightarrow> Some w | _ \<Rightarrow> find_workload S ps wid s)"

definition ReconcileOne :: "'s ClusterStore \<Rightarrow> 's Notifier option \<Rightarrow> string \<Rightarrow> 's \<Rightarrow> unit outcome \<times> 's" where
  "ReconcileOne S N wid s =
     (case cs_ListProjects S s of
        Err e \<Rightarrow> (Err e, s)
      | Panic m \<Rightarrow> (Panic m, s)
      | Ok ps \<Rightarrow>
          (case find_workload S ps wid s of
             Some w \<Rightarrow> reconcileWorkload S N w s
           | None \<Rightarrow> (Err (ErrorString ''controller: workload not found''), s)))"

section \<open>What the controller relies on\<close>

definition placement_store :: "'s ClusterStore \<Rightarrow> 's Notifier option \<Rightarrow> bool" where
  "placement_store S N \<longleftrightarrow>
     (\<forall>i ps s. \<exists>s'. cs_SetPlacements S i ps s = (Ok (), s') \<and> cs_ListNodes S s' = cs_ListNodes S s
        \<and> (\<forall>j. cs_GetPlacements S j s' = (if j = i then Ok ps else cs_GetPlacements S j s)))
     \<and> (\<forall>w s. \<exists>s'. cs_UpdateWorkload S w s = (Ok (), s') \<and> cs_ListNodes S s' = cs_ListNodes S s
        \<and> (\<forall>j. cs_GetPlacements S j s' = cs_GetPlacements S j s))
     \<and> (\<forall>f. N = Some f \<longrightarrow> (\<forall>w p s. cs_ListNodes S (snd (f w p s)) = cs_ListNodes S s
        \<and> (\<forall>j. cs_GetPlacements S j (snd (f w p s)) = cs_GetPlacements S j s)))"

definition same_cluster :: "'s ClusterStore \<Rightarrow> 's \<Rightarrow> 's \<Rightarrow> bool" where
  "same_cluster S s s' \<longleftrightarrow>
     cs_ListNodes S s' = cs_ListNodes S s \<and> (\<forall>j. cs_GetPlacements S j s' = cs_GetPlacements S j s)"

lemma notify_all_same:
  assumes "placement_store S N"
  shows "same_cluster S s (snd (notify_all N w ps k s))"
proof (induction ps arbitrary: k s)
  case (Cons p ps)
  show ?case
  proof (cases N)
    case (Some f)
    obtain r s1 where f: "f w p s = (r, s1)" by fastforce
    have "same_cluster S s s1"
      using assms Some f unfolding placement_store_def same_cluster_def by (metis snd_conv)
    with Cons [of s1 "if is_ok r then Suc k else k"] Some f show ?thesis by (simp add: same_cluster_def)
  next
    case None
    then show ?thesis using Cons [of s k] by simp
  qed
qed (simp add: same_cluster_def)

lemma reconcile_stores:
  assumes "placement_store S N" and "Plan S w s = Ok d"
  shows "\<exists>s'. reconcileWorkload S N w s = (Ok (), s') \<and> cs_ListNodes S s' = cs_ListNodes S s
    \<and> (\<forall>j. cs_GetPlacements S j s' =
        (if j = w_ID w \<and> \<not> (d_Unscheduled d \<noteq> [] \<and> d_Placements d = [])
         then Ok (map (controller_placement w) (d_Placements d)) else cs_GetPlacements S j s))"
proof (cases "d_Unscheduled d \<noteq> [] \<and> d_Placements d = []")
  case True
  obtain s' where "cs_UpdateWorkload S (update_unscheduled w d) s = (Ok (), s')"
      "cs_ListNodes S s' = cs_ListNodes S s" "\<forall>j. cs_GetPlacements S j s' = cs_GetPlacements S j s"
    using assms(1) unfolding placement_store_def by blast
  with True assms(2) show ?thesis by (auto simp: reconcileWorkload_def)
next
  case False
  let ?ps = "map (controller_placement w) (d_Placements d)"
  obtain s1 where s1: "cs_SetPlacements S (w_ID w) ?ps s = (Ok (), s1)" "cs_ListNodes S s1 = cs_ListNodes S s"
      "\<forall>j. cs_GetPlacements S j s1 = (if j = w_ID w then Ok ?ps else cs_GetPlacements S j s)"
    using assms(1) unfolding placement_store_def by blast
  obtain k s2 where s2: "notify_all N w ?ps 0 s1 = (k, s2)" by fastforce
  have n: "same_cluster S s1 s2" using notify_all_same [OF assms(1), of s1 w ?ps 0] s2 by simp
  obtain s3 where "cs_UpdateWorkload S (update_ready w k) s2 = (Ok (), s3)"
      "cs_ListNodes S s3 = cs_ListNodes S s2" "\<forall>j. cs_GetPlacements S j s3 = cs_GetPlacements S j s2"
    using assms(1) unfolding placement_store_def by blast
  with False assms(2) s1 s2 n show ?thesis
    by (auto simp: reconcileWorkload_def Let_def same_cluster_def)
qed

text \<open>
  Property C14. Reconciling a workload is idempotent: the first pass stores the planned placements (or,
  when none can be planned, leaves those of earlier passes), and a second pass leaves every
  workload's placements as they are.
\<close>

theorem reconcile_idempotent:
  assumes "placement_store S N" and "Plan S w s = Ok d"
  shows "\<exists>s1 s2. reconcileWorkload S N w s = (Ok (), s1) \<and> reconcileWorkload S N w s1 = (Ok (), s2)
    \<and> (d_Placements d \<noteq> [] \<longrightarrow>
        cs_GetPlacements S (w_ID w) s1 = Ok (map (controller_placement w) (d_Placements d)))
    \<and> (\<forall>j. cs_GetPlacements S j s2 = cs_GetPlacements S j s1)"
proof -
  obtain s1 where s1: "reconcileWorkload S N w s = (Ok (), s1)" "cs_ListNodes S s1 = cs_ListNodes S s"
      "\<forall>j. cs_GetPlacements S j s1 =
        (if j = w_ID w \<and> \<not> (d_Unscheduled d \<noteq> [] \<and> d_Placements d = [])
         then Ok (map (controller_placement w) (d_Placements d)) else cs_GetPlacements S j s)"
    using reconcile_stores [OF assms] by blast
  have "Plan S w s1 = Ok d" using assms(2) s1(2) by (simp add: Plan_def)
  from reconcile_stores [OF assms(1) this] obtain s2 where
    s2: "reconcileWorkload S N w s1 = (Ok (), s2)" "\<forall>j. cs_GetPlacements S j s2 =
        (if j = w_ID w \<and> \<not> (d_Unscheduled d \<noteq> [] \<and> d_Placements d = [])
         then Ok (map (controller_placement w) (d_Placements d)) else cs_GetPlacements S j s1)"
    by blast
  have "cs_GetPlacements S j s2 = cs_GetPlacements S j s1" for j
    using spec [OF s1(3), of j] spec [OF s2(2), of j] by metis
  with s1 s2(1) show ?thesis by auto
qed

type_synonym demo_state = "(string, StatePlacement list) gomap"

definition demo_cluster :: "Node list \<Rightarrow> demo_state ClusterStore" where
  "demo_cluster nodes =
     \<lparr>cs_ListProjects = (\<lambda>_. Ok []), cs_ListWorkloads = (\<lambda>_ _. Ok []),
      cs_GetWorkload = (\<lambda>_ _ _. Err (ErrorString ''not found'')), cs_UpdateWorkload = (\<lambda>_ s. (Ok (), s)),
      cs_SetPlacements = (\<lambda>i ps s. (Ok (), mput i ps s)),
      cs_GetPlacements = (\<lambda>i s. case mget s i of Some ps \<Rightarrow> Ok ps | None \<Rightarrow> Ok []),
      cs_ListNodes = (\<lambda>_. Ok nodes), cs_GetNode = (\<lambda>_ _. Err (ErrorString ''not found'')),
      cs_UpsertNode = (\<lambda>_ s. (Ok (), s)), cs_ListServices = (\<lambda>_ _. Ok []),
      cs_ListDNS = (\<lambda>_ _. Ok []), cs_PutDNS = (\<lambda>_ s. (Ok (), s))\<rparr>"

lemma demo_placement_store: "placement_store (demo_cluster nodes) None"
  by (simp add: placement_store_def demo_cluster_def)

lemma demo_plan:
  "\<exists>d. Plan (demo_cluster [demo_node ''n1'' 3500 1024]) (demo_workload 2 1000 512 []) s = Ok d
    \<and> map pc_NodeID (d_Placements d) = [''n1'', ''n1'']
    \<and> map pc_ReplicaIdx (d_Placements d) = map int [0..<length (d_Placements d)]"
proof -
  let ?n = "demo_node ''n1'' 3500 1024" and ?w = "demo_workload 2 1000 512 []"
  have "cs_ListNodes (demo_cluster [?n]) s = Ok [?n]" "w_Replicas ?w = 2"
    by (simp_all add: demo_cluster_def demo_workload_def)
  moreover have "slots ?w (score (filter_nodes [?n] ?w) ?w) = [''n1'', ''n1'', ''n1'']"
    by (simp add: filter_nodes_def demo_fits slots_def demo_max)
      (simp add: demo_node_def numeral_3_eq_3)
  ultimately show ?thesis
    using plan_takes_slots [of "demo_cluster [?n]" s "[?n]" ?w] by (auto simp: numeral_2_eq_2)
qed

theorem reconcile_idempotent_witness:
  "\<exists>s1 s2. reconcileWorkload (demo_cluster [demo_node ''n1'' 3500 1024]) None (demo_workload 2 1000 512 []) []
      = (Ok (), s1)
    \<and> reconcileWorkload (demo_cluster [demo_node ''n1'' 3500 1024]) None (demo_workload 2 1000 512 []) s1
      = (Ok (), s2)
    \<and> (\<forall>j. cs_GetPlacements (demo_cluster [demo_node ''n1'' 3500 1024]) j s2
          = cs_GetPlacements (demo_cluster [demo_node ''n1'' 3500 1024]) j s1)"
proof -
  obtain d where "Plan (demo_cluster [demo_node ''n1'' 3500 1024]) (demo_workload 2 1000 512 []) [] = Ok d"
    using demo_plan by blast
  from reconcile_idempotent [OF demo_placement_store this] show ?thesis by blast
qed

lemma distinct_controller_ids:
  "distinct (map pl_ID (map (controller_placement w) ps)) \<longleftrightarrow> distinct (map pc_NodeID ps)"
  by (induction ps) (auto simp: controller_placement_def)

lemma FormatInt_inj: "is_i64 a \<Longrightarrow> is_i64 b \<Longrightarrow> FormatInt a = FormatInt b \<Longrightarrow> a = b"
  by (metis ParseInt_FormatInt option.inject)

text \<open>
  The controller names a placement after its workload and node, so two replicas on one node
  are stored under the same identifier; the identifiers that the scheduler's own Reconcile stores for
  the same plan, after the replica's number, are all different.
\<close>

theorem replicas_on_one_node_share_an_id:
  assumes "placement_store S N" and "Plan S w s = Ok d" and "\<not> distinct (map pc_NodeID (d_Placements d))"
    and "map pc_ReplicaIdx (d_Placements d) = map int [0..<length (d_Placements d)]"
    and "length (d_Placements d) < 2 ^ 31"
  shows "\<exists>s1 ps s2. reconcileWorkload S N w s = (Ok (), s1) \<and> cs_GetPlacements S (w_ID w) s1 = Ok ps
    \<and> \<not> distinct (map pl_ID ps)
    \<and> Reconcile S w s = (Ok (), s2) \<and> cs_GetPlacements S (w_ID w) s2 = Ok (map (reconcile_placement w) (d_Placements d))
    \<and> distinct (map pl_ID (map (reconcile_placement w) (d_Placements d)))"
proof -
  have "d_Placements d \<noteq> []" using assms(3) by auto
  then obtain s1 where "reconcileWorkload S N w s = (Ok (), s1)"
      "cs_GetPlacements S (w_ID w) s1 = Ok (map (controller_placement w) (d_Placements d))"
    using reconcile_stores [OF assms(1,2)] by auto
  moreover obtain s2 where "Reconcile S w s = (Ok (), s2)"
      "cs_GetPlacements S (w_ID w) s2 = Ok (map (reconcile_placement w) (d_Placements d))"
    using assms(1,2) unfolding placement_store_def Reconcile_def by (metis (no_types, lifting) outcome.simps(10))
  moreover have "distinct (map pl_ID (map (reconcile_placement w) (d_Placements d)))"
  proof -
    have "map pl_ID (map (reconcile_placement w) (d_Placements d)) =
        map (\<lambda>i. w_ID w @ ''-'' @ FormatInt i) (map pc_ReplicaIdx (d_Placements d))"
      by (simp add: reconcile_placement_def)
    also have "distinct \<dots>"
    proof -
      have "FormatInt (int x) = FormatInt (int y) \<Longrightarrow> x = y"
        if "x < length (d_Placements d)" "y < length (d_Placements d)" for x y
        using FormatInt_inj [of "int x" "int y"] that assms(5) by (simp add: is_i64_def)
      then show ?thesis unfolding assms(4) by (auto simp: distinct_map inj_on_def)
    qed
    finally show ?thesis .
  qed
  ultimately show ?thesis using assms(3) distinct_controller_ids by blast
qed

theorem replicas_on_one_node_share_an_id_witness:
  "\<exists>s1 ps. reconcileWorkload (demo_cluster [demo_node ''n1'' 3500 1024]) None (demo_workload 2 1000 512 []) []
      = (Ok (), s1)
    \<and> cs_GetPlacements (demo_cluster [demo_node ''n1'' 3500 1024]) ''web'' s1 = Ok ps
    \<and> \<not> distinct (map pl_ID ps)"
proof -
  let ?n = "demo_node ''n1'' 3500 1024" and ?w = "demo_workload 2 1000 512 []"
  from demo_plan [of "[]"] obtain d where d: "Plan (demo_cluster [?n]) ?w [] = Ok d"
      "map pc_NodeID (d_Placements d) = [''n1'', ''n1'']"
      "map pc_ReplicaIdx (d_Placements d) = map int [0..<length (d_Placements d)]"
    by (elim exE conjE)
  have "length (d_Placements d) = 2" using arg_cong [OF d(2), of length] by simp
  then have len: "length (d_Placements d) < 2 ^ 31" by simp
  have nd: "\<not> distinct (map pc_NodeID (d_Placements d))" unfolding d(2) by simp
  have id: "w_ID ?w = ''web''" by (simp add: demo_workload_def)
  from replicas_on_one_node_share_an_id [OF demo_placement_store d(1) nd d(3) len] show ?thesis
    unfolding id by (elim exE conjE) (intro exI conjI)
qed

end
