(* ===== verification/GoNet.thy ===== *)
theory GoNet
  imports GoText
begin

text \<open>
  \<^verbatim>\<open>net.ParseIP\<close> and \<^verbatim>\<open>IP.To4\<close>: dotted decimal addresses, IPv6 addresses with the double colon and a trailing
  dotted part, and the four bytes of an address that is IPv4 in either form.
\<close>

definition v4_field :: "string \<Rightarrow> nat option" where
  "v4_field f =
     (if f = [] \<or> \<not> list_all is_digit f \<or> (1 < length f \<and> hd f = CHR ''0'') \<or> digits_value f > 255
      then None else Some (digits_value f))"

definition parseIPv4 :: "string \<Rightarrow> nat list option" where
  "parseIPv4 s =
     (case Split s CHR ''.'' of
        [a, b, c, d] \<Rightarrow>
          (case (v4_field a, v4_field b, v4_field c, v4_field d) of
             (Some w, Some x, Some y, Some z) \<Rightarrow> Some [w, x, y, z]
           | _ \<Rightarrow> None)
      | _ \<Rightarrow> None)"

definition hex_run :: "string \<Rightarrow> string" where
  "hex_run s = takeWhile (\<lambda>c. hex_value c \<noteq> None) s"

definition hex_number :: "string \<Rightarrow> nat" where
  "hex_number ds = foldl (\<lambda>n c. n * 16 + the (hex_value c)) 0 ds"

text \<open>
  The groups of an IPv6 address, at most \<^verbatim>\<open>k\<close> more: the bytes so far and the place of the double colon;
  the result also has what is left of the text.
\<close>

fun v6_groups :: "nat \<Rightarrow> string \<Rightarrow> nat list \<Rightarrow> nat option \<Rightarrow> (nat list \<times> nat option \<times> string) option" where
  "v6_groups 0 s ip ell = Some (ip, ell, s)"
| "v6_groups (Suc k) s ip ell =
     (let h = hex_run s; r = drop (length h) s; n = hex_number h in
      if h = [] \<or> 4 < length h then None
      else if r \<noteq> [] \<and> hd r = CHR ''.'' then
        (if ell = None \<and> length ip \<noteq> 12 then None
         else if length ip + 4 > 16 then None
         else map_option (\<lambda>f. (ip @ f, ell, [])) (parseIPv4 s))
      else
        let ip' = ip @ [n div 256, n mod 256] in
        case r of
          [] \<Rightarrow> Some (ip', ell, [])
        | [c] \<Rightarrow> None
        | c # d # t \<Rightarrow>
            if c \<noteq> CHR '':'' then None
            else if d = CHR '':'' then
              (if ell \<noteq> None then None
               else if t = [] then Some (ip', Some (length ip'), [])
               else v6_groups k t ip' (Some (length ip')))
            else v6_groups k (d # t) ip' ell)"

definition v6_finish :: "nat list \<times> nat option \<times> string \<Rightarrow> nat list option" where
  "v6_finish r =
     (case r of (ip, ell, s) \<Rightarrow>
        if s \<noteq> [] then None
        else if length ip < 16 then
          (case ell of
             None \<Rightarrow> None
           | Some e \<Rightarrow> Some (take e ip @ replicate (16 - length ip) 0 @ drop e ip))
        else if ell \<noteq> None then None else Some ip)"

text \<open>\<^verbatim>\<open>ParseIP\<close> rejects a zone, so a text with a percent sign has no address.\<close>

definition parseIPv6 :: "string \<Rightarrow> nat list option" where
  "parseIPv6 s =
     (if CHR ''%'' \<in> set s then None
      else if HasPrefix s ''::'' then
        (if length s = 2 then Some (replicate 16 0)
         else Option.bind (v6_groups 8 (drop 2 s) [] (Some 0)) v6_finish)
      else Option.bind (v6_groups 8 s [] None) v6_finish)"

definition ParseIP :: "string \<Rightarrow> nat list option" where
  "ParseIP s =
     (case dropWhile (\<lambda>c. c \<noteq> CHR ''.'' \<and> c \<noteq> CHR '':'' \<and> c \<noteq> CHR ''%'') s of
        [] \<Rightarrow> None
      | c # _ \<Rightarrow>
          if c = CHR ''.'' then map_option (\<lambda>f. replicate 10 0 @ [255, 255] @ f) (parseIPv4 s)
          else if c = CHR '':'' then parseIPv6 s else None)"

definition To4 :: "nat list option \<Rightarrow> bytes option" where
  "To4 ip =
     (case ip of
        None \<Rightarrow> None
      | Some b \<Rightarrow>
          if length b = 16 \<and> take 12 b = replicate 10 0 @ [255, 255] then Some (map byte_of (drop 12 b)) else None)"

section \<open>What the functions return\<close>

lemma v4_field_digits:
  assumes "n < 256"
  shows "v4_field (digits n) = Some n"
proof -
  have "hd (digits n) \<noteq> CHR ''0''" if "1 < length (digits n)"
  proof (cases "n = 0")
    case True
    with that show ?thesis by (simp add: digits.simps [of 0])
  next
    case False
    then show ?thesis by (simp add: digits_head)
  qed
  with assms show ?thesis by (simp add: v4_field_def)
qed

lemma length_To4: "To4 ip = Some b \<Longrightarrow> length b = 4"
  by (auto simp: To4_def split: option.splits if_splits)

end
