(* ===== verification/Dns.thy ===== *)
theory Dns
  imports GoNet GoJson StateTypes
begin

text \<open>
  The DNS server, \<^verbatim>\<open>internal/dns/dns.go\<close>: the wire format of names, the zone it renders from the store, and
  the answer to a query. A call that does not return is \<^term>\<open>None\<close>: reading a name follows compression
  pointers by recursion, without a bound. The sockets are not modelled; what the server does with a
  datagram, or with the bytes of a connection, is. \<^verbatim>\<open>strings.ToLower\<close> on text outside ASCII uses the Unicode
  tables, which are the argument \<^verbatim>\<open>U\<close>.
\<close>

section \<open>State\<close>

record zoneEntry =
  ze_Records :: "DNSRecord list"

record DnsConfig =
  dc_Listen :: string
  dc_Zone :: string
  dc_Upstream :: string

text \<open>A socket is its local address.\<close>

record DnsServer =
  ds_udp :: "string option"
  ds_tcp :: "string option"
  ds_zone :: string
  ds_upstream :: string
  ds_zoneData :: "(string, zoneEntry) gomap"

definition NewServer :: "DnsConfig \<Rightarrow> DnsServer" where
  "NewServer cfg =
     (let c = (if dc_Zone cfg = [] then cfg\<lparr>dc_Zone := ''cluster.local''\<rparr> else cfg)
      in \<lparr>ds_udp = None, ds_tcp = None, ds_zone = dc_Zone c, ds_upstream = dc_Upstream c, ds_zoneData = []\<rparr>)"

definition addr :: "string option \<Rightarrow> string option \<Rightarrow> string" where
  "addr u t = (case u of Some a \<Rightarrow> a | None \<Rightarrow> (case t of Some a \<Rightarrow> a | None \<Rightarrow> []))"

definition server_cfg :: "DnsServer \<Rightarrow> DnsConfig" where
  "server_cfg srv =
     \<lparr>dc_Listen = addr (ds_udp srv) (ds_tcp srv), dc_Zone = ds_zone srv, dc_Upstream = ds_upstream srv\<rparr>"

definition ToLower :: "(string \<Rightarrow> string) \<Rightarrow> string \<Rightarrow> string" where
  "ToLower U s = (if ascii s then map lower s else U s)"

section \<open>Names on the wire\<close>

partial_function (option) read_name :: "bytes \<Rightarrow> nat \<Rightarrow> string list \<Rightarrow> (string \<times> nat) outcome option" where
  "read_name buf off labels =
     (if length buf \<le> off then Some (Err (ErrorString ''dns: name out of bounds''))
      else
        let l = byte_val (buf ! off); off1 = off + 1 in
        if l = 0 then Some (Ok (Join labels ''.'', off1))
        else if 192 \<le> l then
          (if length buf \<le> off1 then Some (Err (ErrorString ''dns: pointer truncated''))
           else
             let ptr = (l * 256 + byte_val (buf ! off1)) mod 16384 in
             Option.bind (read_name buf ptr [])
               (\<lambda>r. case r of
                      Err e \<Rightarrow> Some (Err e)
                    | Panic m \<Rightarrow> Some (Panic m)
                    | Ok (sub, _) \<Rightarrow> Some (Ok (Join (labels @ [sub]) ''.'', off1 + 1))))
        else if length buf < off1 + l then Some (Err (ErrorString ''dns: label out of bounds''))
        else read_name buf (off1 + l) (labels @ [take l (drop off1 buf)]))"

definition readName :: "bytes \<Rightarrow> nat \<Rightarrow> (string \<times> nat) outcome option" where
  "readName buf off = read_name buf off []"

definition write_label :: "string \<Rightarrow> bytes" where
  "write_label l = (if l = [] then [] else byte_of (length l mod 256) # l)"

definition writeName :: "string \<Rightarrow> bytes" where
  "writeName name = concat (map write_label (Split name CHR ''.'')) @ [byte_of 0]"

section \<open>Queries\<close>

definition be_value :: "bytes \<Rightarrow> nat" where
  "be_value bs = foldl (\<lambda>n c. n * 256 + byte_val c) 0 bs"

definition put_uint16 :: "bytes \<Rightarrow> nat \<Rightarrow> nat \<Rightarrow> bytes" where
  "put_uint16 buf off n = take off buf @ be_bytes 2 n @ drop (off + 2) buf"

definition answer :: "string \<Rightarrow> DNSRecord \<Rightarrow> bytes" where
  "answer qname r =
     writeName qname @ be_bytes 2 1 @ be_bytes 2 1 @ be_bytes 4 60 @ be_bytes 2 4
       @ (case To4 (ParseIP (dr_IP r)) of None \<Rightarrow> [] | Some ip \<Rightarrow> ip)"

text \<open>The header and the question of every response, with the four counts that follow the header.\<close>

definition response_head :: "bytes \<Rightarrow> string \<Rightarrow> bytes \<Rightarrow> bytes \<Rightarrow> bytes" where
  "response_head buf qname qtype qclass =
     take 2 buf @ [byte_of 0x81, byte_of 0x80] @ take 2 (drop 4 buf) @ [byte_of 0, byte_of 0] @ take 4 (drop 8 buf)
       @ be_bytes 2 1 @ be_bytes 2 0 @ be_bytes 2 0 @ be_bytes 2 0
       @ writeName qname @ qtype @ qclass"

text \<open>
  The response code that the code stores for a missing name goes to the query's buffer, after the header
  was copied from there: it does not reach the response.
\<close>

definition handleQuery :: "(string \<Rightarrow> string) \<Rightarrow> DnsServer \<Rightarrow> bytes \<Rightarrow> bytes outcome option" where
  "handleQuery U srv buf =
     (if length buf < 12 then Some (Err (ErrorString ''dns: short query''))
      else case readName buf 12 of
             None \<Rightarrow> None
           | Some (Err e) \<Rightarrow> Some (Err e)
           | Some (Panic m) \<Rightarrow> Some (Panic m)
           | Some (Ok (qname, off)) \<Rightarrow>
               if length buf < off + 4 then Some (Err (ErrorString ''dns: short query''))
               else
                 let qtype = take 2 (drop off buf); qclass = take 2 (drop (off + 2) buf);
                     resp = response_head buf qname qtype qclass
                 in case mget (ds_zoneData srv) (ToLower U qname) of
                      None \<Rightarrow> Some (Ok resp)
                    | Some entry \<Rightarrow>
                        if be_value qtype \<noteq> 1 then Some (Ok resp)
                        else Some (Ok (put_uint16 resp 6 (length (ze_Records entry))
                               @ concat (map (answer qname) (ze_Records entry)))))"

text \<open>
  One datagram, cut to the buffer's 1500 bytes, and the bytes of one connection: what is sent back. A
  panic or a call that does not return ends the program.
\<close>

definition serve_datagram :: "(string \<Rightarrow> string) \<Rightarrow> DnsServer \<Rightarrow> bytes \<Rightarrow> bytes outcome option" where
  "serve_datagram U srv d = handleQuery U srv (take 1500 d)"

definition serve_connection :: "(string \<Rightarrow> string) \<Rightarrow> DnsServer \<Rightarrow> bytes \<Rightarrow> bytes outcome option" where
  "serve_connection U srv input =
     (if length input < 2 then Some (Ok [])
      else
        let l = be_value (take 2 input); body = take l (drop 2 input) in
        if length body < l then Some (Ok [])
        else case handleQuery U srv body of
               None \<Rightarrow> None
             | Some (Err e) \<Rightarrow> Some (Ok [])
             | Some (Panic m) \<Rightarrow> Some (Panic m)
             | Some (Ok resp) \<Rightarrow> Some (Ok (be_bytes 2 (length resp) @ resp)))"

section \<open>The zone\<close>

definition add_record :: "(string \<Rightarrow> string) \<Rightarrow> DNSRecord \<Rightarrow> (string, zoneEntry) gomap \<Rightarrow> (string, zoneEntry) gomap" where
  "add_record U r zone =
     (let full = ToLower U (dr_Name r);
          old = (case mget zone full of None \<Rightarrow> [] | Some e \<Rightarrow> ze_Records e)
      in mput full \<lparr>ze_Records = old @ [r]\<rparr> zone)"

fun refresh_loop ::
  "(string \<Rightarrow> string) \<Rightarrow> 's ClusterStore \<Rightarrow> 's \<Rightarrow> Project list \<Rightarrow> (string, zoneEntry) gomap
    \<Rightarrow> (string, zoneEntry) gomap outcome" where
  "refresh_loop U S s [] zone = Ok zone"
| "refresh_loop U S s (p # ps) zone =
     (case cs_ListDNS S (p_ID p) s of
        Panic m \<Rightarrow> Panic m
      | Err e \<Rightarrow> refresh_loop U S s ps zone
      | Ok rs \<Rightarrow> refresh_loop U S s ps (fold (add_record U) rs zone))"

definition refreshZone :: "(string \<Rightarrow> string) \<Rightarrow> 's ClusterStore \<Rightarrow> 's \<Rightarrow> DnsServer \<Rightarrow> unit outcome \<times> DnsServer" where
  "refreshZone U S s srv =
     (case cs_ListProjects S s of
        Err e \<Rightarrow> (Err e, srv)
      | Panic m \<Rightarrow> (Panic m, srv)
      | Ok projects \<Rightarrow>
          (case refresh_loop U S s projects [] of
             Err e \<Rightarrow> (Err e, srv)
           | Panic m \<Rightarrow> (Panic m, srv)
           | Ok newZone \<Rightarrow> (Ok (), srv\<lparr>ds_zoneData := newZone\<rparr>)))"


section \<open>Writing and reading names\<close>

definition label_ok :: "string \<Rightarrow> bool" where
  "label_ok l \<longleftrightarrow> l \<noteq> [] \<and> length l < 192 \<and> CHR ''.'' \<notin> set l"

lemma read_label:
  assumes "label_ok l"
  shows "read_name (pre @ write_label l @ post) (length pre) acc =
    read_name ((pre @ write_label l) @ post) (length (pre @ write_label l)) (acc @ [l])"
  using assms
  by (subst read_name.simps) (simp add: label_ok_def write_label_def nth_append Let_def)

lemma read_end:
  "read_name (pre @ byte_of 0 # post) (length pre) acc = Some (Ok (Join acc ''.'', length pre + 1))"
  by (subst read_name.simps) (simp add: nth_append)

lemma read_labels:
  assumes "list_all label_ok labels"
  shows "read_name (pre @ concat (map write_label labels) @ byte_of 0 # post) (length pre) acc =
    Some (Ok (Join (acc @ labels) ''.'', length pre + length (concat (map write_label labels)) + 1))"
  using assms
proof (induction labels arbitrary: pre acc)
  case Nil
  show ?case using read_end [of pre post acc] by simp
next
  case (Cons l labels)
  then have "label_ok l" by simp
  from read_label [OF this, of pre "concat (map write_label labels) @ byte_of 0 # post" acc]
    Cons.IH [of "pre @ write_label l" "acc @ [l]"] Cons.prems
  show ?case by simp
qed

lemma writeName_Join:
  assumes "list_all label_ok labels"
  shows "writeName (Join labels ''.'') = concat (map write_label labels) @ [byte_of 0]"
proof (cases "labels = []")
  case True
  then show ?thesis by (simp add: writeName_def write_label_def)
next
  case False
  with assms show ?thesis
    using Split_Join [of labels "CHR ''.''"] by (simp add: writeName_def label_ok_def list_all_iff)
qed

lemma read_write:
  assumes "list_all label_ok labels" and "name = Join labels ''.''"
  shows "readName (pre @ writeName name @ post) (length pre) = Some (Ok (name, length pre + length (writeName name)))"
  using read_labels [OF assms(1), of pre post "[]"]
  by (simp add: readName_def assms(2) writeName_Join [OF assms(1)])

text \<open>
  Property C26. A name that the server writes, of labels shorter than 192 bytes without dots, is read back
  from any place of any message, and reading ends right behind it.
\<close>

theorem dns_name_round_trip:
  assumes "list_all label_ok labels" and "name = Join labels ''.''"
  shows "readName (pre @ writeName name @ post) (length pre) = Some (Ok (name, length pre + length (writeName name)))"
  using assms by (rule read_write)

theorem dns_name_round_trip_witness:
  "readName (''xy'' @ writeName ''web.p'' @ ''z'') 2 = Some (Ok (''web.p'', 9))"
proof -
  have "list_all label_ok [''web'', ''p'']" "''web.p'' = Join [''web'', ''p''] ''.''" by (simp_all add: label_ok_def)
  from dns_name_round_trip [OF this, of "''xy''" "''z''"]
  have "readName (''xy'' @ writeName ''web.p'' @ ''z'') (length ''xy'')
      = Some (Ok (''web.p'', length ''xy'' + length (writeName ''web.p'')))" .
  moreover have "length ''xy'' = 2" "2 + length (writeName ''web.p'') = 9"
    by (simp_all add: writeName_def write_label_def)
  ultimately show ?thesis by (simp only:)
qed

section \<open>Termination\<close>

text \<open>
  Reading a name returns, with a name or an error, from every message without compression
  pointers behind its start.
\<close>

theorem pointer_free_names_return:
  assumes "\<forall>i < length buf. off \<le> i \<longrightarrow> byte_val (buf ! i) < 192"
  shows "\<exists>r. read_name buf off labels = Some r"
  using assms
proof (induction "length buf - off" arbitrary: off labels rule: less_induct)
  case less
  let ?l = "byte_val (buf ! off)"
  have np: "off < length buf \<Longrightarrow> \<not> 192 \<le> ?l" using less.prems by (simp add: not_le)
  show ?case
  proof (cases "length buf \<le> off \<or> ?l = 0 \<or> length buf < off + 1 + ?l")
    case True
    with np show ?thesis by (subst read_name.simps) (auto simp: Let_def)
  next
    case False
    with less.prems have "\<exists>r. read_name buf (off + 1 + ?l) (labels @ [take ?l (drop (off + 1) buf)]) = Some r"
      by (intro less.hyps) auto
    moreover have "read_name buf off labels =
        read_name buf (off + 1 + ?l) (labels @ [take ?l (drop (off + 1) buf)])"
      using False np by (subst read_name.simps) (simp add: Let_def)
    ultimately show ?thesis by simp
  qed
qed

theorem pointer_free_names_return_witness:
  "\<exists>r. read_name [byte_of 1, byte_of 97, byte_of 0] 0 [] = Some r"
proof -
  have "\<forall>i < length [byte_of 1, byte_of 97, byte_of 0]. 0 \<le> i \<longrightarrow>
      byte_val ([byte_of 1, byte_of 97, byte_of 0] ! i) < 192"
    by (simp add: less_Suc_eq_0_disj nth_Cons split: nat.split)
  then show ?thesis by (rule pointer_free_names_return)
qed

definition pointer_at :: "bytes \<Rightarrow> nat \<Rightarrow> nat \<Rightarrow> bool" where
  "pointer_at buf off ptr \<longleftrightarrow>
     off + 1 < length buf \<and> 192 \<le> byte_val (buf ! off)
     \<and> ptr = (byte_val (buf ! off) * 256 + byte_val (buf ! (off + 1))) mod 16384"

lemma self_pointer_diverges:
  assumes "pointer_at buf off off"
  shows "read_name buf off labels = None"
proof -
  have "\<not> (buf = buf \<and> off = off)" if "read_name buf off labels = Some y" for y
  proof (rule read_name.raw_induct [where P = "\<lambda>b i ls y. \<not> (b = buf \<and> i = off)", OF _ that])
    fix f b i ls y
    assume IH: "\<And>b i ls y. f b i ls = Some y \<Longrightarrow> \<not> (b = buf \<and> i = off)"
      and e: "(if length b \<le> i then Some (Err (ErrorString ''dns: name out of bounds''))
        else
          let l = byte_val (b ! i); off1 = i + 1 in
          if l = 0 then Some (Ok (Join ls ''.'', off1))
          else if 192 \<le> l then
            (if length b \<le> off1 then Some (Err (ErrorString ''dns: pointer truncated''))
             else
               let ptr = (l * 256 + byte_val (b ! off1)) mod 16384 in
               Option.bind (f b ptr [])
                 (\<lambda>r. case r of
                        Err e \<Rightarrow> Some (Err e)
                      | Panic m \<Rightarrow> Some (Panic m)
                      | Ok (sub, _) \<Rightarrow> Some (Ok (Join (ls @ [sub]) ''.'', off1 + 1))))
          else if length b < off1 + l then Some (Err (ErrorString ''dns: label out of bounds''))
          else f b (off1 + l) (ls @ [take l (drop off1 b)])) = Some y"
    have "f buf off [] = None" using IH [of buf off "[]"] by (cases "f buf off []") auto
    with e assms show "\<not> (b = buf \<and> i = off)" by (auto simp: pointer_at_def Let_def)
  qed
  then show ?thesis by (cases "read_name buf off labels") auto
qed

text \<open>
  A query of 14 bytes whose name is a pointer to itself is never answered or refused:
  handling it does not return.
\<close>

theorem pointer_loop_never_returns:
  assumes "14 \<le> length buf" and "buf ! 12 = byte_of 0xC0" and "buf ! 13 = byte_of 0x0C"
  shows "handleQuery U srv buf = None"
proof -
  have "pointer_at buf 12 12" using assms by (simp add: pointer_at_def)
  then show ?thesis using assms(1) by (simp add: handleQuery_def readName_def self_pointer_diverges)
qed

theorem pointer_loop_never_returns_witness:
  "handleQuery id (NewServer \<lparr>dc_Listen = [], dc_Zone = [], dc_Upstream = []\<rparr>)
     (replicate 12 (byte_of 0) @ [byte_of 0xC0, byte_of 0x0C]) = None"
  by (rule pointer_loop_never_returns) (simp_all add: nth_append)

section \<open>Responses\<close>

lemma be_bytes_2: "be_bytes 2 n = [byte_of (n div 256 mod 256), byte_of (n mod 256)]"
  by (simp add: be_bytes_def numeral_2_eq_2)

lemma response_head_split:
  assumes "12 \<le> length buf"
  shows "\<exists>h1 h2 t. response_head buf qname qt qc =
    h1 @ [byte_of 0x81, byte_of 0x80] @ h2 @ [byte_of 0, byte_of 0] @ t
    \<and> length h1 = 2 \<and> length h2 = 2 \<and> 5 < length t \<and> t ! 4 = byte_of 0"
  using assms unfolding response_head_def
  by (intro exI [of _ "take 2 buf"] exI [of _ "take 2 (drop 4 buf)"] exI)
    (auto simp: be_bytes_2 nth_append min_def)

lemma read_empty: "off < length buf \<Longrightarrow> buf ! off = byte_of 0 \<Longrightarrow> readName buf off = Some (Ok ([], off + 1))"
  unfolding readName_def by (subst read_name.simps) simp

text \<open>
  No response is one that its receiver can read: eight stray bytes follow the header, so the
  question, read at its place with the server's own function, is the empty name whatever was asked;
  and the response code is always 0, also when the name does not exist.
\<close>

theorem response_cannot_be_read:
  assumes "handleQuery U srv buf = Some (Ok resp)"
  shows "readName resp 12 = Some (Ok ([], 13)) \<and> byte_val (resp ! 3) mod 16 = 0"
proof -
  have len: "12 \<le> length buf" using assms by (auto simp: handleQuery_def split: if_splits)
  obtain qn off where "readName buf 12 = Some (Ok (qn, off))"
    using assms by (auto simp: handleQuery_def split: if_splits option.splits outcome.splits)
  then obtain qt qc where "resp = response_head buf qn qt qc
      \<or> (\<exists>n as. resp = put_uint16 (response_head buf qn qt qc) 6 n @ as)"
    using assms that by (auto simp: handleQuery_def Let_def split: if_splits option.splits)
  note r = this
  obtain h1 h2 t where h: "response_head buf qn qt qc =
      h1 @ [byte_of 0x81, byte_of 0x80] @ h2 @ [byte_of 0, byte_of 0] @ t"
      "length h1 = 2" "length h2 = 2" "5 < length t" "t ! 4 = byte_of 0"
    using response_head_split [OF len] by blast
  obtain a b c d where "h1 = [a, b]" "h2 = [c, d]" using h(2,3) by (auto simp: numeral_2_eq_2 length_Suc_conv)
  with r h(1) obtain x y as' where "resp = [a, b, byte_of 0x81, byte_of 0x80, c, d, x, y] @ t @ as'"
    unfolding put_uint16_def be_bytes_2 by fastforce
  then have "resp ! 3 = byte_of 0x80" "resp ! 12 = byte_of 0" "12 < length resp"
    using h(4,5) by (simp_all add: nth_append)
  then show ?thesis using read_empty [of 12 resp] by simp
qed

lemma handle_shaped_query:
  assumes "list_all label_ok labels" and "name = Join labels ''.''"
    and "buf = hdr @ writeName name @ qt @ qc @ rest" and "length hdr = 12" and "length qt = 2" and "length qc = 2"
  shows "handleQuery U srv buf =
    (let resp = response_head hdr name qt qc in
     Some (Ok (case mget (ds_zoneData srv) (ToLower U name) of
                 None \<Rightarrow> resp
               | Some e \<Rightarrow>
                   if be_value qt \<noteq> 1 then resp
                   else put_uint16 resp 6 (length (ze_Records e)) @ concat (map (answer name) (ze_Records e)))))"
proof -
  have "readName buf 12 = Some (Ok (name, 12 + length (writeName name)))"
    using read_write [OF assms(1,2), of hdr "qt @ qc @ rest"] assms(3,4) by simp
  moreover have "response_head buf name qt qc = response_head hdr name qt qc"
    using assms(3,4) by (simp add: response_head_def)
  ultimately show ?thesis using assms(3-)
    by (simp add: handleQuery_def Let_def split: option.split)
qed

section \<open>The zone\<close>

definition zone_records :: "(string, zoneEntry) gomap \<Rightarrow> string \<Rightarrow> DNSRecord list" where
  "zone_records zone n = (case mget zone n of None \<Rightarrow> [] | Some e \<Rightarrow> ze_Records e)"

definition zone_ok :: "(string, zoneEntry) gomap \<Rightarrow> bool" where
  "zone_ok zone \<longleftrightarrow> (\<forall>n e. mget zone n = Some e \<longrightarrow> ze_Records e \<noteq> [])"

lemma add_record_spec:
  "zone_records (add_record U r zone) n = zone_records zone n @ (if ToLower U (dr_Name r) = n then [r] else [])"
  "zone_ok zone \<Longrightarrow> zone_ok (add_record U r zone)"
  by (auto simp: zone_records_def add_record_def zone_ok_def Let_def split: option.splits if_splits)

lemma fold_add_record:
  "zone_records (fold (add_record U) rs zone) n =
     zone_records zone n @ filter (\<lambda>r. ToLower U (dr_Name r) = n) rs"
  "zone_ok zone \<Longrightarrow> zone_ok (fold (add_record U) rs zone)"
  by (induction rs arbitrary: zone) (simp_all add: add_record_spec)

lemma refresh_loop_spec:
  "refresh_loop U S s ps zone = Ok zone' \<Longrightarrow>
     zone_records zone' n = zone_records zone n
       @ filter (\<lambda>r. ToLower U (dr_Name r) = n) (concat (map (\<lambda>p. or_nil (cs_ListDNS S (p_ID p) s)) ps))"
  "refresh_loop U S s ps zone = Ok zone' \<Longrightarrow> zone_ok zone \<Longrightarrow> zone_ok zone'"
  by (induction ps arbitrary: zone) (auto simp: or_nil_def fold_add_record split: outcome.splits)


lemma zone_entry: "zone_ok zone \<Longrightarrow>
  mget zone n = (if zone_records zone n = [] then None else Some \<lparr>ze_Records = zone_records zone n\<rparr>)"
  by (auto simp: zone_ok_def zone_records_def split: option.splits)

text \<open>
  A refresh renders the store: a name of the new zone has exactly the records of the listed
  projects with that name, letter case aside, in the order of the listing, and no other name exists.
\<close>

theorem refresh_renders_store:
  assumes "cs_ListProjects S s = Ok ps" and "refreshZone U S s srv = (Ok (), srv')"
  shows "mget (ds_zoneData srv') n =
    (let rs = filter (\<lambda>r. ToLower U (dr_Name r) = n) (concat (map (\<lambda>p. or_nil (cs_ListDNS S (p_ID p) s)) ps))
     in if rs = [] then None else Some \<lparr>ze_Records = rs\<rparr>)"
proof -
  obtain z where z: "refresh_loop U S s ps [] = Ok z" "ds_zoneData srv' = z"
    using assms by (auto simp: refreshZone_def split: outcome.splits)
  have "zone_ok []" "zone_records [] n = []" by (simp_all add: zone_ok_def zone_records_def)
  with refresh_loop_spec [OF z(1)] show ?thesis by (simp add: z(2) zone_entry Let_def)
qed




section \<open>A concrete store\<close>

text \<open>A store with one project whose state is the list of records.\<close>

definition demo_dns_store :: "DNSRecord list ClusterStore" where
  "demo_dns_store =
     \<lparr>cs_ListProjects = (\<lambda>_. Ok [\<lparr>p_ID = ''p'', p_Name = ''p'', p_Description = [], p_QuotaCPU = 0, p_QuotaMem = 0,
        p_QuotaObj = 0\<rparr>]),
      cs_ListWorkloads = (\<lambda>_ _. Ok []), cs_GetWorkload = (\<lambda>_ _ _. Err (ErrorString ''not found'')),
      cs_UpdateWorkload = (\<lambda>_ s. (Ok (), s)), cs_SetPlacements = (\<lambda>_ _ s. (Ok (), s)),
      cs_GetPlacements = (\<lambda>_ _. Ok []), cs_ListNodes = (\<lambda>_. Ok []),
      cs_GetNode = (\<lambda>_ _. Err (ErrorString ''not found'')), cs_UpsertNode = (\<lambda>_ s. (Ok (), s)),
      cs_ListServices = (\<lambda>_ _. Ok []), cs_ListDNS = (\<lambda>p s. Ok (filter (\<lambda>r. dr_ProjectID r = p) s)),
      cs_PutDNS = (\<lambda>r s. (Ok (), r # s))\<rparr>"

definition demo_server :: DnsServer where
  "demo_server = NewServer \<lparr>dc_Listen = [], dc_Zone = [], dc_Upstream = []\<rparr>"





theorem refresh_renders_store_witness:
  "\<exists>srv'. refreshZone id demo_dns_store [] demo_server = (Ok (), srv') \<and> mget (ds_zoneData srv') ''web.p'' = None"
proof -
  define ps where "ps = or_nil (cs_ListProjects demo_dns_store [])"
  have ps: "cs_ListProjects demo_dns_store [] = Ok ps" by (simp add: ps_def or_nil_def demo_dns_store_def)
  have "\<exists>srv'. refreshZone id demo_dns_store [] demo_server = (Ok (), srv')"
    by (simp add: refreshZone_def demo_dns_store_def)
  then obtain srv' where r: "refreshZone id demo_dns_store [] demo_server = (Ok (), srv')" by blast
  from refresh_renders_store [OF ps r, of "''web.p''"] r show ?thesis
    by (intro exI [of _ srv']) (simp add: Let_def demo_dns_store_def or_nil_def)
qed

theorem response_cannot_be_read_witness:
  "\<exists>resp. handleQuery id demo_server (replicate 12 (byte_of 0) @ writeName ''web.p'' @ be_bytes 2 1 @ be_bytes 2 1)
      = Some (Ok resp)
    \<and> readName resp 12 = Some (Ok ([], 13)) \<and> byte_val (resp ! 3) mod 16 = 0"
proof -
  have l: "list_all label_ok [''web'', ''p'']" "''web.p'' = Join [''web'', ''p''] ''.''" by (simp_all add: label_ok_def)
  have "replicate 12 (byte_of 0) @ writeName ''web.p'' @ be_bytes 2 1 @ be_bytes 2 1
      = replicate 12 (byte_of 0) @ writeName ''web.p'' @ be_bytes 2 1 @ be_bytes 2 1 @ []" by simp
  note h = handle_shaped_query [OF l this length_replicate length_be_bytes length_be_bytes, of id demo_server]
  have "\<exists>resp. handleQuery id demo_server
      (replicate 12 (byte_of 0) @ writeName ''web.p'' @ be_bytes 2 1 @ be_bytes 2 1) = Some (Ok resp)"
    unfolding h Let_def by (rule exI) (rule refl)
  then show ?thesis by (elim exE, intro exI conjI) (assumption | drule response_cannot_be_read, elim conjE)+
qed

end
