(* ===== verification/LoadBalancer.thy ===== *)
theory LoadBalancer
  imports GoText StateTypes
begin

text \<open>
  The load balancer, \<^verbatim>\<open>internal/lb/lb.go\<close>. A connection keeps a pointer into the slice of backends while
  \<^verbatim>\<open>refresh\<close> rewrites that slice in place, so the backing arrays are explicit: a heap of arrays, the
  array and the length of the slice, and pointers made of an array and an index. The capacity that
  \<^verbatim>\<open>append\<close> gives to a new array is the argument \<^verbatim>\<open>grow\<close>. Dialing is an argument; the bytes that a connection
  carries are not modelled.
\<close>

section \<open>State\<close>

definition StrategyRoundRobin :: string where "StrategyRoundRobin = ''round_robin''"

definition StrategyLeastConnections :: string where "StrategyLeastConnections = ''least_connections''"

record LbConfig =
  lb_HasStore :: bool
  lb_Service :: string
  lb_Strategy :: string

record Backend =
  be_Addr :: string
  be_Weight :: int
  be_Conns :: int
  be_Healthy :: bool
  be_LastChange :: time

type_synonym ptr = "nat \<times> nat"

record Balancer =
  bl_cfg :: LbConfig
  bl_heap :: "Backend list list"
  bl_array :: nat
  bl_len :: nat
  bl_stopped :: bool
  bl_closed :: bool

definition NewBalancer :: "LbConfig \<Rightarrow> Balancer" where
  "NewBalancer cfg =
     (let c = (if lb_Strategy cfg = [] then cfg\<lparr>lb_Strategy := StrategyRoundRobin\<rparr> else cfg)
      in \<lparr>bl_cfg = c, bl_heap = [[]], bl_array = 0, bl_len = 0, bl_stopped = False, bl_closed = False\<rparr>)"

definition deref :: "Balancer \<Rightarrow> ptr \<Rightarrow> Backend" where
  "deref b p = bl_heap b ! fst p ! snd p"

definition store_ptr :: "ptr \<Rightarrow> Backend \<Rightarrow> Balancer \<Rightarrow> Balancer" where
  "store_ptr p x b = b\<lparr>bl_heap := (bl_heap b)[fst p := (bl_heap b ! fst p)[snd p := x]]\<rparr>"

definition backends :: "Balancer \<Rightarrow> Backend list" where
  "backends b = take (bl_len b) (bl_heap b ! bl_array b)"

definition zero_backend :: Backend where
  "zero_backend = \<lparr>be_Addr = [], be_Weight = 0, be_Conns = 0, be_Healthy = False, be_LastChange = zero_time\<rparr>"

text \<open>\<^verbatim>\<open>append\<close> writes into the array while it has room and copies to a larger one otherwise.\<close>

definition append_backend :: "(nat \<Rightarrow> nat) \<Rightarrow> Backend \<Rightarrow> Balancer \<Rightarrow> Balancer" where
  "append_backend grow x b =
     (let arr = bl_heap b ! bl_array b; n = bl_len b in
      if n < length arr then (store_ptr (bl_array b, n) x b)\<lparr>bl_len := n + 1\<rparr>
      else b\<lparr>bl_heap := bl_heap b @ [take n arr @ x # replicate (grow n - (n + 1)) zero_backend],
             bl_array := length (bl_heap b), bl_len := n + 1\<rparr>)"

section \<open>Choosing a backend\<close>

definition healthy_ptrs :: "Balancer \<Rightarrow> ptr list" where
  "healthy_ptrs b = filter (\<lambda>p. be_Healthy (deref b p)) (map (\<lambda>i. (bl_array b, i)) [0..<bl_len b])"

fun least_loop :: "Balancer \<Rightarrow> ptr \<Rightarrow> ptr list \<Rightarrow> ptr" where
  "least_loop b best [] = best"
| "least_loop b best (p # ps) =
     least_loop b (if be_Conns (deref b p) < be_Conns (deref b best) then p else best) ps"

text \<open>\<^verbatim>\<open>nano\<close> is the current time in nanoseconds since 1970.\<close>

definition pick :: "Balancer \<Rightarrow> int \<Rightarrow> ptr outcome" where
  "pick b nano =
     (case healthy_ptrs b of
        [] \<Rightarrow> Err (ErrorString ''lb: no healthy backends'')
      | p # ps \<Rightarrow>
          if lb_Strategy (bl_cfg b) = StrategyLeastConnections then Ok (least_loop b p ps)
          else let idx = sgn nano * (\<bar>nano\<bar> mod int (length (p # ps)))
               in if idx < 0 then Panic ''index out of range'' else Ok ((p # ps) ! nat idx))"

section \<open>A connection\<close>

definition add_conns :: "int \<Rightarrow> ptr \<Rightarrow> Balancer \<Rightarrow> Balancer" where
  "add_conns d p b = store_ptr p ((deref b p)\<lparr>be_Conns := i32 (be_Conns (deref b p) + d)\<rparr>) b"

definition handle_open :: "int \<Rightarrow> Balancer \<Rightarrow> ptr option outcome \<times> Balancer" where
  "handle_open nano b =
     (case pick b nano of
        Err e \<Rightarrow> (Ok None, b)
      | Panic m \<Rightarrow> (Panic m, b)
      | Ok p \<Rightarrow> (Ok (Some p), add_conns 1 p b))"

definition handle_dial :: "bool \<Rightarrow> ptr \<Rightarrow> Balancer \<Rightarrow> Balancer" where
  "handle_dial up p b = (if up then b else store_ptr p ((deref b p)\<lparr>be_Healthy := False\<rparr>) b)"

definition handle_close :: "ptr \<Rightarrow> Balancer \<Rightarrow> Balancer" where
  "handle_close p b = add_conns (- 1) p b"

text \<open>A connection that nothing interrupts; \<^verbatim>\<open>up\<close> tells whether the backend can be dialed.\<close>

definition handle :: "bool \<Rightarrow> int \<Rightarrow> Balancer \<Rightarrow> unit outcome \<times> Balancer" where
  "handle up nano b =
     (case handle_open nano b of
        (Ok None, b1) \<Rightarrow> (Ok (), b1)
      | (Err e, b1) \<Rightarrow> (Err e, b1)
      | (Panic m, b1) \<Rightarrow> (Panic m, b1)
      | (Ok (Some p), b1) \<Rightarrow> (Ok (), handle_close p (handle_dial up p b1)))"

section \<open>Refresh and health checks\<close>

fun pick_service :: "'s ClusterStore \<Rightarrow> 's \<Rightarrow> string \<Rightarrow> Project list \<Rightarrow> Service option \<Rightarrow> Service option outcome" where
  "pick_service S s name [] svc = Ok svc"
| "pick_service S s name (p # ps) svc =
     (case cs_ListServices S (p_ID p) s of
        Panic m \<Rightarrow> Panic m
      | r \<Rightarrow> pick_service S s name ps
               (case find (\<lambda>v. sv_ID v = name \<or> sv_Name v = name) (or_nil r) of
                  Some v \<Rightarrow> Some v
                | None \<Rightarrow> svc))"

definition ready_addrs :: "Service \<Rightarrow> StatePlacement list \<Rightarrow> string list" where
  "ready_addrs svc ps =
     map (\<lambda>p. pl_NodeID p @ '':'' @ FormatInt (sv_Port svc)) (filter (\<lambda>p. pl_Status p = ''Ready'') ps)"

text \<open>The \<^verbatim>\<open>i\<close>-th reading of the clock is \<^verbatim>\<open>clock i\<close>.\<close>

definition new_backends :: "(nat \<Rightarrow> time) \<Rightarrow> string list \<Rightarrow> Backend list" where
  "new_backends clock addrs =
     map (\<lambda>(i, a). \<lparr>be_Addr = a, be_Weight = 0, be_Conns = 0, be_Healthy = True, be_LastChange = clock i\<rparr>)
       (zip [0..<length addrs] addrs)"

definition refresh ::
  "(nat \<Rightarrow> nat) \<Rightarrow> 's ClusterStore \<Rightarrow> 's \<Rightarrow> (nat \<Rightarrow> time) \<Rightarrow> Balancer \<Rightarrow> unit outcome \<times> Balancer" where
  "refresh grow S s clock b =
     (case cs_ListProjects S s of
        Err e \<Rightarrow> (Ok (), b)
      | Panic m \<Rightarrow> (Panic m, b)
      | Ok projects \<Rightarrow>
          (case pick_service S s (lb_Service (bl_cfg b)) projects None of
             Panic m \<Rightarrow> (Panic m, b)
           | Err e \<Rightarrow> (Err e, b)
           | Ok None \<Rightarrow> (Ok (), b)
           | Ok (Some svc) \<Rightarrow>
               (case cs_GetPlacements S (sv_WorkloadID svc) s of
                  Panic m \<Rightarrow> (Panic m, b)
                | r \<Rightarrow> (Ok (), fold (append_backend grow) (new_backends clock (ready_addrs svc (or_nil r)))
                          (b\<lparr>bl_len := 0\<rparr>)))))"

definition check_one :: "(nat \<Rightarrow> bool) \<Rightarrow> (nat \<Rightarrow> time) \<Rightarrow> nat \<Rightarrow> Balancer \<Rightarrow> Balancer" where
  "check_one up clock i b =
     (let p = (bl_array b, i); x = deref b p in
      if \<not> up i then
        (if be_Healthy x then store_ptr p (x\<lparr>be_Healthy := False, be_LastChange := clock i\<rparr>) b else b)
      else if \<not> be_Healthy x then store_ptr p (x\<lparr>be_Healthy := True, be_LastChange := clock i\<rparr>) b
      else b)"

definition healthCheck :: "(nat \<Rightarrow> bool) \<Rightarrow> (nat \<Rightarrow> time) \<Rightarrow> Balancer \<Rightarrow> Balancer" where
  "healthCheck up clock b = fold (check_one up clock) [0..<bl_len b] b"

text \<open>A tick of \<^verbatim>\<open>Run\<close>, the start of \<^verbatim>\<open>Serve\<close> and its reaction to a failed accept, and \<^verbatim>\<open>Close\<close>.\<close>

definition run_tick ::
  "(nat \<Rightarrow> nat) \<Rightarrow> 's ClusterStore \<Rightarrow> 's \<Rightarrow> (nat \<Rightarrow> time) \<Rightarrow> (nat \<Rightarrow> bool) \<Rightarrow> (nat \<Rightarrow> time) \<Rightarrow> Balancer \<Rightarrow> unit outcome \<times> Balancer" where
  "run_tick grow S s clock up clock' b =
     (if \<not> lb_HasStore (bl_cfg b) then (Err (ErrorString ''lb: store required''), b)
      else case refresh grow S s clock b of
             (Ok (), b1) \<Rightarrow> (Ok (), healthCheck up clock' b1)
           | r \<Rightarrow> r)"

definition serve_start ::
  "(nat \<Rightarrow> nat) \<Rightarrow> 's ClusterStore \<Rightarrow> 's \<Rightarrow> (nat \<Rightarrow> time) \<Rightarrow> Balancer \<Rightarrow> unit outcome \<times> Balancer" where
  "serve_start grow S s clock b = (if lb_HasStore (bl_cfg b) then refresh grow S s clock b else (Ok (), b))"

definition serve_accept_error :: "go_error \<Rightarrow> Balancer \<Rightarrow> unit outcome" where
  "serve_accept_error e b = (if bl_closed b then Ok () else Err e)"

definition Close :: "Balancer \<Rightarrow> unit outcome \<times> Balancer" where
  "Close b =
     (let b1 = b\<lparr>bl_closed := True\<rparr> in
      if bl_stopped b1 then (Panic ''close of closed channel'', b1) else (Ok (), b1\<lparr>bl_stopped := True\<rparr>))"

section \<open>The slice\<close>

definition lb_wf :: "Balancer \<Rightarrow> bool" where
  "lb_wf b \<longleftrightarrow> bl_array b < length (bl_heap b) \<and> bl_len b \<le> length (bl_heap b ! bl_array b)"

lemma length_backends [simp]: "lb_wf b \<Longrightarrow> length (backends b) = bl_len b"
  by (simp add: lb_wf_def backends_def)

lemma deref_backends: "lb_wf b \<Longrightarrow> i < bl_len b \<Longrightarrow> deref b (bl_array b, i) = backends b ! i"
  by (simp add: deref_def backends_def)

lemma store_ptr_fields [simp]:
  "bl_array (store_ptr p x b) = bl_array b" "bl_len (store_ptr p x b) = bl_len b"
  "bl_cfg (store_ptr p x b) = bl_cfg b"
  by (simp_all add: store_ptr_def)

lemma lb_wf_store_ptr [simp]: "lb_wf (store_ptr p x b) = lb_wf b"
  by (cases "fst p = bl_array b") (auto simp: lb_wf_def store_ptr_def nth_list_update)

lemma backends_store_ptr:
  "lb_wf b \<Longrightarrow> backends (store_ptr (bl_array b, i) x b) = (backends b)[i := x]"
  by (simp add: lb_wf_def backends_def store_ptr_def take_update_swap)

lemma append_backend:
  assumes "lb_wf b"
  shows "lb_wf (append_backend grow x b)" and "backends (append_backend grow x b) = backends b @ [x]"
    and "bl_cfg (append_backend grow x b) = bl_cfg b"
  using assms
  by (auto simp: lb_wf_def backends_def append_backend_def Let_def store_ptr_def nth_append take_Suc_conv_app_nth
      nth_list_update take_update_cancel)

lemma append_backends:
  assumes "lb_wf b"
  shows "lb_wf (fold (append_backend grow) xs b) \<and> backends (fold (append_backend grow) xs b) = backends b @ xs
    \<and> bl_cfg (fold (append_backend grow) xs b) = bl_cfg b"
  using assms by (induction xs arbitrary: b) (simp_all add: append_backend)

lemma append_in_place:
  assumes "lb_wf b" and "bl_len b + length xs \<le> length (bl_heap b ! bl_array b)"
  shows "bl_array (fold (append_backend grow) xs b) = bl_array b"
  using assms
proof (induction xs arbitrary: b)
  case (Cons x xs)
  let ?b = "append_backend grow x b"
  have "bl_array ?b = bl_array b" "bl_len ?b + length xs \<le> length (bl_heap ?b ! bl_array ?b)"
    using Cons.prems by (simp_all add: append_backend_def Let_def store_ptr_def lb_wf_def)
  with Cons append_backend(1) [OF Cons.prems(1)] show ?case by simp
qed simp

section \<open>Choosing a backend\<close>

lemma least_loop_spec:
  "least_loop b best ps \<in> set (best # ps)
    \<and> (\<forall>q \<in> set (best # ps). be_Conns (deref b (least_loop b best ps)) \<le> be_Conns (deref b q))"
proof (induction ps arbitrary: best)
  case (Cons p ps)
  show ?case
  proof (cases "be_Conns (deref b p) < be_Conns (deref b best)")
    case True
    with Cons [of p] show ?thesis by auto
  next
    case False
    with Cons [of best] show ?thesis by auto
  qed
qed simp

lemma rem_index: "0 < n \<Longrightarrow> sgn (x :: int) * (\<bar>x\<bar> mod int n) < int n"
proof -
  assume "0 < n"
  then have "0 \<le> \<bar>x\<bar> mod int n" "\<bar>x\<bar> mod int n < int n" by simp_all
  then show ?thesis by (cases "0 < x"; cases "x = 0") (simp_all add: sgn_if)
qed

lemma pick_mem:
  assumes "pick b nano = Ok p"
  shows "p \<in> set (healthy_ptrs b)"
proof -
  obtain q qs where c: "healthy_ptrs b = q # qs" using assms by (cases "healthy_ptrs b") (simp_all add: pick_def)
  show ?thesis
  proof (cases "lb_Strategy (bl_cfg b) = StrategyLeastConnections")
    case True
    then show ?thesis using assms c least_loop_spec [of b q qs] by (simp add: pick_def)
  next
    case False
    let ?i = "sgn nano * (\<bar>nano\<bar> mod int (length (q # qs)))"
    have i: "0 \<le> ?i" "p = (q # qs) ! nat ?i"
      using assms c False by (simp_all add: pick_def Let_def split: if_splits)
    have "nat ?i < length (q # qs)" using rem_index [of "length (q # qs)" nano] i(1) by (simp add: nat_less_iff)
    then show ?thesis unfolding c i(2) by (rule nth_mem)
  qed
qed

lemma pick_least:
  "pick b nano = Ok p \<Longrightarrow> lb_Strategy (bl_cfg b) = StrategyLeastConnections \<Longrightarrow>
    q \<in> set (healthy_ptrs b) \<Longrightarrow> be_Conns (deref b p) \<le> be_Conns (deref b q)"
  using least_loop_spec [of b "hd (healthy_ptrs b)" "tl (healthy_ptrs b)"]
  by (cases "healthy_ptrs b") (auto simp: pick_def)

text \<open>
  A connection is given a healthy backend of the current list, with the fewest connections
  under that strategy; it is refused only when no backend is healthy, and the choice does not panic.
\<close>

theorem pick_is_healthy:
  assumes "0 \<le> nano"
  shows "case pick b nano of
      Ok p \<Rightarrow> p \<in> set (healthy_ptrs b)
        \<and> (lb_Strategy (bl_cfg b) = StrategyLeastConnections \<longrightarrow>
             (\<forall>q \<in> set (healthy_ptrs b). be_Conns (deref b p) \<le> be_Conns (deref b q)))
    | Err e \<Rightarrow> healthy_ptrs b = []
    | Panic m \<Rightarrow> False"
proof (cases "pick b nano")
  case (Ok p)
  then show ?thesis using pick_mem [OF Ok] pick_least [OF Ok] by simp
next
  case (Err e)
  then show ?thesis by (simp add: pick_def Let_def split: list.splits if_splits)
next
  case (Panic m)
  have "\<not> sgn nano * (\<bar>nano\<bar> mod int n) < 0" if "0 < n" for n
    using assms that by (cases "nano = 0") (simp_all add: not_less)
  from this [of "length (healthy_ptrs b)"] Panic show ?thesis
    by (cases "healthy_ptrs b") (simp_all add: pick_def Let_def split: if_splits)
qed

section \<open>Counting connections\<close>













section \<open>Refresh\<close>

lemma refresh_backends:
  assumes "lb_wf b" and "cs_ListProjects S s = Ok projects"
    and "pick_service S s (lb_Service (bl_cfg b)) projects None = Ok (Some svc)"
    and "cs_GetPlacements S (sv_WorkloadID svc) s = Ok ps"
  shows "\<exists>b'. refresh grow S s clock b = (Ok (), b') \<and> lb_wf b'
    \<and> backends b' = new_backends clock (ready_addrs svc ps)
    \<and> (length (ready_addrs svc ps) \<le> length (bl_heap b ! bl_array b) \<longrightarrow> bl_array b' = bl_array b)"
proof -
  let ?xs = "new_backends clock (ready_addrs svc ps)" and ?b0 = "b\<lparr>bl_len := 0\<rparr>"
  have wf: "lb_wf ?b0" "backends ?b0 = []" using assms(1) by (simp_all add: lb_wf_def backends_def)
  have "length ?xs = length (ready_addrs svc ps)" by (simp add: new_backends_def)
  with append_backends [OF wf(1), of grow ?xs] append_in_place [OF wf(1), of ?xs grow] assms(2-) wf(2)
  show ?thesis by (simp add: refresh_def or_nil_def)
qed

text \<open>
  A refresh that finds room in the old array rewrites the slots that open connections point
  to: when such a connection ends, the new first backend, which has no connection, counts -1.
\<close>

theorem refresh_miscounts_connections:
  assumes "lb_wf b" and "cs_ListProjects S s = Ok projects"
    and "pick_service S s (lb_Service (bl_cfg b)) projects None = Ok (Some svc)"
    and "cs_GetPlacements S (sv_WorkloadID svc) s = Ok ps" and "ready_addrs svc ps \<noteq> []"
    and "length (ready_addrs svc ps) \<le> length (bl_heap b ! bl_array b)"
  shows "\<exists>b'. refresh grow S s clock b = (Ok (), b') \<and> be_Conns (backends b' ! 0) = 0
    \<and> be_Conns (backends (handle_close (bl_array b, 0) b') ! 0) = - 1"
proof -
  from refresh_backends [OF assms(1-4), of grow clock] assms(6) obtain b' where
    b': "refresh grow S s clock b = (Ok (), b')" "lb_wf b'"
      "backends b' = new_backends clock (ready_addrs svc ps)" "bl_array b' = bl_array b" by blast
  obtain a as where a: "ready_addrs svc ps = a # as" using assms(5) by (cases "ready_addrs svc ps") auto
  have l: "0 < length (backends b')" using b'(3) a by (simp add: new_backends_def)
  then have "0 < bl_len b'" using b'(2) by simp
  moreover have z: "be_Conns (backends b' ! 0) = 0"
    using a by (simp add: b'(3) new_backends_def upt_conv_Cons)
  ultimately have "be_Conns (backends (handle_close (bl_array b, 0) b') ! 0) = - 1"
    using b'(2) l by (simp add: handle_close_def add_conns_def b'(4) [symmetric] backends_store_ptr deref_backends i32_def)
  with b'(1) z show ?thesis by blast
qed

section \<open>Examples\<close>

text \<open>A balancer with one backend, and a store whose only service has one ready placement.\<close>

definition demo_backend :: Backend where
  "demo_backend = \<lparr>be_Addr = ''n1:80'', be_Weight = 0, be_Conns = 0, be_Healthy = True, be_LastChange = 0\<rparr>"

definition demo_balancer :: Balancer where
  "demo_balancer =
     \<lparr>bl_cfg = \<lparr>lb_HasStore = True, lb_Service = ''web'', lb_Strategy = StrategyLeastConnections\<rparr>,
      bl_heap = [[demo_backend]], bl_array = 0, bl_len = 1, bl_stopped = False, bl_closed = False\<rparr>"

definition demo_service :: Service where
  "demo_service = \<lparr>sv_ID = ''web'', sv_Name = ''web'', sv_ProjectID = ''p'', sv_WorkloadID = ''w'', sv_Port = 80\<rparr>"

definition demo_lb_store :: "unit ClusterStore" where
  "demo_lb_store =
     \<lparr>cs_ListProjects = (\<lambda>_. Ok [\<lparr>p_ID = ''p'', p_Name = ''p'', p_Description = [], p_QuotaCPU = 0, p_QuotaMem = 0,
        p_QuotaObj = 0\<rparr>]),
      cs_ListWorkloads = (\<lambda>_ _. Ok []), cs_GetWorkload = (\<lambda>_ _ _. Err (ErrorString ''not found'')),
      cs_UpdateWorkload = (\<lambda>_ s. (Ok (), s)), cs_SetPlacements = (\<lambda>_ _ s. (Ok (), s)),
      cs_GetPlacements = (\<lambda>_ _. Ok [\<lparr>pl_ID = ''w-0'', pl_Name = ''w-0'', pl_ProjectID = ''p'', pl_WorkloadID = ''w'',
        pl_NodeID = ''n1'', pl_ReplicaIdx = 0, pl_Status = ''Ready''\<rparr>]),
      cs_ListNodes = (\<lambda>_. Ok []), cs_GetNode = (\<lambda>_ _. Err (ErrorString ''not found'')),
      cs_UpsertNode = (\<lambda>_ s. (Ok (), s)), cs_ListServices = (\<lambda>_ _. Ok [demo_service]),
      cs_ListDNS = (\<lambda>_ _. Ok []), cs_PutDNS = (\<lambda>_ s. (Ok (), s))\<rparr>"

lemma demo_balancer:
  "lb_wf demo_balancer" "backends demo_balancer = [demo_backend]" "healthy_ptrs demo_balancer = [(0, 0)]"
  "pick demo_balancer 0 = Ok (0, 0)"
  by (simp_all add: demo_balancer_def lb_wf_def backends_def healthy_ptrs_def pick_def deref_def demo_backend_def)

theorem pick_is_healthy_witness:
  "\<exists>p. pick demo_balancer 7 = Ok p \<and> p \<in> set (healthy_ptrs demo_balancer)"
proof -
  have h: "healthy_ptrs demo_balancer \<noteq> []" by (simp add: demo_balancer(3))
  show ?thesis using pick_is_healthy [of 7 demo_balancer] h by (cases "pick demo_balancer 7") auto
qed


theorem refresh_miscounts_connections_witness:
  "\<exists>b'. refresh (\<lambda>n. 2 * n) demo_lb_store () (\<lambda>_. 5) demo_balancer = (Ok (), b') \<and> be_Conns (backends b' ! 0) = 0
    \<and> be_Conns (backends (handle_close (bl_array demo_balancer, 0) b') ! 0) = - 1"
proof -
  define ps where "ps = or_nil (cs_GetPlacements demo_lb_store ''w'' ())"
  define projects where "projects = or_nil (cs_ListProjects demo_lb_store ())"
  have p: "cs_ListProjects demo_lb_store () = Ok projects" "cs_GetPlacements demo_lb_store (sv_WorkloadID demo_service) () = Ok ps"
    by (simp_all add: ps_def projects_def or_nil_def demo_lb_store_def)
  have s: "pick_service demo_lb_store () (lb_Service (bl_cfg demo_balancer)) projects None = Ok (Some demo_service)"
    by (simp add: projects_def or_nil_def demo_lb_store_def demo_balancer_def demo_service_def)
  have a: "ready_addrs demo_service ps \<noteq> []"
      "length (ready_addrs demo_service ps) \<le> length (bl_heap demo_balancer ! bl_array demo_balancer)"
    by (simp_all add: ps_def or_nil_def demo_lb_store_def ready_addrs_def demo_balancer_def)
  show ?thesis by (rule refresh_miscounts_connections [OF demo_balancer(1) p(1) s p(2) a])
qed

end
