(* ===== verification/Observability.thy ===== *)
theory Observability
  imports GoText GoFloat
begin

text \<open>
  The metrics registry, the log ring and the span recorder of \<^verbatim>\<open>internal/primitives/obs/metrics.go\<close>. A map is a
  list whose order is the order of \<^verbatim>\<open>range\<close>; a sort with equal keys leaves them in any order, which the
  stable sort of a list in any order gives. The text format is in \<^verbatim>\<open>Exposition\<close>.
\<close>

section \<open>Metrics\<close>

record Metric =
  me_Name :: string
  me_Help :: string
  me_Type :: string
  me_Labels :: "(string, string) gomap"
  me_Value :: float64
  me_Buckets :: "float64 list"
  me_BucketCounts :: "u64 list"
  me_Sum :: float64
  me_Count :: u64

type_synonym Metrics = "(string, Metric) gomap"

definition NewMetrics :: Metrics where
  "NewMetrics = []"

text \<open>A missing label of a map read reads as the empty string.\<close>

definition label_value :: "(string, string) gomap \<Rightarrow> string \<Rightarrow> string" where
  "label_value labels k = (case mget labels k of Some v \<Rightarrow> v | None \<Rightarrow> [])"

definition metricKey :: "string \<Rightarrow> (string, string) gomap \<Rightarrow> string" where
  "metricKey name labels =
     name @ concat (map (\<lambda>k. ''|'' @ k @ ''='' @ label_value labels k) (sort (mkeys labels)))"

definition copyMap :: "(string, string) gomap \<Rightarrow> (string, string) gomap" where
  "copyMap labels = fold (\<lambda>(k, v) out. mput k v out) labels []"

definition mergeLabels :: "(string, string) gomap \<Rightarrow> (string, string) gomap \<Rightarrow> (string, string) gomap" where
  "mergeLabels a b = fold (\<lambda>(k, v) out. mput k v out) b (fold (\<lambda>(k, v) out. mput k v out) a [])"

definition new_metric :: "string \<Rightarrow> string \<Rightarrow> (string, string) gomap \<Rightarrow> Metric" where
  "new_metric name ty labels =
     \<lparr>me_Name = name, me_Help = [], me_Type = ty, me_Labels = copyMap labels, me_Value = Fin 0, me_Buckets = [],
      me_BucketCounts = [], me_Sum = Fin 0, me_Count = 0\<rparr>"

definition Set :: "string \<Rightarrow> float64 \<Rightarrow> (string, string) gomap \<Rightarrow> Metrics \<Rightarrow> Metrics" where
  "Set name v labels m =
     (let key = metricKey name labels in
      case mget m key of
        None \<Rightarrow> mput key ((new_metric name ''counter'' labels)\<lparr>me_Value := v\<rparr>) m
      | Some cur \<Rightarrow> mput key (cur\<lparr>me_Value := v\<rparr>) m)"

definition Get_metric :: "string \<Rightarrow> (string, string) gomap \<Rightarrow> Metrics \<Rightarrow> float64" where
  "Get_metric name labels m =
     (case mget m (metricKey name labels) of None \<Rightarrow> Fin 0 | Some cur \<Rightarrow> me_Value cur)"

definition Add_metric :: "string \<Rightarrow> float64 \<Rightarrow> (string, string) gomap \<Rightarrow> Metrics \<Rightarrow> Metrics" where
  "Add_metric name delta labels m = Set name (f64_add (Get_metric name labels m) delta) labels m"

definition Incr :: "string \<Rightarrow> (string, string) gomap \<Rightarrow> Metrics \<Rightarrow> Metrics" where
  "Incr name labels m = Add_metric name (Fin 1) labels m"

text \<open>
  The counts of the buckets whose bound holds the sample, then the last one; \<^term>\<open>None\<close> is an index out of range,
  which a metric made by \<^verbatim>\<open>Set\<close> has: it has no bucket counts.
\<close>

definition count_buckets :: "float64 \<Rightarrow> float64 list \<Rightarrow> u64 list \<Rightarrow> u64 list option" where
  "count_buckets v buckets counts =
     (if length counts = 0 \<or> length counts < length buckets then None
      else
        let c1 = map (\<lambda>(i, c). if i < length buckets \<and> f64_le v (buckets ! i) then c + 1 else c)
                   (zip [0..<length counts] counts)
        in Some (c1[length c1 - 1 := c1 ! (length c1 - 1) + 1]))"

definition Observe :: "string \<Rightarrow> float64 \<Rightarrow> (string, string) gomap \<Rightarrow> float64 list \<Rightarrow> Metrics \<Rightarrow> unit outcome \<times> Metrics" where
  "Observe name v labels buckets m =
     (let key = metricKey name labels;
          cur = (case mget m key of
                   Some c \<Rightarrow> c
                 | None \<Rightarrow> (new_metric name ''histogram'' labels)\<lparr>me_Buckets := buckets,
                              me_BucketCounts := replicate (length buckets + 1) 0\<rparr>);
          m1 = mput key cur m
      in case count_buckets v (me_Buckets cur) (me_BucketCounts cur) of
           None \<Rightarrow> (Panic ''index out of range'', m1)
         | Some counts \<Rightarrow>
             (Ok (), mput key (cur\<lparr>me_BucketCounts := counts, me_Sum := f64_add (me_Sum cur) v,
                                   me_Count := me_Count cur + 1\<rparr>) m1))"

fun sum_named :: "string \<Rightarrow> Metric list \<Rightarrow> float64 \<times> nat \<Rightarrow> float64 \<times> nat" where
  "sum_named name [] acc = acc"
| "sum_named name (v # vs) (tot, n) =
     (if me_Name v \<noteq> name then sum_named name vs (tot, n)
      else sum_named name vs (f64_add tot (me_Value v), n + 1))"

definition AvgCPU :: "string \<Rightarrow> Metrics \<Rightarrow> float64" where
  "AvgCPU name m =
     (case sum_named name (map snd m) (Fin 0, 0) of
        (tot, n) \<Rightarrow> if n = 0 then Fin 0 else f64_div tot (f64_of_int (int n)))"

definition Snapshot :: "Metrics \<Rightarrow> Metric list" where
  "Snapshot m = sort_key me_Name (map snd m)"

section \<open>Logs\<close>

record LogRecord =
  lo_Time :: time
  lo_Level :: string
  lo_Message :: string
  lo_Labels :: "(string, string) gomap"

record Logs =
  lg_ring :: "LogRecord list"
  lg_next :: int
  lg_full :: bool
  lg_maxSize :: int

definition zero_record :: LogRecord where
  "zero_record = \<lparr>lo_Time = zero_time, lo_Level = [], lo_Message = [], lo_Labels = []\<rparr>"

definition NewLogs :: "int \<Rightarrow> Logs" where
  "NewLogs maxSize =
     (let n = (if maxSize \<le> 0 then 1024 else maxSize)
      in \<lparr>lg_ring = replicate (nat n) zero_record, lg_next = 0, lg_full = False, lg_maxSize = n\<rparr>)"

definition Append_log :: "LogRecord \<Rightarrow> Logs \<Rightarrow> Logs" where
  "Append_log r l =
     (let nx = (lg_next l + 1) mod lg_maxSize l
      in l\<lparr>lg_ring := (lg_ring l)[nat (lg_next l) := r], lg_next := nx, lg_full := (if nx = 0 then True else lg_full l)\<rparr>)"

definition Tail :: "int \<Rightarrow> Logs \<Rightarrow> LogRecord list outcome" where
  "Tail n0 l =
     (let n = (if n0 > lg_maxSize l then lg_maxSize l else n0);
          count = (if \<not> lg_full l then lg_next l else lg_maxSize l)
      in if n < 0 then Panic ''makeslice: cap out of range''
         else Ok (map (\<lambda>i. let idx = lg_next l - 1 - int i;
                                idx' = (if idx < 0 then idx + lg_maxSize l else idx)
                            in lg_ring l ! nat idx')
                   [0..<nat (min n count)]))"

section \<open>Traces\<close>

record Span =
  sp_TraceID :: string
  sp_SpanID :: string
  sp_ParentID :: string
  sp_Name :: string
  sp_StartTime :: time
  sp_EndTime :: time
  sp_Attributes :: "(string, string) gomap"
  sp_Status :: string

record Tracer =
  tr_spans :: "Span list"

definition NewTracer :: Tracer where
  "NewTracer = \<lparr>tr_spans = []\<rparr>"

text \<open>A builder is the span it holds; its tracer is an argument of \<^verbatim>\<open>End\<close>.\<close>

definition Start_span :: "time \<Rightarrow> string \<Rightarrow> Span" where
  "Start_span now name =
     \<lparr>sp_TraceID = [], sp_SpanID = [], sp_ParentID = [], sp_Name = name, sp_StartTime = now, sp_EndTime = zero_time,
      sp_Attributes = [], sp_Status = []\<rparr>"

definition WithTraceID :: "string \<Rightarrow> Span \<Rightarrow> Span" where
  "WithTraceID i sp = sp\<lparr>sp_TraceID := i\<rparr>"

definition WithParent :: "string \<Rightarrow> Span \<Rightarrow> Span" where
  "WithParent i sp = sp\<lparr>sp_ParentID := i\<rparr>"

definition WithAttr :: "string \<Rightarrow> string \<Rightarrow> Span \<Rightarrow> Span" where
  "WithAttr k v sp = sp\<lparr>sp_Attributes := mput k v (sp_Attributes sp)\<rparr>"

definition End_span :: "time \<Rightarrow> string \<Rightarrow> Span \<Rightarrow> Tracer \<Rightarrow> Span \<times> Tracer" where
  "End_span now status sp t =
     (let sp1 = sp\<lparr>sp_EndTime := now\<rparr>;
          sp2 = (if status \<noteq> [] then sp1\<lparr>sp_Status := status\<rparr> else sp1)
      in (sp2, t\<lparr>tr_spans := tr_spans t @ [sp2]\<rparr>))"

definition Spans :: "Tracer \<Rightarrow> Span list" where
  "Spans t = tr_spans t"

section \<open>What the registry keeps\<close>

lemma metricKey_perm:
  assumes "mwf labels" and "mset labels = mset labels'"
  shows "metricKey name labels = metricKey name labels'"
proof -
  have "mwf labels'" using assms by (metis mset_map mset_eq_imp_distinct_iff mwf_def)
  have keys: "sort (mkeys labels) = sort (mkeys labels')"
    using assms(2) by (simp add: mkeys_def properties_for_sort mset_map [symmetric] del: mset_map)
      (metis mset_map properties_for_sort mset_sort sorted_sort)
  have "mget labels k = mget labels' k" for k
    using assms mget_in_set [OF assms(1)] mget_in_set [OF \<open>mwf labels'\<close>] mset_eq_setD [OF assms(2)]
    by (cases "mget labels k"; cases "mget labels' k") (metis option.distinct(1))+
  then show ?thesis by (simp add: metricKey_def keys label_value_def)
qed

text \<open>
  A metric reads as it was last set, in whatever order its labels are given, and setting it
  leaves every metric with another key as it was.
\<close>

theorem metric_get_set:
  assumes "mwf labels" and "mset labels' = mset labels"
  shows "Get_metric name labels' (Set name v labels m) = v
    \<and> (metricKey other olabels \<noteq> metricKey name labels \<longrightarrow>
        Get_metric other olabels (Set name v labels m) = Get_metric other olabels m)"
  using metricKey_perm [OF assms(1) assms(2) [symmetric]]
  by (auto simp: Get_metric_def Set_def Let_def split: option.splits)

theorem metric_get_set_witness:
  "Get_metric ''cpu'' [(''b'', ''2''), (''a'', ''1'')] (Set ''cpu'' (Fin 3) [(''a'', ''1''), (''b'', ''2'')] NewMetrics) = Fin 3"
proof -
  have "mwf [(''a'', ''1''), (''b'', ''2'')]" by (simp add: mwf_def)
  then show ?thesis using metric_get_set [of "[(''a'', ''1''), (''b'', ''2'')]" "[(''b'', ''2''), (''a'', ''1'')]" "''cpu''" "Fin 3"]
    by simp
qed

section \<open>The log ring\<close>

text \<open>The ring after records \<^verbatim>\<open>rs\<close>: the newest record stands before \<^verbatim>\<open>next\<close>, older ones behind it, around the end.\<close>

definition ring_ok :: "nat \<Rightarrow> LogRecord list \<Rightarrow> Logs \<Rightarrow> bool" where
  "ring_ok n rs l \<longleftrightarrow>
     0 < n \<and> lg_maxSize l = int n \<and> length (lg_ring l) = n \<and> lg_next l = int (length rs mod n)
     \<and> (lg_full l \<longleftrightarrow> n \<le> length rs)
     \<and> (\<forall>j < min (length rs) n. lg_ring l ! ((length rs - 1 - j) mod n) = rev rs ! j)"

lemma mod_shift_neq: "0 < j \<Longrightarrow> j < n \<Longrightarrow> j \<le> (k :: nat) \<Longrightarrow> (k - j) mod n \<noteq> k mod n"
proof
  assume j: "0 < j" "j < n" "j \<le> k" and "(k - j) mod n = k mod n"
  then have "n dvd k - (k - j)" by (metis diff_le_self mod_eq_dvd_iff_nat)
  with j show False by (simp add: nat_dvd_not_less)
qed

lemma ring_ok_New: "ring_ok (nat (lg_maxSize (NewLogs k))) [] (NewLogs k)"
  by (simp add: ring_ok_def NewLogs_def Let_def)

lemma full_after: "0 < (n :: nat) \<Longrightarrow> Suc k mod n = 0 \<or> n \<le> k \<longleftrightarrow> n \<le> Suc k"
  by (cases "Suc k < n") (auto simp: not_less le_Suc_eq dvd_imp_le mod_eq_0_iff_dvd)

lemma ring_ok_Append:
  assumes "ring_ok n rs l"
  shows "ring_ok n (rs @ [r]) (Append_log r l)"
proof -
  let ?k = "length rs"
  have n: "0 < n" "lg_maxSize l = int n" "length (lg_ring l) = n" "lg_next l = int (?k mod n)" "lg_full l \<longleftrightarrow> n \<le> ?k"
    and old: "\<And>j. j < ?k \<Longrightarrow> j < n \<Longrightarrow> lg_ring l ! ((?k - 1 - j) mod n) = rev rs ! j"
    using assms by (simp_all add: ring_ok_def)
  have nx: "(int (?k mod n) + 1) mod int n = int (Suc ?k mod n)"
    by (metis Suc_eq_plus1 mod_add_left_eq of_nat_1 of_nat_add zmod_int)
  have "(lg_ring l)[?k mod n := r] ! ((?k - j) mod n) = rev (rs @ [r]) ! j" if "j < Suc ?k" "j < n" for j
  proof (cases j)
    case 0
    then show ?thesis using n by simp
  next
    case (Suc i)
    have "(?k - j) mod n \<noteq> ?k mod n" using mod_shift_neq [of j n ?k] Suc that by simp
    then show ?thesis using old [of i] Suc that by simp
  qed
  then show ?thesis
    using n full_after [of n ?k] by (auto simp: ring_ok_def Append_log_def Let_def nx)
qed

lemma ring_ok_Appends: "ring_ok n rs l \<Longrightarrow> ring_ok n (rs @ xs) (fold Append_log xs l)"
proof (induction xs arbitrary: rs l)
  case (Cons x xs)
  from Cons.IH [OF ring_ok_Append [OF Cons.prems, of x]] show ?case by simp
qed simp

lemma ring_index:
  assumes "i < k" and "i < n"
  shows "nat (let idx = int (k mod n) - 1 - int i in if idx < 0 then idx + int n else idx) = (k - 1 - i) mod n"
proof -
  define q m where "q = k div n" and "m = k mod n"
  have k: "k = q * n + m" and m: "m < n" using assms(2) by (simp_all add: q_def m_def)
  show ?thesis
  proof (cases "i < m")
    case True
    then have "k - 1 - i = (m - 1 - i) + q * n" using k by arith
    then have "(k - 1 - i) mod n = m - 1 - i" using m by simp
    with True show ?thesis by (simp add: Let_def m_def [symmetric])
  next
    case False
    then obtain q' where q': "q = Suc q'" using assms(1) k by (cases q) auto
    then have "k = q' * n + n + m" using k by simp
    then have "k - 1 - i = (m + n - 1 - i) + q' * n" using False assms m by arith
    then have "(k - 1 - i) mod n = m + n - 1 - i" using False m by simp
    with False assms(2) show ?thesis by (simp add: Let_def m_def [symmetric])
  qed
qed

text \<open>
  The ring behaves as a list of everything appended that is read from its end: the tail of
  \<^verbatim>\<open>n\<close> records is the newest \<^verbatim>\<open>n\<close>, newest first, at most as many as the ring holds.
\<close>

theorem tail_is_newest:
  assumes "0 \<le> n"
  shows "Tail n (fold Append_log rs (NewLogs k)) =
    Ok (take (nat (min n (if k \<le> 0 then 1024 else k))) (rev rs))"
proof -
  define N where "N = nat (lg_maxSize (NewLogs k))"
  let ?l = "fold Append_log rs (NewLogs k)" and ?len = "length rs"
  have N: "int N = (if k \<le> 0 then 1024 else k)" by (simp add: N_def NewLogs_def Let_def)
  have "ring_ok N rs ?l" using ring_ok_Appends [OF ring_ok_New [of k], of rs] by (simp add: N_def)
  then have l: "0 < N" "lg_maxSize ?l = int N" "lg_next ?l = int (?len mod N)" "lg_full ?l \<longleftrightarrow> N \<le> ?len"
    and r: "\<And>j. j < ?len \<Longrightarrow> j < N \<Longrightarrow> lg_ring ?l ! ((?len - 1 - j) mod N) = rev rs ! j"
    by (simp_all add: ring_ok_def)
  define c where "c = nat (min (min n (int N)) (int (min ?len N)))"
  have count: "(if \<not> lg_full ?l then lg_next ?l else lg_maxSize ?l) = int (min ?len N)"
    using l by simp
  have n: "(if n > lg_maxSize ?l then lg_maxSize ?l else n) = min n (int N)" by (simp add: l(2) min_def)
  have "Tail n ?l = Ok (map (\<lambda>i. lg_ring ?l ! ((?len - 1 - i) mod N)) [0..<c])"
    unfolding Tail_def count n c_def using assms ring_index [of _ ?len N] by (simp add: l(2,3) Let_def cong: if_cong)
  also have "map (\<lambda>i. lg_ring ?l ! ((?len - 1 - i) mod N)) [0..<c] = map (\<lambda>i. rev rs ! i) [0..<c]"
  proof (rule map_cong [OF refl])
    fix i
    assume "i \<in> set [0..<c]"
    then have "i < ?len" "i < N" by (auto simp: c_def)
    then show "lg_ring ?l ! ((?len - 1 - i) mod N) = rev rs ! i" by (rule r)
  qed
  also have "map (\<lambda>i. rev rs ! i) [0..<c] = take c (rev rs)"
    by (rule nth_equalityI) (simp_all add: c_def)
  also have "take c (rev rs) = take (nat (min n (int N))) (rev rs)"
    by (cases "nat (min n (int N)) \<le> ?len") (simp_all add: c_def min_def)
  finally show ?thesis unfolding N .
qed

theorem tail_is_newest_witness:
  "Tail 2 (fold Append_log [zero_record, zero_record\<lparr>lo_Level := ''i''\<rparr>, zero_record\<lparr>lo_Level := ''w''\<rparr>] (NewLogs 2)) =
    Ok [zero_record\<lparr>lo_Level := ''w''\<rparr>, zero_record\<lparr>lo_Level := ''i''\<rparr>]"
  using tail_is_newest [of 2 "[zero_record, zero_record\<lparr>lo_Level := ''i''\<rparr>, zero_record\<lparr>lo_Level := ''w''\<rparr>]" 2]
  by (simp add: numeral_2_eq_2)

end
