(* ===== verification/Autoscale.thy ===== *)
theory Autoscale
  imports Observability StateTypes
begin

text \<open>
  The autoscaler, \<^verbatim>\<open>internal/autoscale/autoscale.go\<close>: policies, the replica count that a policy asks for, and
  one pass over all policies. The cluster store is an argument, and so are the two readings of the clock.
\<close>

record Policy =
  po_Min :: int
  po_Max :: int
  po_TargetCPU :: float64
  po_ScaleUpBy :: int
  po_ScaleDownBy :: int
  po_Cooldown :: duration

record Spec =
  sc_ProjectID :: string
  sc_WorkloadID :: string
  sc_Policy :: Policy
  sc_UpdatedAt :: time

record Autoscaler =
  au_specs :: "(string, Spec) gomap"
  au_lastAton :: "(string, time) gomap"


definition SetPolicy :: "string \<Rightarrow> string \<Rightarrow> Policy \<Rightarrow> time \<Rightarrow> Autoscaler \<Rightarrow> Autoscaler" where
  "SetPolicy projectID workloadID p now c =
     c\<lparr>au_specs := mput (projectID @ ''/'' @ workloadID)
         \<lparr>sc_ProjectID = projectID, sc_WorkloadID = workloadID, sc_Policy = p, sc_UpdatedAt = now\<rparr> (au_specs c)\<rparr>"

definition RemovePolicy :: "string \<Rightarrow> string \<Rightarrow> Autoscaler \<Rightarrow> Autoscaler" where
  "RemovePolicy projectID workloadID c = c\<lparr>au_specs := mdel (projectID @ ''/'' @ workloadID) (au_specs c)\<rparr>"

definition workloadMetricKey :: "string \<Rightarrow> string \<Rightarrow> string" where
  "workloadMetricKey projectID workloadID = ''workload_cpu_'' @ projectID @ ''_'' @ workloadID"

definition wanted :: "Policy \<Rightarrow> float64 \<Rightarrow> int \<Rightarrow> int" where
  "wanted p avg replicas =
     (let up = (if f64_less (po_TargetCPU p) avg \<and> replicas < po_Max p
                then (let w = i64 (replicas + po_ScaleUpBy p) in if w > po_Max p then po_Max p else w)
                else replicas)
      in if f64_less avg (f64_div (po_TargetCPU p) (Fin 2)) \<and> replicas > po_Min p
         then (let w = i64 (up - po_ScaleDownBy p) in if w < po_Min p then po_Min p else w)
         else up)"

definition evaluateOne ::
  "'s ClusterStore \<Rightarrow> Metrics \<Rightarrow> Spec \<Rightarrow> time \<Rightarrow> time \<Rightarrow> Autoscaler \<times> 's \<Rightarrow> unit outcome \<times> Autoscaler \<times> 's" where
  "evaluateOne S m sp now now' st =
     (case st of (c, s) \<Rightarrow>
        case cs_GetWorkload S (sc_ProjectID sp) (sc_WorkloadID sp) s of
          Err e \<Rightarrow> (Ok (), c, s)
        | Panic x \<Rightarrow> (Panic x, c, s)
        | Ok w \<Rightarrow>
            let avg = AvgCPU (workloadMetricKey (w_ProjectID w) (w_ID w)) m;
                want = wanted (sc_Policy sp) avg (w_Replicas w);
                key = w_ProjectID w @ ''/'' @ w_ID w;
                last = (case mget (au_lastAton c) key of Some t \<Rightarrow> t | None \<Rightarrow> zero_time)
            in if time_sub now last < po_Cooldown (sc_Policy sp) then (Ok (), c, s)
               else if want = w_Replicas w then (Ok (), c, s)
               else case cs_UpdateWorkload S (w\<lparr>w_Replicas := i32 want\<rparr>) s of
                      (Err e, s') \<Rightarrow> (Err e, c, s')
                    | (Panic x, s') \<Rightarrow> (Panic x, c, s')
                    | (Ok _, s') \<Rightarrow> (Ok (), c\<lparr>au_lastAton := mput key now' (au_lastAton c)\<rparr>, s'))"

text \<open>A pass takes the policies in the order of the map; an error of one is printed and the next is taken.\<close>

fun evaluate_specs ::
  "'s ClusterStore \<Rightarrow> Metrics \<Rightarrow> (nat \<Rightarrow> time) \<Rightarrow> nat \<Rightarrow> Spec list \<Rightarrow> Autoscaler \<times> 's \<Rightarrow> unit outcome \<times> Autoscaler \<times> 's" where
  "evaluate_specs S m clock i [] st = (Ok (), st)"
| "evaluate_specs S m clock i (sp # sps) st =
     (case evaluateOne S m sp (clock i) (clock (i + 1)) st of
        (Panic x, st') \<Rightarrow> (Panic x, st')
      | (Err e, st') \<Rightarrow> evaluate_specs S m clock (i + 2) sps st'
      | (Ok _, st') \<Rightarrow> evaluate_specs S m clock (i + 2) sps st')"

definition evaluate :: "'s ClusterStore \<Rightarrow> Metrics \<Rightarrow> (nat \<Rightarrow> time) \<Rightarrow> Autoscaler \<times> 's \<Rightarrow> unit outcome \<times> Autoscaler \<times> 's" where
  "evaluate S m clock st = evaluate_specs S m clock 0 (map snd (au_specs (fst st))) st"

definition run_interval :: "duration \<Rightarrow> duration" where
  "run_interval tick = (if tick = 0 then 15 * second else tick)"

section \<open>Bounds\<close>

text \<open>A policy whose numbers make sense: ordered bounds of 32 bits and steps that are not negative.\<close>

definition policy_ok :: "Policy \<Rightarrow> bool" where
  "policy_ok p \<longleftrightarrow> po_Min p \<le> po_Max p \<and> is_i32 (po_Min p) \<and> is_i32 (po_Max p)
     \<and> 0 \<le> po_ScaleUpBy p \<and> po_ScaleUpBy p < 2 ^ 62 \<and> 0 \<le> po_ScaleDownBy p \<and> po_ScaleDownBy p < 2 ^ 62"



section \<open>Progress\<close>

text \<open>
  Under a load that stays above the target, evaluations raise the replica count by the
  policy's step each time until the maximum is reached, after finitely many steps, and keep it there.
\<close>

theorem sustained_load_reaches_max:
  assumes "policy_ok p" and "f64_less (po_TargetCPU p) avg" and "\<not> f64_less avg (f64_div (po_TargetCPU p) (Fin 2))"
    and "po_Min p \<le> r" and "r \<le> po_Max p" and "0 < po_ScaleUpBy p"
  shows "(wanted p avg ^^ k) r = min (po_Max p) (r + int k * po_ScaleUpBy p)
    \<and> (nat (po_Max p - r) \<le> k \<longrightarrow> (wanted p avg ^^ k) r = po_Max p)"
proof -
  have step: "wanted p avg x = min (po_Max p) (x + po_ScaleUpBy p)" if "po_Min p \<le> x" "x \<le> po_Max p" for x
  proof -
    have "i64 (x + po_ScaleUpBy p) = x + po_ScaleUpBy p"
      using assms(1) that by (intro i64_id) (simp add: policy_ok_def is_i32_def is_i64_def)
    with assms that show ?thesis by (simp add: wanted_def Let_def min_def)
  qed
  have k: "(wanted p avg ^^ k) r = min (po_Max p) (r + int k * po_ScaleUpBy p)" for k
  proof (induction k)
    case 0
    then show ?case using assms(5) by simp
  next
    case (Suc k)
    have "0 \<le> int k * po_ScaleUpBy p" using assms(6) by simp
    then have "po_Min p \<le> r + int k * po_ScaleUpBy p" using assms(4) by linarith
    then have "po_Min p \<le> min (po_Max p) (r + int k * po_ScaleUpBy p)" using assms(1) by (simp add: policy_ok_def)
    then show ?case using Suc assms(6) by (simp add: step algebra_simps min_def)
  qed
  moreover have "po_Max p \<le> r + int k * po_ScaleUpBy p" if "nat (po_Max p - r) \<le> k"
  proof -
    have "po_Max p - r \<le> int k" using that by simp
    also have "int k \<le> int k * po_ScaleUpBy p" using assms(6) by (simp add: mult_le_cancel_left1)
    finally show ?thesis by simp
  qed
  ultimately show ?thesis by (simp add: min_def)
qed

section \<open>Examples\<close>

definition demo_policy :: Policy where
  "demo_policy = \<lparr>po_Min = 1, po_Max = 5, po_TargetCPU = Fin 50, po_ScaleUpBy = 2, po_ScaleDownBy = 1, po_Cooldown = 0\<rparr>"




lemma demo_policy_ok: "policy_ok demo_policy"
  by (simp add: policy_ok_def demo_policy_def is_i32_def)


theorem sustained_load_reaches_max_witness:
  "(wanted demo_policy (Fin 90) ^^ 2) 2 = 5 \<and> (wanted demo_policy (Fin 90) ^^ 3) 2 = 5"
proof -
  have d: "f64_div (po_TargetCPU demo_policy) (Fin 2) = Fin 25"
    using f64_of_int_exact [of 25] by (simp add: demo_policy_def f64_of_int_def)
  then have "f64_less (po_TargetCPU demo_policy) (Fin 90)" "\<not> f64_less (Fin 90) (f64_div (po_TargetCPU demo_policy) (Fin 2))"
    by (simp_all add: demo_policy_def)
  note s = sustained_load_reaches_max [OF demo_policy_ok this, of 2]
  show ?thesis using s [of 2] s [of 3] by (simp add: demo_policy_def)
qed

end
