(* ===== verification/ContainerRuntime.thy ===== *)
theory ContainerRuntime
  imports GoPrelude
begin

text \<open>
  The container runtime: the interface of \<^verbatim>\<open>internal/primitives/runtime/runtime.go\<close> as a record of operations over
  a state \<^typ>\<open>'r\<close>, what its clients rely on as a locale, and the in-memory implementation of
  \<^verbatim>\<open>runtime/fake/fake.go\<close>, on which the locale is interpreted. A container object outlives its entry in the
  map, because the goroutines that \<^verbatim>\<open>Start\<close> spawns keep it; so the objects are a list and the map holds
  their places. The steps of the goroutines are definitions of their own.
\<close>

section \<open>The interface\<close>

record Mount =
  mo_HostPath :: string
  mo_MountPath :: string
  mo_ReadOnly :: bool

record Port =
  po_ContainerPort :: int
  po_HostPort :: int
  po_Protocol :: string

record RtSpec =
  rs_ID :: string
  rs_Name :: string
  rs_Image :: string
  rs_Command :: "string list"
  rs_Args :: "string list"
  rs_Env :: "string list"
  rs_WorkingDir :: string
  rs_Labels :: "(string, string) gomap"
  rs_CPUQuota :: int
  rs_Memory :: int
  rs_Mounts :: "Mount list"
  rs_Ports :: "Port list"
  rs_Network :: string

datatype RtStatus = StatusCreating | StatusRunning | StatusExited | StatusFailed | StatusUnknown

record Container =
  co_ID :: string
  co_Name :: string
  co_Status :: RtStatus
  co_Image :: string
  co_Created :: time
  co_Started :: time
  co_Exited :: time
  co_Exit :: int
  co_PID :: int

record Stats =
  ss_CPUUsageMilli :: int
  ss_MemUsageBytes :: int
  ss_NetBytes :: int

definition RtErrNotFound :: go_error where
  "RtErrNotFound = ErrorString ''runtime: container not found''"

text \<open>
  The reader that a caller passes for the standard input: no reader, a reader whose pointer is nil (which
  is not the nil interface), or bytes. \<^verbatim>\<open>Exec\<close> yields the exit code and what was written to the output.
\<close>

datatype Reader = NoReader | NilReader | BytesReader bytes

record 'r Runtime =
  rt_Pull :: "string \<Rightarrow> 'r \<Rightarrow> unit outcome \<times> 'r"
  rt_Create :: "RtSpec \<Rightarrow> 'r \<Rightarrow> Container outcome \<times> 'r"
  rt_Start :: "string \<Rightarrow> 'r \<Rightarrow> unit outcome \<times> 'r"
  rt_Stop :: "string \<Rightarrow> duration \<Rightarrow> 'r \<Rightarrow> unit outcome \<times> 'r"
  rt_Remove :: "string \<Rightarrow> bool \<Rightarrow> 'r \<Rightarrow> unit outcome \<times> 'r"
  rt_List :: "bool \<Rightarrow> 'r \<Rightarrow> Container list outcome"
  rt_Get :: "string \<Rightarrow> 'r \<Rightarrow> Container outcome"
  rt_Logs :: "string \<Rightarrow> bool \<Rightarrow> int \<Rightarrow> 'r \<Rightarrow> bytes outcome"
  rt_Exec :: "string \<Rightarrow> string list \<Rightarrow> Reader \<Rightarrow> 'r \<Rightarrow> (int \<times> bytes) outcome \<times> 'r"
  rt_Stats :: "string \<Rightarrow> 'r \<Rightarrow> Stats outcome"

text \<open>What a client relies on: the identifiers of the containers, and how the operations change them.\<close>

locale container_runtime =
  fixes R :: "'r Runtime" and rwf :: "'r \<Rightarrow> bool" and ids :: "'r \<Rightarrow> string set"
  assumes List_ids: "rwf r \<Longrightarrow> \<exists>cs. rt_List R True r = Ok cs \<and> co_ID ` set cs = ids r"
    and Get_iff: "rwf r \<Longrightarrow> (\<exists>c. rt_Get R i r = Ok c) \<longleftrightarrow> i \<in> ids r"
    and Create_ids: "rwf r \<Longrightarrow> \<exists>c r'. rt_Create R sp r = (Ok c, r') \<and> rwf r' \<and> ids r' = insert (rs_ID sp) (ids r)"
    and Remove_ids: "rwf r \<Longrightarrow> i \<in> ids r \<Longrightarrow> \<exists>r'. rt_Remove R i True r = (Ok (), r') \<and> rwf r' \<and> ids r' = ids r - {i}"
    and Remove_absent: "rwf r \<Longrightarrow> i \<notin> ids r \<Longrightarrow> \<exists>e. rt_Remove R i True r = (Err e, r)"

section \<open>The in-memory runtime\<close>

record fakeContainer =
  fc_cont :: Container
  fc_stop :: bool
  fc_done :: bool

record Fake =
  fk_images :: "(string, bool) gomap"
  fk_conts :: "(string, nat) gomap"
  fk_heap :: "fakeContainer list"
  fk_logs :: "(string, bytes) gomap"
  fk_stats :: "(string, Stats) gomap"

definition New_Fake :: Fake where
  "New_Fake = \<lparr>fk_images = [], fk_conts = [], fk_heap = [], fk_logs = [], fk_stats = []\<rparr>"

definition zero_stats :: Stats where
  "zero_stats = \<lparr>ss_CPUUsageMilli = 0, ss_MemUsageBytes = 0, ss_NetBytes = 0\<rparr>"

definition fake_Pull :: "string \<Rightarrow> Fake \<Rightarrow> unit outcome \<times> Fake" where
  "fake_Pull img f = (Ok (), f\<lparr>fk_images := mput img True (fk_images f)\<rparr>)"

definition fake_Create :: "time \<Rightarrow> RtSpec \<Rightarrow> Fake \<Rightarrow> Container outcome \<times> Fake" where
  "fake_Create now sp f =
     (let images = (if mget (fk_images f) (rs_Image sp) = Some True then fk_images f
                    else mput (rs_Image sp) True (fk_images f));
          c = \<lparr>co_ID = rs_ID sp, co_Name = rs_Name sp, co_Status = StatusCreating, co_Image = rs_Image sp,
               co_Created = now, co_Started = zero_time, co_Exited = zero_time, co_Exit = 0, co_PID = 0\<rparr>
      in (Ok c, \<lparr>fk_images = images,
                 fk_conts = mput (rs_ID sp) (length (fk_heap f)) (fk_conts f),
                 fk_heap = fk_heap f @ [\<lparr>fc_cont = c, fc_stop = False, fc_done = False\<rparr>],
                 fk_logs = mput (rs_ID sp) [] (fk_logs f),
                 fk_stats = mput (rs_ID sp) zero_stats (fk_stats f)\<rparr>))"

definition update_object :: "nat \<Rightarrow> (fakeContainer \<Rightarrow> fakeContainer) \<Rightarrow> Fake \<Rightarrow> Fake" where
  "update_object i g f = f\<lparr>fk_heap := (fk_heap f)[i := g (fk_heap f ! i)]\<rparr>"

definition fake_Start :: "time \<Rightarrow> string \<Rightarrow> Fake \<Rightarrow> unit outcome \<times> Fake" where
  "fake_Start now i f =
     (case mget (fk_conts f) i of
        None \<Rightarrow> (Err RtErrNotFound, f)
      | Some a \<Rightarrow>
          (Ok (), update_object a
             (\<lambda>c. c\<lparr>fc_cont := (fc_cont c)\<lparr>co_Status := StatusRunning, co_Started := now,
                                            co_PID := int (length (fk_conts f)) * 100 + 1\<rparr>\<rparr>) f))"

text \<open>
  The goroutines of a started container \<^verbatim>\<open>a\<close>: the first signals that it runs, which panics when it was
  signalled before, and marks it exited once it was stopped; the second counts usage until then.
\<close>

definition goroutine_begin :: "nat \<Rightarrow> Fake \<Rightarrow> unit outcome \<times> Fake" where
  "goroutine_begin a f =
     (if fc_done (fk_heap f ! a) then (Panic ''close of closed channel'', f)
      else (Ok (), update_object a (\<lambda>c. c\<lparr>fc_done := True\<rparr>) f))"

definition goroutine_exit :: "time \<Rightarrow> nat \<Rightarrow> Fake \<Rightarrow> Fake" where
  "goroutine_exit now a f =
     (if \<not> fc_stop (fk_heap f ! a) then f
      else update_object a
             (\<lambda>c. c\<lparr>fc_cont := (fc_cont c)\<lparr>co_Status := StatusExited, co_Exited := now, co_Exit := 0\<rparr>\<rparr>) f)"

definition goroutine_usage :: "nat \<Rightarrow> string \<Rightarrow> Fake \<Rightarrow> Fake" where
  "goroutine_usage a i f =
     (if fc_stop (fk_heap f ! a) then f
      else
        let cur = (case mget (fk_stats f) i of Some x \<Rightarrow> x | None \<Rightarrow> zero_stats)
        in f\<lparr>fk_stats := mput i (cur\<lparr>ss_CPUUsageMilli := i64 (ss_CPUUsageMilli cur + 50),
                                     ss_MemUsageBytes := i64 (ss_MemUsageBytes cur + 1048576)\<rparr>) (fk_stats f)\<rparr>)"

definition fake_Stop :: "string \<Rightarrow> duration \<Rightarrow> Fake \<Rightarrow> unit outcome \<times> Fake" where
  "fake_Stop i grace f =
     (case mget (fk_conts f) i of
        None \<Rightarrow> (Err RtErrNotFound, f)
      | Some a \<Rightarrow> if fc_stop (fk_heap f ! a) then (Ok (), f)
                  else (Ok (), update_object a (\<lambda>c. c\<lparr>fc_stop := True\<rparr>) f))"

definition fake_Remove :: "string \<Rightarrow> bool \<Rightarrow> Fake \<Rightarrow> unit outcome \<times> Fake" where
  "fake_Remove i force f =
     (case mget (fk_conts f) i of
        None \<Rightarrow> (Err RtErrNotFound, f)
      | Some a \<Rightarrow>
          if co_Status (fc_cont (fk_heap f ! a)) = StatusRunning \<and> \<not> force
          then (Err (ErrorString ''runtime: container still running''), f)
          else (Ok (), f\<lparr>fk_conts := mdel i (fk_conts f), fk_logs := mdel i (fk_logs f),
                         fk_stats := mdel i (fk_stats f)\<rparr>))"

definition fake_List :: "bool \<Rightarrow> Fake \<Rightarrow> Container list outcome" where
  "fake_List all f =
     Ok (filter (\<lambda>c. all \<or> co_Status c = StatusRunning) (map (\<lambda>(i, a). fc_cont (fk_heap f ! a)) (fk_conts f)))"

definition fake_Get :: "string \<Rightarrow> Fake \<Rightarrow> Container outcome" where
  "fake_Get i f =
     (case mget (fk_conts f) i of None \<Rightarrow> Err RtErrNotFound | Some a \<Rightarrow> Ok (fc_cont (fk_heap f ! a)))"

definition fake_Logs :: "string \<Rightarrow> bool \<Rightarrow> int \<Rightarrow> Fake \<Rightarrow> bytes outcome" where
  "fake_Logs i follow tail f = (case mget (fk_logs f) i of None \<Rightarrow> Err RtErrNotFound | Some buf \<Rightarrow> Ok buf)"

definition joinCmd :: "string list \<Rightarrow> string" where
  "joinCmd cmd = Join cmd '' ''"

definition newline :: char where
  "newline = CHR 0x0A"

definition fake_Exec :: "string \<Rightarrow> string list \<Rightarrow> Reader \<Rightarrow> Fake \<Rightarrow> (int \<times> bytes) outcome \<times> Fake" where
  "fake_Exec i cmd stdin f =
     (case mget (fk_conts f) i of
        None \<Rightarrow> (Err RtErrNotFound, f)
      | Some a \<Rightarrow>
          let line = ''$ '' @ joinCmd cmd @ [newline] in
          (Ok (0, line),
           case mget (fk_logs f) i of
             None \<Rightarrow> f
           | Some buf \<Rightarrow> f\<lparr>fk_logs := mput i (buf @ line) (fk_logs f)\<rparr>))"

definition fake_Stats :: "string \<Rightarrow> Fake \<Rightarrow> Stats outcome" where
  "fake_Stats i f = (case mget (fk_stats f) i of None \<Rightarrow> Err RtErrNotFound | Some s \<Rightarrow> Ok s)"

definition AppendLog :: "string \<Rightarrow> string \<Rightarrow> Fake \<Rightarrow> Fake" where
  "AppendLog i line f =
     (case mget (fk_logs f) i of
        None \<Rightarrow> f
      | Some buf \<Rightarrow>
          let more = (if line \<noteq> [] \<and> last line \<noteq> newline then line @ [newline] else line)
          in f\<lparr>fk_logs := mput i (buf @ more) (fk_logs f)\<rparr>)"

definition fake_runtime :: "time \<Rightarrow> Fake Runtime" where
  "fake_runtime now =
     \<lparr>rt_Pull = fake_Pull, rt_Create = fake_Create now, rt_Start = fake_Start now, rt_Stop = fake_Stop,
      rt_Remove = fake_Remove, rt_List = fake_List, rt_Get = fake_Get, rt_Logs = fake_Logs,
      rt_Exec = fake_Exec, rt_Stats = fake_Stats\<rparr>"

section \<open>The contract holds\<close>

definition fake_wf :: "Fake \<Rightarrow> bool" where
  "fake_wf f \<longleftrightarrow> mwf (fk_conts f)
     \<and> (\<forall>i a. mget (fk_conts f) i = Some a \<longrightarrow> a < length (fk_heap f) \<and> co_ID (fc_cont (fk_heap f ! a)) = i)"

definition fake_ids :: "Fake \<Rightarrow> string set" where
  "fake_ids f = set (mkeys (fk_conts f))"

lemma fake_ids_iff: "i \<in> fake_ids f \<longleftrightarrow> mget (fk_conts f) i \<noteq> None"
  by (simp add: fake_ids_def mget_neq_None_iff [symmetric])

lemma fake_wf_New [simp]: "fake_wf New_Fake" "fake_ids New_Fake = {}"
  by (simp_all add: fake_wf_def fake_ids_def New_Fake_def mkeys_def)

lemma fake_list_ids:
  assumes "fake_wf f"
  shows "co_ID ` set (map (\<lambda>(i, a). fc_cont (fk_heap f ! a)) (fk_conts f)) = fake_ids f"
proof -
  have "co_ID (fc_cont (fk_heap f ! snd e)) = fst e" if "e \<in> set (fk_conts f)" for e
    using assms that mget_in_set [of "fk_conts f" "fst e" "snd e"] by (simp add: fake_wf_def)
  then have "(\<lambda>e. co_ID (fc_cont (fk_heap f ! snd e))) ` set (fk_conts f) = fst ` set (fk_conts f)"
    by (rule image_cong [OF refl])
  then show ?thesis by (simp add: fake_ids_def mkeys_def case_prod_beta image_image)
qed

lemma fake_create_ids:
  assumes "fake_wf f" and "fake_Create now sp f = (r, f')"
  shows "fake_wf f' \<and> fake_ids f' = insert (rs_ID sp) (fake_ids f)"
proof -
  define c where "c = \<lparr>co_ID = rs_ID sp, co_Name = rs_Name sp, co_Status = StatusCreating, co_Image = rs_Image sp,
    co_Created = now, co_Started = zero_time, co_Exited = zero_time, co_Exit = 0, co_PID = 0\<rparr>"
  have c: "co_ID c = rs_ID sp" "fk_conts f' = mput (rs_ID sp) (length (fk_heap f)) (fk_conts f)"
      "fk_heap f' = fk_heap f @ [\<lparr>fc_cont = c, fc_stop = False, fc_done = False\<rparr>]"
    using assms(2) by (auto simp: fake_Create_def Let_def c_def)
  have "fake_wf f'"
    unfolding fake_wf_def c(2,3)
  proof (intro conjI allI impI)
    show "mwf (mput (rs_ID sp) (length (fk_heap f)) (fk_conts f))" using assms(1) by (simp add: fake_wf_def mwf_mput)
    fix i a
    assume "mget (mput (rs_ID sp) (length (fk_heap f)) (fk_conts f)) i = Some a"
    then have "a = length (fk_heap f) \<and> i = rs_ID sp \<or> mget (fk_conts f) i = Some a" by (auto split: if_splits)
    then show "a < length (fk_heap f @ [\<lparr>fc_cont = c, fc_stop = False, fc_done = False\<rparr>])"
      and "co_ID (fc_cont ((fk_heap f @ [\<lparr>fc_cont = c, fc_stop = False, fc_done = False\<rparr>]) ! a)) = i"
      using assms(1) c(1) by (auto simp: fake_wf_def nth_append intro: less_SucI)
  qed
  moreover have "i \<in> fake_ids f' \<longleftrightarrow> i = rs_ID sp \<or> i \<in> fake_ids f" for i by (simp add: fake_ids_iff c(2))
  ultimately show ?thesis by blast
qed

lemma fake_remove_ids:
  assumes "fake_wf f" and "i \<in> fake_ids f"
  shows "\<exists>f'. fake_Remove i True f = (Ok (), f') \<and> fake_wf f' \<and> fake_ids f' = fake_ids f - {i}"
proof -
  let ?f' = "f\<lparr>fk_conts := mdel i (fk_conts f), fk_logs := mdel i (fk_logs f), fk_stats := mdel i (fk_stats f)\<rparr>"
  have "fake_Remove i True f = (Ok (), ?f')" using assms(2) by (auto simp: fake_Remove_def fake_ids_iff)
  moreover have "fake_wf ?f'" using assms(1) by (simp add: fake_wf_def mwf_mdel)
  moreover have "x \<in> fake_ids ?f' \<longleftrightarrow> x \<in> fake_ids f - {i}" for x by (simp add: fake_ids_iff)
  ultimately show ?thesis by blast
qed

interpretation fake: container_runtime "fake_runtime now" fake_wf fake_ids for now
proof unfold_locales
  fix r i sp
  assume r: "fake_wf r"
  show "\<exists>cs. rt_List (fake_runtime now) True r = Ok cs \<and> co_ID ` set cs = fake_ids r"
    using fake_list_ids [OF r] by (simp add: fake_runtime_def fake_List_def)
  show "(\<exists>c. rt_Get (fake_runtime now) i r = Ok c) \<longleftrightarrow> i \<in> fake_ids r"
    by (simp add: fake_runtime_def fake_Get_def fake_ids_iff split: option.split)
  show "\<exists>c r'. rt_Create (fake_runtime now) sp r = (Ok c, r') \<and> fake_wf r' \<and> fake_ids r' = insert (rs_ID sp) (fake_ids r)"
    using fake_create_ids [OF r, of now sp] by (cases "fake_Create now sp r") (auto simp: fake_runtime_def fake_Create_def Let_def)
  show "i \<in> fake_ids r \<Longrightarrow>
      \<exists>r'. rt_Remove (fake_runtime now) i True r = (Ok (), r') \<and> fake_wf r' \<and> fake_ids r' = fake_ids r - {i}"
    using fake_remove_ids [OF r] by (simp add: fake_runtime_def)
  show "i \<notin> fake_ids r \<Longrightarrow> \<exists>e. rt_Remove (fake_runtime now) i True r = (Err e, r)"
    by (simp add: fake_runtime_def fake_Remove_def fake_ids_iff)
qed

section \<open>Well-formed states\<close>

text \<open>Everything that can happen to the runtime: the calls of its clients and the steps of the goroutines.\<close>

inductive fake_step :: "Fake \<Rightarrow> Fake \<Rightarrow> bool" where
  pull: "fake_step f (snd (fake_Pull img f))"
| create: "fake_step f (snd (fake_Create now sp f))"
| start: "fake_step f (snd (fake_Start now i f))"
| began: "fake_step f (snd (goroutine_begin a f))"
| exited: "fake_step f (goroutine_exit now a f)"
| usage: "fake_step f (goroutine_usage a i f)"
| stop: "fake_step f (snd (fake_Stop i grace f))"
| remove: "fake_step f (snd (fake_Remove i force f))"
| exec: "fake_step f (snd (fake_Exec i cmd stdin f))"
| log: "fake_step f (AppendLog i line f)"

text \<open>Every container has its log and its usage; only a container has a log.\<close>

definition fake_inv :: "Fake \<Rightarrow> bool" where
  "fake_inv f \<longleftrightarrow> fake_wf f \<and> (\<forall>i. mget (fk_logs f) i = None \<longleftrightarrow> mget (fk_conts f) i = None)
     \<and> (\<forall>i. mget (fk_stats f) i = None \<longrightarrow> mget (fk_conts f) i = None)"

lemma fake_wf_update_object:
  assumes "fake_wf f" and "\<And>c. co_ID (fc_cont (g c)) = co_ID (fc_cont c)"
  shows "fake_wf (update_object a g f)"
proof -
  have "co_ID (fc_cont ((fk_heap f)[a := g (fk_heap f ! a)] ! b)) = co_ID (fc_cont (fk_heap f ! b))"
    if "b < length (fk_heap f)" for b
    using that assms(2) by (cases "a = b") simp_all
  then show ?thesis using assms(1) by (auto simp: fake_wf_def update_object_def)
qed

lemma fake_inv_update_object:
  assumes "fake_inv f" and "\<And>c. co_ID (fc_cont (g c)) = co_ID (fc_cont c)"
  shows "fake_inv (update_object a g f)"
  using fake_wf_update_object [of f g a] assms by (simp add: fake_inv_def) (simp add: update_object_def)

lemma fake_inv_create: "fake_inv f \<Longrightarrow> fake_inv (snd (fake_Create now sp f))"
  using fake_create_ids [of f now sp "fst (fake_Create now sp f)" "snd (fake_Create now sp f)"]
  by (simp add: fake_inv_def) (simp add: fake_Create_def Let_def)

lemma fake_inv_remove: "fake_inv f \<Longrightarrow> fake_inv (snd (fake_Remove i force f))"
  by (simp add: fake_inv_def fake_wf_def fake_Remove_def mwf_mdel split: option.split)

lemma fake_inv_logs:
  assumes "fake_inv f" and "mget (fk_logs f) i = Some b"
  shows "fake_inv (f\<lparr>fk_logs := mput i b' (fk_logs f)\<rparr>)"
proof -
  have "mget (fk_conts f) i \<noteq> None" using assms unfolding fake_inv_def by (metis option.distinct(1))
  then show ?thesis using assms(1) by (simp add: fake_inv_def) (simp add: fake_wf_def)
qed

lemma fake_inv_step: "fake_step f f' \<Longrightarrow> fake_inv f \<Longrightarrow> fake_inv f'"
proof (induction rule: fake_step.induct)
  case (pull f img)
  then show ?case by (simp add: fake_Pull_def fake_inv_def fake_wf_def)
next
  case (start f now i)
  then show ?case by (simp add: fake_Start_def fake_inv_update_object split: option.split)
next
  case (began f a)
  then show ?case by (simp add: goroutine_begin_def fake_inv_update_object)
next
  case (exited f now a)
  then show ?case by (simp add: goroutine_exit_def fake_inv_update_object)
next
  case (usage f a i)
  then show ?case by (simp add: goroutine_usage_def Let_def fake_inv_def fake_wf_def)
next
  case (stop f i grace)
  then show ?case by (simp add: fake_Stop_def fake_inv_update_object split: option.split)
next
  case (exec f i cmd stdin)
  then show ?case by (simp add: fake_Exec_def Let_def fake_inv_logs split: option.split)
next
  case (log f i line)
  then show ?case by (simp add: AppendLog_def Let_def fake_inv_logs split: option.split)
qed (simp_all add: fake_inv_create fake_inv_remove)

text \<open>
  Property C18. Every state that a new runtime reaches, by any calls and goroutine steps in any order, is
  well-formed: identifiers are unique and name their own container, and a container is found exactly
  when its log is found, and then its usage is found too.
\<close>

theorem reachable_runtime_is_well_formed:
  assumes "fake_step\<^sup>*\<^sup>* New_Fake f"
  shows "fake_wf f
    \<and> ((\<exists>c. fake_Get i f = Ok c \<and> co_ID c = i) \<longleftrightarrow> (\<exists>b. fake_Logs i follow tail f = Ok b))
    \<and> (\<forall>c. fake_Get i f = Ok c \<longrightarrow> (\<exists>u. fake_Stats i f = Ok u))"
proof -
  have "fake_inv New_Fake" by (simp add: fake_inv_def) (simp add: New_Fake_def)
  with assms have f: "fake_inv f" by (induction rule: rtranclp_induct) (auto intro: fake_inv_step)
  then have "co_ID (fc_cont (fk_heap f ! a)) = i" if "mget (fk_conts f) i = Some a" for a
    using that by (simp add: fake_inv_def fake_wf_def)
  moreover have "mget (fk_logs f) i = None \<longleftrightarrow> mget (fk_conts f) i = None"
      "mget (fk_stats f) i = None \<longrightarrow> mget (fk_conts f) i = None" "fake_wf f" using f by (simp_all add: fake_inv_def)
  ultimately show ?thesis
    by (cases "mget (fk_conts f) i"; cases "mget (fk_logs f) i"; cases "mget (fk_stats f) i")
      (simp_all add: fake_Get_def fake_Logs_def fake_Stats_def)
qed

theorem reachable_runtime_is_well_formed_witness:
  "fake_wf (snd (fake_Pull ''img'' New_Fake))"
proof -
  have "fake_step\<^sup>*\<^sup>* New_Fake (snd (fake_Pull ''img'' New_Fake))" by (rule r_into_rtranclp) (rule fake_step.pull)
  from reachable_runtime_is_well_formed [OF this] show ?thesis by blast
qed

text \<open>A goroutine of a removed container brings its usage back.\<close>

lemma removed_container_has_usage:
  assumes "fake_Remove i True f = (Ok (), f1)" and "mget (fk_conts f) i = Some a" and "\<not> fc_stop (fk_heap f ! a)"
  shows "\<exists>u. fake_Stats i (goroutine_usage a i f1) = Ok u \<and> fake_Get i (goroutine_usage a i f1) = Err RtErrNotFound"
proof -
  have "f1 = f\<lparr>fk_conts := mdel i (fk_conts f), fk_logs := mdel i (fk_logs f), fk_stats := mdel i (fk_stats f)\<rparr>"
    using assms(1,2) by (simp add: fake_Remove_def)
  then show ?thesis using assms(3) by (simp add: goroutine_usage_def Let_def fake_Stats_def fake_Get_def)
qed

end
