(* ===== verification/NodeAgent.thy ===== *)
theory NodeAgent
  imports ContainerRuntime Scheduler
begin

text \<open>
  The node agent, \<^verbatim>\<open>internal/nodeagent/agent.go\<close>: its heartbeat, the pass that compares the containers of the
  node with the planned placements, draining, and the calls it passes on to the runtime. The cluster
  store, the runtime, the collector's report and the \<^verbatim>\<open>Apply\<close> callback are arguments; the callback may
  change the store and the runtime.
\<close>

section \<open>The agent\<close>

record Heartbeat =
  hb_NodeID :: string
  hb_Address :: string
  hb_CPUUsage :: int
  hb_MemUsage :: int
  hb_DiskUsage :: int
  hb_GPUCount :: int
  hb_Containers :: int
  hb_Timestamp :: time

record StaticCollector =
  st_NodeID :: string
  st_Address :: string
  st_CPU :: int
  st_Mem :: int
  st_Disk :: int
  st_GPU :: int

definition Collect :: "time \<Rightarrow> StaticCollector \<Rightarrow> Heartbeat outcome" where
  "Collect now c =
     Ok \<lparr>hb_NodeID = st_NodeID c, hb_Address = st_Address c, hb_CPUUsage = st_CPU c, hb_MemUsage = st_Mem c,
         hb_DiskUsage = st_Disk c, hb_GPUCount = st_GPU c, hb_Containers = 0, hb_Timestamp = now\<rparr>"

record Agent =
  ag_NodeID :: string
  ag_Address :: string
  ag_draining :: bool

type_synonym ('s, 'r) ApplyFunc = "Workload \<Rightarrow> StatePlacement \<Rightarrow> 's \<times> 'r \<Rightarrow> unit outcome \<times> 's \<times> 'r"

definition HeartbeatInterval :: duration where
  "HeartbeatInterval = 5 * second"

definition SetDrain :: "bool \<Rightarrow> Agent \<Rightarrow> Agent" where
  "SetDrain drain a = a\<lparr>ag_draining := drain\<rparr>"

definition IsDraining :: "Agent \<Rightarrow> bool" where
  "IsDraining a = ag_draining a"

section \<open>Heartbeat\<close>

definition new_node :: "Agent \<Rightarrow> Node" where
  "new_node a =
     \<lparr>n_ID = ag_NodeID a, n_Name = ag_NodeID a, n_Address = ag_Address a, n_Status = ''Ready'',
      n_Unschedulable = False, n_Drain = False, n_Cordoned = False, n_CPUAllocatable = 8000, n_CPUAllocated = 0,
      n_MemAllocatable = 17179869184, n_MemAllocated = 0, n_GPUs = 0, n_Labels = [], n_Taints = [],
      n_LastHeartbeat = zero_time\<rparr>"

text \<open>The node that a heartbeat stores.\<close>

definition beat :: "Agent \<Rightarrow> Heartbeat \<Rightarrow> Node option \<Rightarrow> Node" where
  "beat a hb old =
     (let n = (case old of
                 None \<Rightarrow> new_node a
               | Some n0 \<Rightarrow> n0\<lparr>n_LastHeartbeat := hb_Timestamp hb, n_Address := ag_Address a, n_Status := ''Ready''\<rparr>);
          n1 = n\<lparr>n_CPUAllocated := hb_CPUUsage hb, n_MemAllocated := hb_MemUsage hb, n_LastHeartbeat := hb_Timestamp hb\<rparr>
      in if ag_draining a then n1\<lparr>n_Drain := True, n_Unschedulable := True\<rparr> else n1)"

definition heartbeatOnce :: "'s ClusterStore \<Rightarrow> Agent \<Rightarrow> Heartbeat outcome \<Rightarrow> 's \<Rightarrow> unit outcome \<times> 's" where
  "heartbeatOnce S a collected s =
     (case collected of
        Err e \<Rightarrow> (Ok (), s)
      | Panic m \<Rightarrow> (Panic m, s)
      | Ok hb \<Rightarrow>
          (case cs_GetNode S (ag_NodeID a) s of
             Panic m \<Rightarrow> (Panic m, s)
           | Ok n \<Rightarrow>
               (case cs_UpsertNode S (beat a hb (Some n)) s of
                  (Panic m, s') \<Rightarrow> (Panic m, s') | (_, s') \<Rightarrow> (Ok (), s'))
           | Err e \<Rightarrow>
               (case cs_UpsertNode S (beat a hb None) s of
                  (Panic m, s') \<Rightarrow> (Panic m, s') | (_, s') \<Rightarrow> (Ok (), s'))))"

section \<open>Reconciling\<close>

text \<open>The loops over projects, workloads and placements: the wanted placements by identifier, and the state.\<close>

fun want_placements ::
  "string \<Rightarrow> ('s, 'r) ApplyFunc option \<Rightarrow> Workload \<Rightarrow> StatePlacement list
    \<Rightarrow> (string, StatePlacement) gomap \<times> 's \<times> 'r \<Rightarrow> unit outcome \<times> (string, StatePlacement) gomap \<times> 's \<times> 'r" where
  "want_placements node ap w [] (want, st) = (Ok (), want, st)"
| "want_placements node ap w (pl # pls) (want, st) =
     (if pl_NodeID pl = node then
        (case (case ap of None \<Rightarrow> (Ok (), st) | Some f \<Rightarrow> f w pl st) of
           (Panic m, st') \<Rightarrow> (Panic m, mput (pl_ID pl) pl want, st')
         | (_, st') \<Rightarrow> want_placements node ap w pls (mput (pl_ID pl) pl want, st'))
      else want_placements node ap w pls (want, st))"

fun want_workloads ::
  "'s ClusterStore \<Rightarrow> string \<Rightarrow> ('s, 'r) ApplyFunc option \<Rightarrow> Workload list
    \<Rightarrow> (string, StatePlacement) gomap \<times> 's \<times> 'r \<Rightarrow> unit outcome \<times> (string, StatePlacement) gomap \<times> 's \<times> 'r" where
  "want_workloads S node ap [] acc = (Ok (), acc)"
| "want_workloads S node ap (w # ws) acc =
     (case cs_GetPlacements S (w_ID w) (fst (snd acc)) of
        Err e \<Rightarrow> want_workloads S node ap ws acc
      | Panic m \<Rightarrow> (Panic m, acc)
      | Ok pls \<Rightarrow>
          (case want_placements node ap w pls acc of
             (Panic m, acc') \<Rightarrow> (Panic m, acc')
           | (_, acc') \<Rightarrow> want_workloads S node ap ws acc'))"

fun want_projects ::
  "'s ClusterStore \<Rightarrow> string \<Rightarrow> ('s, 'r) ApplyFunc option \<Rightarrow> Project list
    \<Rightarrow> (string, StatePlacement) gomap \<times> 's \<times> 'r \<Rightarrow> unit outcome \<times> (string, StatePlacement) gomap \<times> 's \<times> 'r" where
  "want_projects S node ap [] acc = (Ok (), acc)"
| "want_projects S node ap (p # ps) acc =
     (case cs_ListWorkloads S (p_ID p) (fst (snd acc)) of
        Panic m \<Rightarrow> (Panic m, acc)
      | r \<Rightarrow>
          (case want_workloads S node ap (or_nil r) acc of
             (Panic m, acc') \<Rightarrow> (Panic m, acc')
           | (_, acc') \<Rightarrow> want_projects S node ap ps acc'))"

fun remove_unwanted ::
  "'r Runtime \<Rightarrow> (string, StatePlacement) gomap \<Rightarrow> Container list \<Rightarrow> 'r \<Rightarrow> unit outcome \<times> 'r" where
  "remove_unwanted R want [] r = (Ok (), r)"
| "remove_unwanted R want (c # cs) r =
     (case mget want (co_ID c) of
        Some _ \<Rightarrow> remove_unwanted R want cs r
      | None \<Rightarrow>
          (case rt_Remove R (co_ID c) True r of
             (Panic m, r') \<Rightarrow> (Panic m, r')
           | (_, r') \<Rightarrow> remove_unwanted R want cs r'))"

definition reconcileOnce ::
  "'s ClusterStore \<Rightarrow> 'r Runtime \<Rightarrow> ('s, 'r) ApplyFunc option \<Rightarrow> Agent \<Rightarrow> 's \<times> 'r \<Rightarrow> unit outcome \<times> 's \<times> 'r" where
  "reconcileOnce S R ap a st =
     (case cs_ListProjects S (fst st) of
        Err e \<Rightarrow> (Ok (), st)
      | Panic m \<Rightarrow> (Panic m, st)
      | Ok projects \<Rightarrow>
          (case want_projects S (ag_NodeID a) ap projects ([], st) of
             (Panic m, want, st') \<Rightarrow> (Panic m, st')
           | (_, want, (s', r')) \<Rightarrow>
               (case rt_List R True r' of
                  Panic m \<Rightarrow> (Panic m, (s', r'))
                | l \<Rightarrow> (case remove_unwanted R want (or_nil l) r' of (res, r'') \<Rightarrow> (res, (s', r''))))))"

text \<open>A tick of \<^verbatim>\<open>Run\<close>.\<close>

definition agent_tick ::
  "'s ClusterStore \<Rightarrow> 'r Runtime \<Rightarrow> ('s, 'r) ApplyFunc option \<Rightarrow> Agent \<Rightarrow> Heartbeat outcome \<Rightarrow> 's \<times> 'r \<Rightarrow> unit outcome \<times> 's \<times> 'r" where
  "agent_tick S R ap a collected st =
     (case heartbeatOnce S a collected (fst st) of
        (Ok _, s') \<Rightarrow> reconcileOnce S R ap a (s', snd st)
      | (Err e, s') \<Rightarrow> (Err e, (s', snd st))
      | (Panic m, s') \<Rightarrow> (Panic m, (s', snd st)))"

section \<open>Calls passed on\<close>

definition agent_Exec :: "'r Runtime \<Rightarrow> string \<Rightarrow> string list \<Rightarrow> bytes option \<Rightarrow> 'r \<Rightarrow> string outcome \<times> 'r" where
  "agent_Exec R containerID cmd stdin r =
     (if cmd = [] then (Err (ErrorString ''nodeagent: command required''), r)
      else case rt_Get R containerID r of
             Err e \<Rightarrow> (Err (ErrorString (''nodeagent: container '' @ containerID @ '' not found'')), r)
           | Panic m \<Rightarrow> (Panic m, r)
           | Ok c \<Rightarrow>
               (case rt_Exec R containerID cmd (case stdin of None \<Rightarrow> NilReader | Some b \<Rightarrow> BytesReader b) r of
                  (Err e, r') \<Rightarrow> (Err e, r')
                | (Panic m, r') \<Rightarrow> (Panic m, r')
                | (Ok (code, out), r') \<Rightarrow> (Ok out, r')))"

text \<open>One read of the log stream into a buffer of 64 KiB; the fake's stream is read up to its end.\<close>

definition agent_Logs :: "'r Runtime \<Rightarrow> string \<Rightarrow> int \<Rightarrow> 'r \<Rightarrow> string outcome" where
  "agent_Logs R containerID tail r =
     (case rt_Logs R containerID False tail r of
        Err e \<Rightarrow> Err e
      | Panic m \<Rightarrow> Panic m
      | Ok content \<Rightarrow> Ok (take 65536 content))"

definition buffer_Write :: "bytes \<Rightarrow> bytes \<Rightarrow> (nat \<times> go_error option) \<times> bytes" where
  "buffer_Write p b = ((length p, None), b @ p)"

text \<open>\<^verbatim>\<open>Read\<close> into a slice of length \<^verbatim>\<open>k\<close>: the bytes read or the error, and the new position.\<close>

definition reader_Read :: "nat \<Rightarrow> bytes \<times> nat \<Rightarrow> bytes outcome \<times> bytes \<times> nat" where
  "reader_Read k r =
     (case r of (b, pos) \<Rightarrow>
        if length b \<le> pos then (Err (ErrorString ''EOF''), b, pos)
        else let got = take k (drop pos b) in (Ok got, b, pos + length got))"

section \<open>Convergence\<close>

text \<open>The placements of the node, as the store lists them.\<close>

definition placements_of :: "'s ClusterStore \<Rightarrow> 's \<Rightarrow> string \<Rightarrow> Workload list \<Rightarrow> StatePlacement list" where
  "placements_of S s node ws =
     concat (map (\<lambda>w. filter (\<lambda>pl. pl_NodeID pl = node) (or_nil (cs_GetPlacements S (w_ID w) s))) ws)"

definition node_placements :: "'s ClusterStore \<Rightarrow> 's \<Rightarrow> string \<Rightarrow> Project list \<Rightarrow> StatePlacement list" where
  "node_placements S s node ps =
     concat (map (\<lambda>p. placements_of S s node (or_nil (cs_ListWorkloads S (p_ID p) s))) ps)"

text \<open>Reading the store does not panic.\<close>

definition readable :: "'s ClusterStore \<Rightarrow> 's \<Rightarrow> bool" where
  "readable S s \<longleftrightarrow> (\<forall>p m. cs_ListWorkloads S p s \<noteq> Panic m) \<and> (\<forall>w m. cs_GetPlacements S w s \<noteq> Panic m)"

definition has_keys :: "(string, StatePlacement) gomap \<Rightarrow> string set \<Rightarrow> bool" where
  "has_keys want I \<longleftrightarrow> (\<forall>i. mget want i \<noteq> None \<longleftrightarrow> i \<in> I)"

lemma has_keys_mput: "has_keys want I \<Longrightarrow> has_keys (mput i pl want) (insert i I)"
  by (auto simp: has_keys_def)

text \<open>
  What the callback of an agent does to the containers: it adds those that \<^verbatim>\<open>g\<close> names. Without a callback
  \<^verbatim>\<open>g\<close> names none.
\<close>

definition call_apply :: "('s, 'r) ApplyFunc option \<Rightarrow> ('s, 'r) ApplyFunc" where
  "call_apply ap w pl st = (case ap of None \<Rightarrow> (Ok (), st) | Some f \<Rightarrow> f w pl st)"

context container_runtime
begin

definition adds :: "('s, 'r) ApplyFunc option \<Rightarrow> (StatePlacement \<Rightarrow> string set) \<Rightarrow> bool" where
  "adds ap g \<longleftrightarrow> (\<forall>w pl s r. rwf r \<longrightarrow>
     (\<exists>res r'. call_apply ap w pl (s, r) = (res, (s, r')) \<and> (\<forall>m. res \<noteq> Panic m) \<and> rwf r' \<and> ids r' = ids r \<union> g pl))"

lemma adds_None: "adds None (\<lambda>_. {})"
  by (simp add: adds_def call_apply_def)

lemma want_placements_ids:
  assumes "adds ap g" and "rwf r" and "has_keys want I"
  shows "\<exists>want' r'. want_placements node ap w pls (want, (s, r)) = (Ok (), want', (s, r')) \<and> rwf r'
    \<and> ids r' = ids r \<union> \<Union> (g ` set (filter (\<lambda>pl. pl_NodeID pl = node) pls))
    \<and> has_keys want' (I \<union> pl_ID ` set (filter (\<lambda>pl. pl_NodeID pl = node) pls))"
  using assms(2,3)
proof (induction pls arbitrary: want I r)
  case (Cons pl pls)
  show ?case
  proof (cases "pl_NodeID pl = node")
    case True
    obtain res r1 where a: "call_apply ap w pl (s, r) = (res, (s, r1))" "\<forall>m. res \<noteq> Panic m" "rwf r1"
        "ids r1 = ids r \<union> g pl" using assms(1) Cons.prems(1) unfolding adds_def by blast
    from Cons.IH [OF a(3) has_keys_mput [OF Cons.prems(2), of "pl_ID pl" pl]]
    obtain want' r' where r': "want_placements node ap w pls (mput (pl_ID pl) pl want, (s, r1)) = (Ok (), want', (s, r'))"
        "rwf r'" "ids r' = ids r1 \<union> \<Union> (g ` set (filter (\<lambda>pl. pl_NodeID pl = node) pls))"
        "has_keys want' (insert (pl_ID pl) I \<union> pl_ID ` set (filter (\<lambda>pl. pl_NodeID pl = node) pls))" by blast
    have "want_placements node ap w (pl # pls) (want, (s, r)) = (Ok (), want', (s, r'))"
      using True a(1,2) r'(1) by (cases res) (simp_all add: call_apply_def)
    with r' a(4) True show ?thesis by (simp add: Un_assoc)
  next
    case False
    with Cons show ?thesis by simp
  qed
qed simp

lemma want_workloads_ids:
  assumes "adds ap g" and "readable S s" and "rwf r" and "has_keys want I"
  shows "\<exists>want' r'. want_workloads S node ap ws (want, (s, r)) = (Ok (), want', (s, r')) \<and> rwf r'
    \<and> ids r' = ids r \<union> \<Union> (g ` set (placements_of S s node ws))
    \<and> has_keys want' (I \<union> pl_ID ` set (placements_of S s node ws))"
  using assms(3,4)
proof (induction ws arbitrary: want I r)
  case (Cons w ws)
  show ?case
  proof (cases "cs_GetPlacements S (w_ID w) s")
    case (Ok pls)
    from want_placements_ids [OF assms(1) Cons.prems, of node w pls s] obtain want1 r1 where
      1: "want_placements node ap w pls (want, (s, r)) = (Ok (), want1, (s, r1))" "rwf r1"
        "ids r1 = ids r \<union> \<Union> (g ` set (filter (\<lambda>pl. pl_NodeID pl = node) pls))"
        "has_keys want1 (I \<union> pl_ID ` set (filter (\<lambda>pl. pl_NodeID pl = node) pls))" by blast
    from Cons.IH [OF 1(2,4)] 1 Ok show ?thesis
      by (auto simp: placements_of_def or_nil_def Un_assoc image_Un)
  next
    case (Err e)
    with Cons show ?thesis by (simp add: placements_of_def or_nil_def)
  qed (use assms(2) in \<open>simp add: readable_def\<close>)
qed (simp add: placements_of_def)

lemma want_projects_ids:
  assumes "adds ap g" and "readable S s" and "rwf r" and "has_keys want I"
  shows "\<exists>want' r'. want_projects S node ap ps (want, (s, r)) = (Ok (), want', (s, r')) \<and> rwf r'
    \<and> ids r' = ids r \<union> \<Union> (g ` set (node_placements S s node ps))
    \<and> has_keys want' (I \<union> pl_ID ` set (node_placements S s node ps))"
  using assms(3,4)
proof (induction ps arbitrary: want I r)
  case (Cons p ps)
  let ?ws = "or_nil (cs_ListWorkloads S (p_ID p) s)"
  from want_workloads_ids [OF assms(1,2) Cons.prems, of node ?ws] obtain want1 r1 where
    1: "want_workloads S node ap ?ws (want, (s, r)) = (Ok (), want1, (s, r1))" "rwf r1"
      "ids r1 = ids r \<union> \<Union> (g ` set (placements_of S s node ?ws))"
      "has_keys want1 (I \<union> pl_ID ` set (placements_of S s node ?ws))" by blast
  have "want_projects S node ap (p # ps) (want, (s, r)) = want_projects S node ap ps (want1, (s, r1))"
    using assms(2) 1(1) by (cases "cs_ListWorkloads S (p_ID p) s") (auto simp: readable_def)
  with Cons.IH [OF 1(2,4)] 1(3) show ?case
    by (auto simp: node_placements_def Un_assoc image_Un)
qed (simp add: node_placements_def)

lemma remove_unwanted_ids:
  assumes "rwf r"
  shows "\<exists>r'. remove_unwanted R want cs r = (Ok (), r') \<and> rwf r'
    \<and> ids r' = ids r - {i \<in> co_ID ` set cs. mget want i = None}"
  using assms
proof (induction cs arbitrary: r)
  case (Cons c cs)
  show ?case
  proof (cases "mget want (co_ID c)")
    case None
    obtain res r1 where r1: "rt_Remove R (co_ID c) True r = (res, r1)" "\<forall>m. res \<noteq> Panic m" "rwf r1"
        "ids r1 = ids r - {co_ID c}"
      using Remove_ids [OF Cons.prems, of "co_ID c"] Remove_absent [OF Cons.prems, of "co_ID c"] Cons.prems
      by (cases "co_ID c \<in> ids r") auto
    then have "remove_unwanted R want (c # cs) r = remove_unwanted R want cs r1"
      using None by (cases res) simp_all
    with Cons.IH [OF r1(3)] r1(4) None show ?thesis by auto
  next
    case (Some a)
    then have "{i \<in> co_ID ` set (c # cs). mget want i = None} = {i \<in> co_ID ` set cs. mget want i = None}" by auto
    with Some Cons show ?thesis by simp
  qed
qed simp

lemma reconcile_ids:
  assumes "adds ap g" and "readable S s" and "cs_ListProjects S s = Ok ps" and "rwf r"
  shows "\<exists>r'. reconcileOnce S R ap a (s, r) = (Ok (), (s, r')) \<and> rwf r'
    \<and> ids r' = (ids r \<union> \<Union> (g ` set (node_placements S s (ag_NodeID a) ps)))
        \<inter> pl_ID ` set (node_placements S s (ag_NodeID a) ps)"
proof -
  have "has_keys [] {}" by (simp add: has_keys_def)
  from want_projects_ids [OF assms(1,2,4) this, of "ag_NodeID a" ps] obtain want r1 where
    1: "want_projects S (ag_NodeID a) ap ps ([], (s, r)) = (Ok (), want, (s, r1))" "rwf r1"
      "ids r1 = ids r \<union> \<Union> (g ` set (node_placements S s (ag_NodeID a) ps))"
      "has_keys want (pl_ID ` set (node_placements S s (ag_NodeID a) ps))" by auto
  obtain cs where cs: "rt_List R True r1 = Ok cs" "co_ID ` set cs = ids r1" using List_ids [OF 1(2)] by blast
  from remove_unwanted_ids [OF 1(2), of want cs] obtain r' where
    r': "remove_unwanted R want cs r1 = (Ok (), r')" "rwf r'"
      "ids r' = ids r1 - {i \<in> co_ID ` set cs. mget want i = None}" by blast
  have "{i \<in> co_ID ` set cs. mget want i = None} = ids r1 - pl_ID ` set (node_placements S s (ag_NodeID a) ps)"
    unfolding cs(2) using 1(4) unfolding has_keys_def by blast
  with r' have "ids r' = ids r1 \<inter> pl_ID ` set (node_placements S s (ag_NodeID a) ps)" by blast
  with r' 1 cs assms(3) show ?thesis by (simp add: reconcileOnce_def or_nil_def)
qed

end

text \<open>A callback that materializes a placement: afterwards the container with its identifier exists.\<close>

definition starts_containers :: "('s, Fake) ApplyFunc \<Rightarrow> bool" where
  "starts_containers ap \<longleftrightarrow> (\<forall>w pl s f. fake_wf f \<longrightarrow>
     (\<exists>res f'. ap w pl (s, f) = (res, (s, f')) \<and> (\<forall>m. res \<noteq> Panic m) \<and> fake_wf f'
        \<and> fake_ids f' = fake_ids f \<union> {pl_ID pl}))"

text \<open>
  Property C15. A pass of the agent over the in-memory runtime converges: with a callback that starts
  containers, afterwards exactly the containers of the node's placements exist; without a callback
  exactly the unplanned containers are gone.
\<close>

theorem reconcile_converges:
  assumes "readable S s" and "cs_ListProjects S s = Ok ps" and "fake_wf f" and "starts_containers ap"
  shows "(\<exists>f'. reconcileOnce S (fake_runtime now) (Some ap) a (s, f) = (Ok (), (s, f'))
      \<and> fake_ids f' = pl_ID ` set (node_placements S s (ag_NodeID a) ps))
    \<and> (\<exists>f'. reconcileOnce S (fake_runtime now) None a (s, f) = (Ok (), (s, f'))
      \<and> fake_ids f' = fake_ids f \<inter> pl_ID ` set (node_placements S s (ag_NodeID a) ps))"
proof -
  have "fake.adds (Some ap) (\<lambda>pl. {pl_ID pl})"
    using assms(4) by (simp add: fake.adds_def starts_containers_def call_apply_def)
  from fake.reconcile_ids [OF this assms(1-3), of now a] fake.reconcile_ids [OF fake.adds_None assms(1-3), of now a]
  show ?thesis by auto
qed

section \<open>Draining\<close>

text \<open>What the agent relies on when it stores its node: the store finds and lists it under its identifier.\<close>

definition node_store :: "'s ClusterStore \<Rightarrow> bool" where
  "node_store S \<longleftrightarrow>
     (\<forall>i s n. cs_GetNode S i s = Ok n \<longrightarrow> n_ID n = i)
     \<and> (\<forall>n s s'. cs_UpsertNode S n s = (Ok (), s') \<longrightarrow>
          (\<exists>nodes. cs_ListNodes S s' = Ok nodes \<and> distinct (map n_ID nodes)
            \<and> (\<forall>n' \<in> set nodes. n_ID n' = n_ID n \<longrightarrow> n' = n)))"

lemma plan_nodes_fit:
  assumes "cs_ListNodes S s = Ok nodes" and "distinct (map n_ID nodes)" and "0 \<le> w_Replicas w"
    and "Plan S w s = Ok d" and "p \<in> set (d_Placements d)"
  shows "\<exists>n \<in> set nodes. fits w n \<and> pc_NodeID p = n_ID n"
proof -
  from plan_takes_slots [OF assms(1-3)] assms(4)
  have "map pc_NodeID (d_Placements d) = take (nat (w_Replicas w)) (slots w (score (filter_nodes nodes w) w))" by auto
  then have "pc_NodeID p \<in> set (slots w (score (filter_nodes nodes w) w))"
    using assms(5) by (metis image_eqI in_set_takeD set_map)
  then show ?thesis by (auto simp: slots_def filter_nodes_def)
qed

lemma beat_drains:
  assumes "ag_draining a \<or> (\<exists>n. old = Some n \<and> n_Drain n)"
  shows "n_Drain (beat a hb old)"
  using assms by (auto simp: beat_def Let_def)

lemma beat_ID: "(\<And>n. old = Some n \<Longrightarrow> n_ID n = ag_NodeID a) \<Longrightarrow> n_ID (beat a hb old) = ag_NodeID a"
  by (cases old) (simp_all add: beat_def Let_def new_node_def)

text \<open>
  Property C16. A drained node gets no replica: after the heartbeat of a draining agent the scheduler places
  no replica of any workload there. The same holds when the stored node was draining already, whatever
  the agent's flag is: clearing the flag does not bring the node back.
\<close>

theorem drained_node_gets_no_replica:
  assumes "node_store S" and "heartbeatOnce S a (Ok hb) s = (Ok (), s')"
    and "ag_draining a \<or> (\<exists>n. cs_GetNode S (ag_NodeID a) s = Ok n \<and> n_Drain n)"
    and "\<forall>n s e s'. cs_UpsertNode S n s \<noteq> (Err e, s')"
    and "Plan S w s' = Ok d" and "0 \<le> w_Replicas w" and "p \<in> set (d_Placements d)"
  shows "pc_NodeID p \<noteq> ag_NodeID a"
proof -
  define old where "old = (case cs_GetNode S (ag_NodeID a) s of Ok n \<Rightarrow> Some n | _ \<Rightarrow> None)"
  have id: "n_ID (beat a hb old) = ag_NodeID a"
    using assms(1) by (intro beat_ID) (auto simp: old_def node_store_def split: outcome.splits)
  have drain: "n_Drain (beat a hb old)" using assms(3) by (intro beat_drains) (auto simp: old_def)
  have "cs_UpsertNode S (beat a hb old) s = (Ok (), s')"
    using assms(2,4) by (auto simp: heartbeatOnce_def old_def split: outcome.splits prod.splits)
  then obtain nodes where n: "cs_ListNodes S s' = Ok nodes" "distinct (map n_ID nodes)"
      "\<forall>n \<in> set nodes. n_ID n = ag_NodeID a \<longrightarrow> n = beat a hb old"
    using assms(1) id unfolding node_store_def by metis
  from plan_nodes_fit [OF n(1,2) assms(6,5,7)] obtain m where "m \<in> set nodes" "fits w m" "pc_NodeID p = n_ID m" by blast
  with n(3) drain show ?thesis by (auto simp: fits_def)
qed

section \<open>Examples\<close>

definition demo_agent :: Agent where
  "demo_agent = \<lparr>ag_NodeID = ''n1'', ag_Address = [], ag_draining = True\<rparr>"

definition demo_spec_of :: "StatePlacement \<Rightarrow> RtSpec" where
  "demo_spec_of pl =
     \<lparr>rs_ID = pl_ID pl, rs_Name = [], rs_Image = ''img'', rs_Command = [], rs_Args = [], rs_Env = [], rs_WorkingDir = [],
      rs_Labels = [], rs_CPUQuota = 0, rs_Memory = 0, rs_Mounts = [], rs_Ports = [], rs_Network = []\<rparr>"

definition demo_apply :: "(unit, Fake) ApplyFunc" where
  "demo_apply w pl st = (Ok (), (fst st, snd (fake_Create 0 (demo_spec_of pl) (snd st))))"

theorem reconcile_converges_witness:
  "\<exists>f'. reconcileOnce (demo_store []) (fake_runtime 0) (Some demo_apply) demo_agent
      ((), snd (fake_Create 0 (demo_spec_of (reconcile_placement (demo_workload 1 1 1 [])
        \<lparr>pc_NodeID = ''n1'', pc_ReplicaIdx = 0, pc_Reason = []\<rparr>)) New_Fake)) = (Ok (), ((), f'))
    \<and> fake_ids f' = {}"
proof -
  let ?f = "snd (fake_Create 0 (demo_spec_of (reconcile_placement (demo_workload 1 1 1 [])
    \<lparr>pc_NodeID = ''n1'', pc_ReplicaIdx = 0, pc_Reason = []\<rparr>)) New_Fake)"
  have "fake_wf (snd (fake_Create 0 (demo_spec_of pl) f))
      \<and> fake_ids (snd (fake_Create 0 (demo_spec_of pl) f)) = fake_ids f \<union> {pl_ID pl}" if "fake_wf f" for pl f
    using fake_create_ids [OF that, of 0 "demo_spec_of pl"] by (cases "fake_Create 0 (demo_spec_of pl) f") (simp add: demo_spec_of_def)
  then have c: "starts_containers demo_apply" "fake_wf ?f" by (simp_all add: starts_containers_def demo_apply_def)
  have "readable (demo_store []) ()" "cs_ListProjects (demo_store []) () = Ok []"
    by (simp_all add: readable_def demo_store_def)
  from reconcile_converges [OF this c(2,1), of 0 demo_agent] show ?thesis by (simp add: node_placements_def)
qed

text \<open>A store that holds at most one node.\<close>

definition demo_node_store :: "Node option ClusterStore" where
  "demo_node_store =
     \<lparr>cs_ListProjects = (\<lambda>_. Ok []), cs_ListWorkloads = (\<lambda>_ _. Ok []),
      cs_GetWorkload = (\<lambda>_ _ _. Err (ErrorString ''not found'')), cs_UpdateWorkload = (\<lambda>_ s. (Ok (), s)),
      cs_SetPlacements = (\<lambda>_ _ s. (Ok (), s)), cs_GetPlacements = (\<lambda>_ _. Ok []),
      cs_ListNodes = (\<lambda>s. Ok (case s of None \<Rightarrow> [] | Some n \<Rightarrow> [n])),
      cs_GetNode = (\<lambda>i s. case s of
         Some n \<Rightarrow> if n_ID n = i then Ok n else Err (ErrorString ''not found'')
       | None \<Rightarrow> Err (ErrorString ''not found'')),
      cs_UpsertNode = (\<lambda>n _. (Ok (), Some n)), cs_ListServices = (\<lambda>_ _. Ok []),
      cs_ListDNS = (\<lambda>_ _. Ok []), cs_PutDNS = (\<lambda>_ s. (Ok (), s))\<rparr>"

definition demo_beat :: Heartbeat where
  "demo_beat =
     \<lparr>hb_NodeID = ''n1'', hb_Address = [], hb_CPUUsage = 0, hb_MemUsage = 0, hb_DiskUsage = 0, hb_GPUCount = 0,
      hb_Containers = 0, hb_Timestamp = 7\<rparr>"

theorem drained_node_gets_no_replica_witness:
  "\<exists>s' d. heartbeatOnce demo_node_store demo_agent (Ok demo_beat) None = (Ok (), s')
    \<and> Plan demo_node_store (demo_workload 2 1 1 []) s' = Ok d
    \<and> (\<forall>p \<in> set (d_Placements d). pc_NodeID p \<noteq> ''n1'')"
proof -
  have ns: "node_store demo_node_store"
    by (auto simp: node_store_def demo_node_store_def split: option.splits if_splits)
  obtain s' where h: "heartbeatOnce demo_node_store demo_agent (Ok demo_beat) None = (Ok (), s')"
    by (simp add: heartbeatOnce_def demo_node_store_def)
  have u: "\<forall>n s e s'. cs_UpsertNode demo_node_store n s \<noteq> (Err e, s')" by (simp add: demo_node_store_def)
  have dr: "ag_draining demo_agent \<or> (\<exists>n. cs_GetNode demo_node_store (ag_NodeID demo_agent) None = Ok n \<and> n_Drain n)"
    by (simp add: demo_agent_def)
  have r: "0 \<le> w_Replicas (demo_workload 2 1 1 [])" by (simp add: demo_workload_def)
  obtain nodes where "cs_ListNodes demo_node_store s' = Ok nodes" "distinct (map n_ID nodes)"
    by (cases s') (simp_all add: demo_node_store_def)
  from plan_takes_slots [OF this r] obtain d where d: "Plan demo_node_store (demo_workload 2 1 1 []) s' = Ok d" by blast
  have "ag_NodeID demo_agent = ''n1''" by (simp add: demo_agent_def)
  with drained_node_gets_no_replica [OF ns h dr u d r] h d show ?thesis by metis
qed

end
