(* ===== verification/GoFile.thy ===== *)
theory GoFile
  imports GoPrelude
begin

text \<open>
  The file system as \<^verbatim>\<open>os\<close> and \<^verbatim>\<open>path/filepath\<close> show it, for the stores that keep payloads in files:
  absolute paths as lists of components, a tree of directories and files, and the operations that the
  sources call. Every operation takes what the disk does: it works, it fails at once, or it fails after a
  part of its work. A locale says what a store needs of the way it names its files.
\<close>

section \<open>Paths\<close>

type_synonym path = "string list"

text \<open>\<^verbatim>\<open>filepath.Clean\<close> of an absolute path, on its components; the first argument is the reversed result.\<close>

fun clean_path :: "path \<Rightarrow> string list \<Rightarrow> path" where
  "clean_path acc [] = rev acc"
| "clean_path acc (c # cs) =
     clean_path (if c = [] \<or> c = ''.'' then acc else if c = ''..'' then tl acc else c # acc) cs"

definition filepath_Join :: "path \<Rightarrow> string list \<Rightarrow> path" where
  "filepath_Join root names = clean_path (rev root) (concat (map (\<lambda>n. Split n CHR ''/'') names))"

definition filepath_Dir :: "path \<Rightarrow> path" where
  "filepath_Dir p = butlast p"

definition path_text :: "path \<Rightarrow> string" where
  "path_text p = (if p = [] then ''/'' else concat (map (\<lambda>c. CHR ''/'' # c) p))"

section \<open>Trees\<close>

datatype fnode = Dir | File bytes

type_synonym fs = "(path, fnode) gomap"

datatype io = IoOk | IoFail go_error | IoShort nat go_error

definition path_error :: "string \<Rightarrow> path \<Rightarrow> string \<Rightarrow> go_error" where
  "path_error op p msg = WrapError (op @ '' '' @ path_text p) (ErrorString msg)"

definition ENOENT :: string where "ENOENT = ''no such file or directory''"
definition ENOTDIR :: string where "ENOTDIR = ''not a directory''"
definition EISDIR :: string where "EISDIR = ''is a directory''"
definition ENOTEMPTY :: string where "ENOTEMPTY = ''directory not empty''"

fun is_File :: "fnode option \<Rightarrow> bool" where
  "is_File (Some (File _)) = True"
| "is_File _ = False"

text \<open>The directories on the way to \<^verbatim>\<open>p\<close> that do not exist are made, from the top.\<close>

definition mkdirs :: "path \<Rightarrow> fs \<Rightarrow> fs" where
  "mkdirs p fs =
     fold (\<lambda>n fs. if mget fs (take n p) = None then mput (take n p) Dir fs else fs) [0..<Suc (length p)] fs"

definition os_MkdirAll :: "io \<Rightarrow> path \<Rightarrow> fs \<Rightarrow> unit outcome \<times> fs" where
  "os_MkdirAll d p fs =
     (case find (\<lambda>n. is_File (mget fs (take n p))) [0..<Suc (length p)] of
        Some n \<Rightarrow> (Err (path_error ''mkdir'' (take n p) ENOTDIR), fs)
      | None \<Rightarrow>
          (case d of
             IoOk \<Rightarrow> (Ok (), mkdirs p fs)
           | IoFail e \<Rightarrow> (Err e, fs)
           | IoShort n e \<Rightarrow> (Err e, mkdirs (take n p) fs)))"

text \<open>Opening for writing, with the file created if it does not exist; yields what the file holds.\<close>

definition os_OpenCreate :: "io \<Rightarrow> path \<Rightarrow> fs \<Rightarrow> bytes outcome \<times> fs" where
  "os_OpenCreate d p fs =
     (case mget fs p of
        Some Dir \<Rightarrow> (Err (path_error ''open'' p EISDIR), fs)
      | Some (File b) \<Rightarrow> (case d of IoOk \<Rightarrow> (Ok b, fs) | IoFail e \<Rightarrow> (Err e, fs) | IoShort n e \<Rightarrow> (Err e, fs))
      | None \<Rightarrow>
          if mget fs (filepath_Dir p) = Some Dir then
            (case d of IoOk \<Rightarrow> (Ok [], mput p (File []) fs) | IoFail e \<Rightarrow> (Err e, fs) | IoShort n e \<Rightarrow> (Err e, fs))
          else (Err (path_error ''open'' p (if is_File (mget fs (filepath_Dir p)) then ENOTDIR else ENOENT)), fs))"

text \<open>\<^verbatim>\<open>os.WriteFile\<close>: create or truncate, then write.\<close>

definition os_WriteFile :: "io \<Rightarrow> path \<Rightarrow> bytes \<Rightarrow> fs \<Rightarrow> unit outcome \<times> fs" where
  "os_WriteFile d p b fs =
     (case os_OpenCreate (case d of IoFail e \<Rightarrow> IoFail e | _ \<Rightarrow> IoOk) p fs of
        (Err e, fs') \<Rightarrow> (Err e, fs')
      | (Panic m, fs') \<Rightarrow> (Panic m, fs')
      | (Ok _, fs') \<Rightarrow>
          (case d of
             IoShort n e \<Rightarrow> (Err e, mput p (File (take n b)) fs')
           | _ \<Rightarrow> (Ok (), mput p (File b) fs')))"

text \<open>\<^verbatim>\<open>os.Open\<close>: what can be read through the handle.\<close>

definition os_Open :: "io \<Rightarrow> path \<Rightarrow> fs \<Rightarrow> fnode outcome" where
  "os_Open d p fs =
     (case mget fs p of
        None \<Rightarrow> Err (path_error ''open'' p ENOENT)
      | Some x \<Rightarrow> (case d of IoOk \<Rightarrow> Ok x | IoFail e \<Rightarrow> Err e | IoShort n e \<Rightarrow> Err e))"

definition os_Remove :: "io \<Rightarrow> path \<Rightarrow> fs \<Rightarrow> unit outcome \<times> fs" where
  "os_Remove d p fs =
     (case mget fs p of
        None \<Rightarrow> (Err (path_error ''remove'' p ENOENT), fs)
      | Some x \<Rightarrow>
          if x = Dir \<and> list_ex (\<lambda>q. strict_prefix p q) (mkeys fs)
          then (Err (path_error ''remove'' p ENOTEMPTY), fs)
          else (case d of IoOk \<Rightarrow> (Ok (), mdel p fs) | IoFail e \<Rightarrow> (Err e, fs) | IoShort n e \<Rightarrow> (Err e, fs)))"

text \<open>\<^verbatim>\<open>os.RemoveAll\<close>; a short run has removed the first entries below the path.\<close>

definition os_RemoveAll :: "io \<Rightarrow> path \<Rightarrow> fs \<Rightarrow> unit outcome \<times> fs" where
  "os_RemoveAll d p fs =
     (let below = filter (\<lambda>q. prefix p q) (mkeys fs)
      in case d of
           IoOk \<Rightarrow> (Ok (), fold mdel below fs)
         | IoFail e \<Rightarrow> (Err e, fs)
         | IoShort n e \<Rightarrow> (Err e, fold mdel (take n (rev (sort_key length below))) fs))"

section \<open>Facts\<close>

lemma mget_mkdirs:
  "mget (mkdirs p fs) q = (if mget fs q = None \<and> prefix q p then Some Dir else mget fs q)"
proof -
  let ?mk = "\<lambda>n fs. if mget fs (take n p) = None then mput (take n p) Dir fs else fs"
  have "mget (fold ?mk ns fs) q = (if mget fs q = None \<and> (\<exists>n \<in> set ns. q = take n p) then Some Dir else mget fs q)" for ns
    by (induction ns arbitrary: fs) auto
  moreover have "(\<exists>n \<in> set [0..<Suc (length p)]. q = take n p) \<longleftrightarrow> prefix q p"
  proof
    assume "prefix q p"
    then have "q = take (length q) p" "length q < Suc (length p)"
      by (auto simp: prefix_def)
    then show "\<exists>n \<in> set [0..<Suc (length p)]. q = take n p" by (intro bexI [of _ "length q"]) auto
  qed (auto intro: take_is_prefix)
  ultimately show ?thesis by (simp only: mkdirs_def)
qed

text \<open>Opening, writing and removing a file leave everything else as it is.\<close>

lemma open_elsewhere: "os_OpenCreate d p fs = (r, fs') \<Longrightarrow> q \<noteq> p \<Longrightarrow> mget fs' q = mget fs q"
  by (auto simp: os_OpenCreate_def split: option.splits fnode.splits io.splits if_splits)

lemma write_elsewhere: "os_WriteFile d p b fs = (r, fs') \<Longrightarrow> q \<noteq> p \<Longrightarrow> mget fs' q = mget fs q"
  by (auto simp: os_WriteFile_def split: prod.splits outcome.splits io.splits dest: open_elsewhere)

lemma write_read: "os_WriteFile d p b fs = (Ok u, fs') \<Longrightarrow> mget fs' p = Some (File b)"
  by (auto simp: os_WriteFile_def split: prod.splits outcome.splits io.splits)

lemma remove_elsewhere:
  "os_Remove d p fs = (r, fs') \<Longrightarrow> q \<noteq> p \<Longrightarrow> mget fs' q = mget fs q"
  by (auto simp: os_Remove_def split: option.splits io.splits if_splits)

section \<open>Names of files\<close>

definition plain_name :: "string \<Rightarrow> bool" where
  "plain_name c \<longleftrightarrow> c \<noteq> [] \<and> c \<noteq> ''.'' \<and> c \<noteq> ''..'' \<and> CHR ''/'' \<notin> set c"

definition plain_path :: "string \<Rightarrow> bool" where
  "plain_path s \<longleftrightarrow> list_all plain_name (Split s CHR ''/'')"

lemma Join_Split: "Join (Split s c) [c] = s"
proof (induction s)
  case (Cons x s)
  obtain l ls where "Split s c = l # ls" using Split_not_Nil [of s c] by (metis neq_Nil_conv)
  with Cons show ?case by (cases ls) simp_all
qed simp

lemma Split_inj: "Split a c = Split b c \<longleftrightarrow> a = b"
  by (metis Join_Split)

lemma clean_plain: "list_all plain_name cs \<Longrightarrow> clean_path acc cs = rev acc @ cs"
  by (induction cs arbitrary: acc) (auto simp: plain_name_def)

lemma join_plain:
  "plain_name a \<Longrightarrow> plain_path b \<Longrightarrow> filepath_Join root [a, b] = root @ a # Split b CHR ''/''"
  by (simp add: filepath_Join_def Split_no_sep plain_name_def [of a] plain_path_def clean_plain)

text \<open>
  What a store needs of the way it names its files: under names that it accepts, different items have
  different files. Then what is written for one item leaves the files of the others alone.
\<close>

locale named_files =
  fixes file_of :: "path \<Rightarrow> 'k \<Rightarrow> path"
    and named :: "'k \<Rightarrow> bool"
  assumes file_inj: "named k \<Longrightarrow> named k' \<Longrightarrow> file_of root k = file_of root k' \<Longrightarrow> k = k'"
begin

definition payload :: "path \<Rightarrow> fs \<Rightarrow> 'k \<Rightarrow> bytes option" where
  "payload root fs k = (case mget fs (file_of root k) of Some (File b) \<Rightarrow> Some b | _ \<Rightarrow> None)"

lemma payload_file: "payload root fs k = Some b \<longleftrightarrow> mget fs (file_of root k) = Some (File b)"
  by (auto simp: payload_def split: option.splits fnode.splits)

lemma mkdir_payload:
  "os_MkdirAll d p fs = (r, fs') \<Longrightarrow> payload root fs' k = payload root fs k"
  by (auto simp: payload_def os_MkdirAll_def mget_mkdirs split: option.splits io.splits fnode.splits if_splits)

lemma write_payload:
  assumes "os_WriteFile d (file_of root k) b fs = (Ok u, fs')" and "named k" and "named k'"
  shows "payload root fs' k' = (if k' = k then Some b else payload root fs k')"
proof (cases "k' = k")
  case True
  with write_read [OF assms(1)] show ?thesis by (simp add: payload_file)
next
  case False
  then have "file_of root k' \<noteq> file_of root k" using file_inj [OF assms(3,2)] by blast
  with write_elsewhere [OF assms(1)] False show ?thesis by (simp add: payload_def)
qed

lemma remove_payload:
  assumes "os_Remove d (file_of root k) fs = (Ok u, fs')" and "named k" and "named k'"
  shows "payload root fs' k' = (if k' = k then None else payload root fs k')"
proof (cases "k' = k")
  case True
  with assms(1) show ?thesis by (auto simp: payload_def os_Remove_def split: option.splits io.splits if_splits)
next
  case False
  then have "file_of root k' \<noteq> file_of root k" using file_inj [OF assms(3,2)] by blast
  with remove_elsewhere [OF assms(1)] False show ?thesis by (simp add: payload_def)
qed

end

end
