(* ===== verification/GoUrl.thy ===== *)
theory GoUrl
  imports GoText
begin

text \<open>
  Query strings, as \<^verbatim>\<open>net/url\<close> writes and reads them: escaping, \<^verbatim>\<open>Values.Encode\<close>, \<^verbatim>\<open>ParseQuery\<close>, and that
  reading gives back what was written.
\<close>

type_synonym url_Values = "(string, string list) gomap"

text \<open>\<^verbatim>\<open>Header.Get\<close> and \<^verbatim>\<open>Values.Get\<close>: the first value, or the empty string.\<close>

definition first_value :: "(string, string list) gomap \<Rightarrow> string \<Rightarrow> string" where
  "first_value m k = (case mget m k of Some (v # _) \<Rightarrow> v | _ \<Rightarrow> [])"

definition upper_hex :: "nat \<Rightarrow> char" where
  "upper_hex n = ''0123456789ABCDEF'' ! n"

definition unreserved :: "char \<Rightarrow> bool" where
  "unreserved c \<longleftrightarrow>
     (let n = byte_val c in
      (48 \<le> n \<and> n \<le> 57) \<or> (65 \<le> n \<and> n \<le> 90) \<or> (97 \<le> n \<and> n \<le> 122) \<or> c \<in> set ''-_.~'')"

definition escape_char :: "char \<Rightarrow> string" where
  "escape_char c =
     (if unreserved c then [c]
      else if c = CHR '' '' then ''+''
      else [CHR ''%'', upper_hex (byte_val c div 16), upper_hex (byte_val c mod 16)])"

definition QueryEscape :: "string \<Rightarrow> string" where
  "QueryEscape s = concat (map escape_char s)"

fun QueryUnescape :: "string \<Rightarrow> string option" where
  "QueryUnescape [] = Some []"
| "QueryUnescape (c # r) =
     (if c = CHR ''%'' then
        (case r of
           a # b # t \<Rightarrow>
             (case (hex_value a, hex_value b) of
                (Some x, Some y) \<Rightarrow> map_option (\<lambda>u. byte_of (16 * x + y) # u) (QueryUnescape t)
              | _ \<Rightarrow> None)
         | _ \<Rightarrow> None)
      else map_option (\<lambda>u. (if c = CHR ''+'' then CHR '' '' else c) # u) (QueryUnescape r))"

definition query_pair :: "string \<times> string \<Rightarrow> string" where
  "query_pair kv = QueryEscape (fst kv) @ CHR ''='' # QueryEscape (snd kv)"

definition Values_Encode :: "url_Values \<Rightarrow> string" where
  "Values_Encode v = Join (map query_pair (concat (map (\<lambda>(k, vs). map (Pair k) vs) (sort_key fst v)))) ''&''"

definition add_value :: "string \<Rightarrow> string \<Rightarrow> url_Values \<Rightarrow> url_Values" where
  "add_value k v m = mput k ((case mget m k of Some vs \<Rightarrow> vs | None \<Rightarrow> []) @ [v]) m"

text \<open>One piece between ampersands; the flag tells whether there was no error so far.\<close>

definition query_piece :: "string \<Rightarrow> url_Values \<times> bool \<Rightarrow> url_Values \<times> bool" where
  "query_piece p acc =
     (case acc of (m, good) \<Rightarrow>
        if CHR '';'' \<in> set p then (m, False)
        else if p = [] then (m, good)
        else
          let kv = SplitN2 p CHR ''=''; v = (if length kv = 2 then kv ! 1 else []) in
          case (QueryUnescape (hd kv), QueryUnescape v) of
            (Some k', Some v') \<Rightarrow> (add_value k' v' m, good)
          | _ \<Rightarrow> (m, False))"

definition ParseQuery :: "string \<Rightarrow> url_Values \<times> bool" where
  "ParseQuery q = fold query_piece (if q = [] then [] else Split q CHR ''&'') ([], True)"

section \<open>Reading back\<close>

lemma hex_upper [simp]: "n < 16 \<Longrightarrow> hex_value (upper_hex n) = Some n"
proof -
  have "list_all (\<lambda>n. hex_value (upper_hex n) = Some n) [0..<16]" by code_simp
  then show "n < 16 \<Longrightarrow> hex_value (upper_hex n) = Some n" by (simp add: list_all_iff)
qed

lemma unescape_char: "QueryUnescape (escape_char c @ s) = map_option (Cons c) (QueryUnescape s)"
proof (cases "unreserved c")
  case True
  then have "c \<noteq> CHR ''%''" "c \<noteq> CHR ''+''" by (auto simp: unreserved_def byte_val_def)
  with True show ?thesis by (simp add: escape_char_def)
next
  case False
  have d: "byte_val c div 16 < 16" using byte_val_lt [of c] by linarith
  show ?thesis
  proof (cases "c = CHR '' ''")
    case True
    with False show ?thesis by (simp add: escape_char_def)
  next
    case no: False
    have "16 * (byte_val c div 16) + byte_val c mod 16 = byte_val c" by simp
    with False no d show ?thesis by (simp add: escape_char_def)
  qed
qed

lemma query_unescape_escape [simp]: "QueryUnescape (QueryEscape s) = Some s"
  by (induction s) (simp_all add: QueryEscape_def unescape_char)

definition query_safe :: "char \<Rightarrow> bool" where
  "query_safe c \<longleftrightarrow> c \<notin> set ''&=;''"

lemma upper_hex_safe: "n < 16 \<Longrightarrow> query_safe (upper_hex n)"
proof -
  have "list_all (\<lambda>n. query_safe (upper_hex n)) [0..<16]" by code_simp
  then show "n < 16 \<Longrightarrow> query_safe (upper_hex n)" by (simp add: list_all_iff)
qed

lemma escape_safe: "c \<in> set (QueryEscape s) \<Longrightarrow> query_safe c"
proof -
  have "list_all query_safe (escape_char x)" for x
  proof -
    have "byte_val x div 16 < 16" using byte_val_lt [of x] by linarith
    moreover have "unreserved x \<Longrightarrow> query_safe x" by (auto simp: unreserved_def query_safe_def byte_val_def)
    ultimately show ?thesis by (auto simp: escape_char_def upper_hex_safe) (auto simp: query_safe_def)
  qed
  then show "c \<in> set (QueryEscape s) \<Longrightarrow> query_safe c" by (auto simp: QueryEscape_def list_all_iff)
qed

lemma escape_no [simp]:
  "CHR ''&'' \<notin> set (QueryEscape s)" "CHR ''='' \<notin> set (QueryEscape s)" "CHR '';'' \<notin> set (QueryEscape s)"
  using escape_safe [of _ s] by (auto simp: query_safe_def)

lemma query_piece_pair: "query_piece (query_pair (k, v)) (m, good) = (add_value k v m, good)"
  by (simp add: query_piece_def query_pair_def SplitN2_sep)

lemma fold_query_pieces:
  "fold query_piece (map query_pair kvs) (m, good) = (fold (\<lambda>(k, v). add_value k v) kvs m, good)"
  by (induction kvs arbitrary: m) (auto simp: query_piece_pair)

lemma ParseQuery_pairs:
  assumes "kvs \<noteq> []"
  shows "ParseQuery (Join (map query_pair kvs) ''&'') = (fold (\<lambda>(k, v). add_value k v) kvs [], True)"
proof -
  have "Split (Join (map query_pair kvs) ''&'') CHR ''&'' = map query_pair kvs"
    by (rule Split_Join) (auto simp: assms query_pair_def)
  moreover have "Join (map query_pair kvs) ''&'' \<noteq> []"
    using assms by (cases kvs; cases "tl kvs") (auto simp: query_pair_def)
  ultimately show ?thesis by (simp add: ParseQuery_def fold_query_pieces)
qed

end
