(* ===== verification/ObjectStore.thy ===== *)
theory ObjectStore
  imports GoCrypto GoFile GoUrl
begin

text \<open>
  The object store, \<^verbatim>\<open>internal/storage/object/object.go\<close>: buckets, objects with their payload in a file and
  their metadata in the store of the state package, listing, and presigned URLs. The metadata store is an
  argument; SHA-256, HMAC, paths, files and query strings are computed.
\<close>

section \<open>Data\<close>

record Object =
  ob_ID :: string
  ob_ProjectID :: string
  ob_Name :: string
  ob_Bucket :: string
  ob_Key :: string
  ob_Size :: int
  ob_SHA256 :: string

record Bucket =
  bk_ID :: string
  bk_Name :: string

record 's MetaStore =
  ms_CreateBucket :: "Bucket \<Rightarrow> 's \<Rightarrow> unit outcome \<times> 's"
  ms_DeleteBucket :: "string \<Rightarrow> 's \<Rightarrow> unit outcome \<times> 's"
  ms_PutObject :: "Object \<Rightarrow> 's \<Rightarrow> unit outcome \<times> 's"
  ms_GetObject :: "string \<Rightarrow> string \<Rightarrow> 's \<Rightarrow> Object outcome"
  ms_DeleteObject :: "string \<Rightarrow> string \<Rightarrow> 's \<Rightarrow> unit outcome \<times> 's"
  ms_ListObjects :: "string \<Rightarrow> 's \<Rightarrow> Object list outcome"

record Store =
  os_rootDir :: path
  os_hmacKey :: bytes

text \<open>The state: the metadata and the files.\<close>

type_synonym 's objects = "'s \<times> fs"

section \<open>Buckets\<close>

definition New_Store :: "io \<Rightarrow> path \<Rightarrow> path option \<Rightarrow> bytes \<Rightarrow> fs \<Rightarrow> Store outcome \<times> fs" where
  "New_Store d tempDir rootDir key fs =
     (let root = (case rootDir of None \<Rightarrow> filepath_Join tempDir [''minicloud-objects''] | Some p \<Rightarrow> p)
      in case os_MkdirAll d root fs of
           (Err e, fs') \<Rightarrow> (Err e, fs')
         | (Panic m, fs') \<Rightarrow> (Panic m, fs')
         | (Ok _, fs') \<Rightarrow> (Ok \<lparr>os_rootDir = root, os_hmacKey = (if length key = 0 then ''devkey'' else key)\<rparr>, fs'))"

definition CreateBucket :: "'s MetaStore \<Rightarrow> Store \<Rightarrow> io \<Rightarrow> string \<Rightarrow> 's objects \<Rightarrow> unit outcome \<times> 's objects" where
  "CreateBucket M S d name st =
     (case st of (s, fs) \<Rightarrow>
        if name = [] then (Err (ErrorString ''object: bucket name required''), (s, fs))
        else case ms_CreateBucket M \<lparr>bk_ID = name, bk_Name = name\<rparr> s of
               (Err e, s') \<Rightarrow> (Err e, (s', fs))
             | (Panic m, s') \<Rightarrow> (Panic m, (s', fs))
             | (Ok _, s') \<Rightarrow>
                 (case os_MkdirAll d (filepath_Join (os_rootDir S) [name]) fs of (r, fs') \<Rightarrow> (r, (s', fs'))))"

definition DeleteBucket :: "'s MetaStore \<Rightarrow> Store \<Rightarrow> io \<Rightarrow> string \<Rightarrow> 's objects \<Rightarrow> unit outcome \<times> 's objects" where
  "DeleteBucket M S d name st =
     (case st of (s, fs) \<Rightarrow>
        case ms_DeleteBucket M name s of
          (Err e, s') \<Rightarrow> (Err e, (s', fs))
        | (Panic m, s') \<Rightarrow> (Panic m, (s', fs))
        | (Ok _, s') \<Rightarrow>
            (case os_RemoveAll d (filepath_Join (os_rootDir S) [name]) fs of (r, fs') \<Rightarrow> (r, (s', fs'))))"

section \<open>Objects\<close>

definition object_path :: "path \<Rightarrow> string \<times> string \<Rightarrow> path" where
  "object_path root bk = filepath_Join root [fst bk, snd bk]"

text \<open>
  The reader that the payload comes from is its bytes, or an error after some of them. The two disk
  arguments are for making the directories and for writing the file.
\<close>

definition PutObject ::
  "'s MetaStore \<Rightarrow> Store \<Rightarrow> io \<Rightarrow> io \<Rightarrow> string \<Rightarrow> string \<Rightarrow> bytes outcome \<Rightarrow> 's objects \<Rightarrow> string outcome \<times> 's objects" where
  "PutObject M S d1 d2 bucket key data st =
     (case st of (s, fs) \<Rightarrow>
        if bucket = [] \<or> key = [] then (Err (ErrorString ''object: bucket and key required''), (s, fs))
        else case data of
          Err e \<Rightarrow> (Err e, (s, fs))
        | Panic m \<Rightarrow> (Panic m, (s, fs))
        | Ok buf \<Rightarrow>
            (let digest = hex_encode (sha256 buf); p = object_path (os_rootDir S) (bucket, key) in
             case os_MkdirAll d1 (filepath_Dir p) fs of
               (Err e, fs1) \<Rightarrow> (Err e, (s, fs1))
             | (Panic m, fs1) \<Rightarrow> (Panic m, (s, fs1))
             | (Ok _, fs1) \<Rightarrow>
                 (case os_WriteFile d2 p buf fs1 of
                    (Err e, fs2) \<Rightarrow> (Err e, (s, fs2))
                  | (Panic m, fs2) \<Rightarrow> (Panic m, (s, fs2))
                  | (Ok _, fs2) \<Rightarrow>
                      (case ms_PutObject M
                              \<lparr>ob_ID = key, ob_ProjectID = bucket, ob_Name = key, ob_Bucket = bucket, ob_Key = key,
                               ob_Size = int (length buf), ob_SHA256 = digest\<rparr> s of
                         (Err e, s') \<Rightarrow> (Err e, (s', fs2))
                       | (Panic m, s') \<Rightarrow> (Panic m, (s', fs2))
                       | (Ok _, s') \<Rightarrow> (Ok digest, (s', fs2))))))"

definition GetObject ::
  "'s MetaStore \<Rightarrow> Store \<Rightarrow> io \<Rightarrow> string \<Rightarrow> string \<Rightarrow> 's objects \<Rightarrow> (fnode \<times> Object) outcome" where
  "GetObject M S d bucket key st =
     (case st of (s, fs) \<Rightarrow>
        case ms_GetObject M bucket key s of
          Err e \<Rightarrow> Err e
        | Panic m \<Rightarrow> Panic m
        | Ok ob \<Rightarrow>
            (case os_Open d (object_path (os_rootDir S) (bucket, key)) fs of
               Err e \<Rightarrow> Err e
             | Panic m \<Rightarrow> Panic m
             | Ok f \<Rightarrow> Ok (f, ob)))"

definition DeleteObject ::
  "'s MetaStore \<Rightarrow> Store \<Rightarrow> io \<Rightarrow> string \<Rightarrow> string \<Rightarrow> 's objects \<Rightarrow> unit outcome \<times> 's objects" where
  "DeleteObject M S d bucket key st =
     (case st of (s, fs) \<Rightarrow>
        case ms_DeleteObject M bucket key s of
          (Err e, s') \<Rightarrow> (Err e, (s', fs))
        | (Panic m, s') \<Rightarrow> (Panic m, (s', fs))
        | (Ok _, s') \<Rightarrow>
            (case os_Remove d (object_path (os_rootDir S) (bucket, key)) fs of (r, fs') \<Rightarrow> (r, (s', fs'))))"

definition ListObjects :: "'s MetaStore \<Rightarrow> string \<Rightarrow> string \<Rightarrow> 's objects \<Rightarrow> Object list outcome" where
  "ListObjects M bucket pre st =
     (case st of (s, fs) \<Rightarrow>
        case ms_ListObjects M bucket s of
          Err e \<Rightarrow> Err e
        | Panic m \<Rightarrow> Panic m
        | Ok objs \<Rightarrow>
            if pre = [] then Ok (sort_key ob_Key objs)
            else Ok (sort_key ob_Key (filter (\<lambda>ob. HasPrefix (ob_Key ob) pre) objs)))"

section \<open>Presigned URLs\<close>

definition presign_mac :: "Store \<Rightarrow> string \<Rightarrow> string \<Rightarrow> string \<Rightarrow> string" where
  "presign_mac S bucket key ex = hex_encode (hmac_sha256 (os_hmacKey S) (bucket @ ''|'' @ key @ ''|'' @ ex))"

definition presign_values :: "Store \<Rightarrow> string \<Rightarrow> string \<Rightarrow> int \<Rightarrow> url_Values" where
  "presign_values S bucket key ex =
    [(''bucket'', [bucket]), (''key'', [key]), (''exp'', [FormatInt ex]),
     (''sig'', [presign_mac S bucket key (FormatInt ex)])]"

definition Presign :: "Store \<Rightarrow> time \<Rightarrow> string \<Rightarrow> string \<Rightarrow> duration \<Rightarrow> string" where
  "Presign S now bucket key ttl =
     ''/objects/presigned?'' @ Values_Encode (presign_values S bucket key (time_Unix (now + ttl)))"

definition VerifyPresign :: "Store \<Rightarrow> url_Values \<Rightarrow> (string \<times> string) outcome" where
  "VerifyPresign S v =
     (let bucket = first_value v ''bucket''; key = first_value v ''key'';
          ex = first_value v ''exp''; sig = first_value v ''sig''
      in if bucket = [] \<or> key = [] \<or> ex = [] \<or> sig = [] then Err (ErrorString ''object: missing presign fields'')
         else if presign_mac S bucket key ex \<noteq> sig then Err (ErrorString ''object: bad signature'')
         else Ok (bucket, key))"

section \<open>The store as a map\<close>

definition plain_object :: "string \<times> string \<Rightarrow> bool" where
  "plain_object bk \<longleftrightarrow> plain_name (fst bk) \<and> plain_path (snd bk)"

lemma object_path_plain:
  "plain_object bk \<Longrightarrow> object_path root bk = root @ fst bk # Split (snd bk) CHR ''/''"
  by (simp add: plain_object_def object_path_def join_plain)

interpretation objs: named_files object_path plain_object
  by unfold_locales (auto simp: object_path_plain Split_inj prod_eq_iff)

text \<open>What the metadata store promises: it is a map from buckets and keys to metadata.\<close>

definition meta_store :: "'s MetaStore \<Rightarrow> bool" where
  "meta_store M \<longleftrightarrow>
     (\<forall>ob s u s' b k. ms_PutObject M ob s = (Ok u, s') \<longrightarrow>
        ms_GetObject M b k s' = (if b = ob_Bucket ob \<and> k = ob_Key ob then Ok ob else ms_GetObject M b k s)) \<and>
     (\<forall>b0 k0 s u s' b k. ms_DeleteObject M b0 k0 s = (Ok u, s') \<longrightarrow>
        is_ok (ms_GetObject M b k s') = (is_ok (ms_GetObject M b k s) \<and> (b, k) \<noteq> (b0, k0)))"

lemma meta_put:
  "meta_store M \<Longrightarrow> ms_PutObject M ob s = (Ok u, s') \<Longrightarrow>
   ms_GetObject M b k s' = (if b = ob_Bucket ob \<and> k = ob_Key ob then Ok ob else ms_GetObject M b k s)"
  unfolding meta_store_def by blast

lemma meta_delete:
  "meta_store M \<Longrightarrow> ms_DeleteObject M b0 k0 s = (Ok u, s') \<Longrightarrow>
   is_ok (ms_GetObject M b k s') \<longleftrightarrow> is_ok (ms_GetObject M b k s) \<and> (b, k) \<noteq> (b0, k0)"
  unfolding meta_store_def by blast

text \<open>The bytes that a client reads under a plain name.\<close>

definition obj_abs :: "'s MetaStore \<Rightarrow> Store \<Rightarrow> 's objects \<Rightarrow> string \<times> string \<Rightarrow> bytes option" where
  "obj_abs M S st bk =
     (if plain_object bk
      then case GetObject M S IoOk (fst bk) (snd bk) st of Ok (File b, ob) \<Rightarrow> Some b | _ \<Rightarrow> None
      else None)"

lemma obj_abs_payload:
  "plain_object bk \<Longrightarrow> obj_abs M S (s, fs) bk =
     (if is_ok (ms_GetObject M (fst bk) (snd bk) s) then objs.payload (os_rootDir S) fs bk else None)"
  by (simp add: obj_abs_def GetObject_def os_Open_def objs.payload_def
      split: outcome.splits option.splits fnode.splits)

lemma put_steps:
  assumes "PutObject M S d1 d2 b k (Ok data) (s, fs) = (Ok digest, (s', fs'))"
  obtains fs1 u v w where "os_MkdirAll d1 (filepath_Dir (object_path (os_rootDir S) (b, k))) fs = (Ok u, fs1)"
    and "os_WriteFile d2 (object_path (os_rootDir S) (b, k)) data fs1 = (Ok v, fs')"
    and "ms_PutObject M \<lparr>ob_ID = k, ob_ProjectID = b, ob_Name = k, ob_Bucket = b, ob_Key = k,
           ob_Size = int (length data), ob_SHA256 = hex_encode (sha256 data)\<rparr> s = (Ok w, s')"
    and "digest = hex_encode (sha256 data)"
  using assms by (auto simp: PutObject_def Let_def split: if_splits prod.splits outcome.splits)

lemma delete_steps:
  assumes "DeleteObject M S d b k (s, fs) = (Ok u, (s', fs'))"
  obtains v where "ms_DeleteObject M b k s = (Ok v, s')"
    and "os_Remove d (object_path (os_rootDir S) (b, k)) fs = (Ok u, fs')"
  using assms by (auto simp: DeleteObject_def split: prod.splits outcome.splits)

lemma put_abs:
  assumes "meta_store M" and "plain_object (b, k)"
    and "PutObject M S d1 d2 b k (Ok data) (s, fs) = (Ok digest, (s', fs'))"
  shows "obj_abs M S (s', fs') = (obj_abs M S (s, fs))((b, k) \<mapsto> data)"
proof
  fix bk
  from assms(3) obtain fs1 u v w where
      m: "os_MkdirAll d1 (filepath_Dir (object_path (os_rootDir S) (b, k))) fs = (Ok u, fs1)"
    and f: "os_WriteFile d2 (object_path (os_rootDir S) (b, k)) data fs1 = (Ok v, fs')"
    and g: "ms_PutObject M \<lparr>ob_ID = k, ob_ProjectID = b, ob_Name = k, ob_Bucket = b, ob_Key = k,
           ob_Size = int (length data), ob_SHA256 = hex_encode (sha256 data)\<rparr> s = (Ok w, s')"
    by (rule put_steps)
  show "obj_abs M S (s', fs') bk = ((obj_abs M S (s, fs))((b, k) \<mapsto> data)) bk"
  proof (cases "plain_object bk")
    case True
    with objs.write_payload [OF f assms(2) True] objs.mkdir_payload [OF m]
    show ?thesis by (auto simp: obj_abs_payload meta_put [OF assms(1) g])
  next
    case False
    with assms(2) show ?thesis by (auto simp: obj_abs_def)
  qed
qed

lemma delete_abs:
  assumes "meta_store M" and "plain_object (b, k)"
    and "DeleteObject M S d b k (s, fs) = (Ok u, (s', fs'))"
  shows "obj_abs M S (s', fs') = (obj_abs M S (s, fs))((b, k) := None)"
proof
  fix bk
  from assms(3) obtain v where g: "ms_DeleteObject M b k s = (Ok v, s')"
    and f: "os_Remove d (object_path (os_rootDir S) (b, k)) fs = (Ok u, fs')"
    by (rule delete_steps)
  show "obj_abs M S (s', fs') bk = ((obj_abs M S (s, fs))((b, k) := None)) bk"
  proof (cases "plain_object bk")
    case True
    with objs.remove_payload [OF f assms(2) True]
    show ?thesis by (cases bk) (auto simp: obj_abs_payload meta_delete [OF assms(1) g])
  next
    case False
    then show ?thesis by (auto simp: obj_abs_def)
  qed
qed

text \<open>
  Property C24. Under plain names (a bucket of one path component, a key of such components) the object store
  is a map: an upload that succeeds maps the key of the bucket to the uploaded bytes, a removal that
  succeeds unmaps it, and both leave what is read under every other plain name as it was, other buckets
  included.
\<close>

theorem objects_refine_map:
  assumes "meta_store M" and "plain_object (b, k)"
  shows "(\<forall>d1 d2 data digest. PutObject M S d1 d2 b k (Ok data) st = (Ok digest, st') \<longrightarrow>
      obj_abs M S st' = (obj_abs M S st)((b, k) \<mapsto> data))
    \<and> (\<forall>d u. DeleteObject M S d b k st = (Ok u, st') \<longrightarrow>
      obj_abs M S st' = (obj_abs M S st)((b, k) := None))"
  using put_abs [OF assms, of S _ _ _ "fst st" "snd st" _ "fst st'" "snd st'"]
    delete_abs [OF assms, of S _ "fst st" "snd st" _ "fst st'" "snd st'"] by simp

text \<open>A listing has exactly the objects of the bucket whose key has the prefix, in the order of the keys.\<close>

lemma list_objects_spec:
  assumes "ListObjects M bucket pre (s, fs) = Ok xs" and "ms_ListObjects M bucket s = Ok objs"
  shows "sorted (map ob_Key xs)" and "mset xs = filter_mset (\<lambda>ob. prefix pre (ob_Key ob)) (mset objs)"
  using assms by (auto simp: ListObjects_def HasPrefix_iff_prefix split: if_splits)

section \<open>Keys that leave their bucket\<close>

lemma escaping_path:
  assumes "plain_name b" and "plain_object (b', k)"
  shows "object_path root (b, ''../'' @ b' @ ''/'' @ k) = object_path root (b', k)"
proof -
  have "Split (''../'' @ b' @ ''/'' @ k) CHR ''/'' = ''..'' # b' # Split k CHR ''/''"
    using assms(2) Split_append_sep [of "CHR ''/''" b' k] by (simp add: plain_object_def plain_name_def)
  moreover have "Split b CHR ''/'' = [b]" using assms(1) by (simp add: plain_name_def Split_no_sep)
  moreover have "list_all plain_name (b' # Split k CHR ''/'')"
    using assms(2) by (simp add: plain_object_def plain_path_def)
  moreover have "clean_path (rev root) (b # ''..'' # cs) = clean_path (rev root) cs" for cs
    using assms(1) by (simp add: plain_name_def)
  ultimately have "object_path root (b, ''../'' @ b' @ ''/'' @ k) = root @ b' # Split k CHR ''/''"
    by (simp add: object_path_def filepath_Join_def clean_plain del: clean_path.simps)
  then show ?thesis by (simp add: object_path_plain [OF assms(2)])
qed

text \<open>
  Property C27. Buckets do not confine their objects: an upload to bucket \<^verbatim>\<open>b\<close> under the key \<^verbatim>\<open>../c/k\<close> replaces the
  payload of the object \<^verbatim>\<open>k\<close> of bucket \<^verbatim>\<open>c\<close>, and a reader of that object gets the new bytes with the size and
  the digest of the old ones.
\<close>

theorem upload_escapes_bucket:
  assumes "meta_store M" and "plain_name b" and "plain_object (c, k)"
    and "ms_GetObject M c k s = Ok ob"
    and "PutObject M S d1 d2 b (''../'' @ c @ ''/'' @ k) (Ok data) (s, fs) = (Ok digest, (s', fs'))"
  shows "GetObject M S IoOk c k (s', fs') = Ok (File data, ob)"
proof -
  from assms(5) obtain fs1 u v w where
      f: "os_WriteFile d2 (object_path (os_rootDir S) (b, ''../'' @ c @ ''/'' @ k)) data fs1 = (Ok v, fs')"
    and g: "ms_PutObject M \<lparr>ob_ID = ''../'' @ c @ ''/'' @ k, ob_ProjectID = b, ob_Name = ''../'' @ c @ ''/'' @ k,
           ob_Bucket = b, ob_Key = ''../'' @ c @ ''/'' @ k,
           ob_Size = int (length data), ob_SHA256 = hex_encode (sha256 data)\<rparr> s = (Ok w, s')"
    by (rule put_steps)
  have "length k < length (''../'' @ c @ ''/'' @ k)" by simp
  then have "k \<noteq> ''../'' @ c @ ''/'' @ k" by (metis less_irrefl)
  then have "ms_GetObject M c k s' = Ok ob" using meta_put [OF assms(1) g, of c k] assms(4) by auto
  moreover have "mget fs' (object_path (os_rootDir S) (c, k)) = Some (File data)"
    using write_read [OF f] by (simp only: escaping_path [OF assms(2,3)])
  ultimately show ?thesis by (simp add: GetObject_def os_Open_def)
qed

section \<open>Presigned URLs\<close>

lemma presign_query:
  "Values_Encode (presign_values S bucket key ex) =
    Join (map query_pair [(''bucket'', bucket), (''exp'', FormatInt ex), (''key'', key),
      (''sig'', presign_mac S bucket key (FormatInt ex))]) ''&''"
proof -
  have "sort_key fst (presign_values S bucket key ex) =
      [(''bucket'', [bucket]), (''exp'', [FormatInt ex]), (''key'', [key]),
       (''sig'', [presign_mac S bucket key (FormatInt ex)])]"
    by (simp add: presign_values_def)
  then show ?thesis by (simp add: Values_Encode_def)
qed

lemma presign_mac_ne: "presign_mac S bucket key ex \<noteq> []"
proof -
  have "length (presign_mac S bucket key ex) = 64" by (simp add: presign_mac_def)
  then show ?thesis by auto
qed

lemma FormatInt_ne: "FormatInt i \<noteq> []"
  by (simp add: FormatInt_def)

text \<open>
  Property C28. A presigned URL is accepted for its bucket and key after it went through the encoding and
  the decoding of its query, whatever bytes the names have. The lifetime plays no part: a URL that was
  issued with a lifetime of 0, or of less, is accepted too, and forever.
\<close>

theorem presign_round_trip:
  assumes "bucket \<noteq> []" and "key \<noteq> []"
  shows "VerifyPresign S (fst (ParseQuery (TrimPrefix (Presign S now bucket key ttl) ''/objects/presigned?''))) = Ok (bucket, key)"
proof -
  let ?ex = "FormatInt (time_Unix (now + ttl))"
  let ?kvs = "[(''bucket'', bucket), (''exp'', ?ex), (''key'', key), (''sig'', presign_mac S bucket key ?ex)]"
  have "TrimPrefix (Presign S now bucket key ttl) ''/objects/presigned?'' = Join (map query_pair ?kvs) ''&''"
    unfolding Presign_def presign_query by (rule TrimPrefix_append)
  then have "ParseQuery (TrimPrefix (Presign S now bucket key ttl) ''/objects/presigned?'') =
      (fold (\<lambda>(k, v). add_value k v) ?kvs [], True)"
    using ParseQuery_pairs [of ?kvs] by simp
  then show ?thesis
    by (simp add: VerifyPresign_def first_value_def add_value_def assms presign_mac_ne FormatInt_ne)
qed

text \<open>
  The signature does not separate the bucket from the key: the expiry and the signature of a
  URL for the key \<^verbatim>\<open>k|l\<close> of bucket \<^verbatim>\<open>b\<close> also open the key \<^verbatim>\<open>l\<close> of the bucket \<^verbatim>\<open>b|k\<close>.
\<close>

theorem presigned_url_opens_other_object:
  assumes "l \<noteq> []" and "presign_values S b (k @ ''|'' @ l) ex = [(''bucket'', vb), (''key'', vk), (''exp'', ve), (''sig'', vs)]"
  shows "VerifyPresign S [(''bucket'', [b @ ''|'' @ k]), (''key'', [l]), (''exp'', ve), (''sig'', vs)] = Ok (b @ ''|'' @ k, l)"
proof -
  have "ve = [FormatInt ex]" and "vs = [presign_mac S b (k @ ''|'' @ l) (FormatInt ex)]"
    using assms(2) by (simp_all add: presign_values_def)
  moreover have "presign_mac S b (k @ ''|'' @ l) e = presign_mac S (b @ ''|'' @ k) l e" for e
    by (simp add: presign_mac_def)
  ultimately show ?thesis
    by (simp add: VerifyPresign_def first_value_def mget_def assms(1) presign_mac_ne FormatInt_ne)
qed

section \<open>A concrete metadata store\<close>

type_synonym demo_meta = "(string \<times> string, Object) gomap"

definition demo_metas :: "demo_meta MetaStore" where
  "demo_metas =
    \<lparr>ms_CreateBucket = (\<lambda>b s. (Ok (), s)), ms_DeleteBucket = (\<lambda>b s. (Ok (), s)),
     ms_PutObject = (\<lambda>ob s. (Ok (), mput (ob_Bucket ob, ob_Key ob) ob s)),
     ms_GetObject = (\<lambda>b k s. case mget s (b, k) of Some ob \<Rightarrow> Ok ob | None \<Rightarrow> Err (ErrorString ''not found'')),
     ms_DeleteObject = (\<lambda>b k s. (Ok (), mdel (b, k) s)),
     ms_ListObjects = (\<lambda>b s. Ok (map snd (filter (\<lambda>x. fst (fst x) = b) s)))\<rparr>"

lemma demo_metas_ok: "meta_store demo_metas"
  by (auto simp: meta_store_def demo_metas_def split: option.splits)

definition demo_store :: Store where
  "demo_store = \<lparr>os_rootDir = [''data''], os_hmacKey = ''devkey''\<rparr>"

definition demo_disk :: fs where
  "demo_disk = [([], Dir), ([''data''], Dir), ([''data'', ''c''], Dir)]"

definition demo_put :: "string \<Rightarrow> string \<Rightarrow> bytes \<Rightarrow> demo_meta objects \<Rightarrow> string outcome \<times> demo_meta objects" where
  "demo_put b k data = PutObject demo_metas demo_store IoOk IoOk b k (Ok data)"

lemma demo_put_ck:
  "\<exists>digest st'. demo_put ''c'' ''k'' ''one'' ([], demo_disk) = (Ok digest, st')"
  by (simp add: demo_put_def PutObject_def Let_def object_path_def filepath_Join_def filepath_Dir_def demo_store_def
      demo_disk_def demo_metas_def os_MkdirAll_def mkdirs_def os_WriteFile_def os_OpenCreate_def map_exec numeral_nat)

theorem objects_refine_map_witness:
  "\<exists>digest st'. PutObject demo_metas demo_store IoOk IoOk ''c'' ''k'' (Ok ''one'') ([], demo_disk) = (Ok digest, st')
    \<and> obj_abs demo_metas demo_store st' (''c'', ''k'') = Some ''one''"
proof -
  obtain digest st' where p: "PutObject demo_metas demo_store IoOk IoOk ''c'' ''k'' (Ok ''one'') ([], demo_disk) = (Ok digest, st')"
    using demo_put_ck by (auto simp: demo_put_def)
  have "plain_object (''c'', ''k'')" by code_simp
  from objects_refine_map [OF demo_metas_ok this] p
  have "obj_abs demo_metas demo_store st' = (obj_abs demo_metas demo_store ([], demo_disk))((''c'', ''k'') \<mapsto> ''one'')"
    by blast
  with p show ?thesis by (intro exI [of _ digest] exI [of _ st']) simp
qed

definition demo_object :: Object where
  "demo_object = \<lparr>ob_ID = ''k'', ob_ProjectID = ''c'', ob_Name = ''k'', ob_Bucket = ''c'', ob_Key = ''k'', ob_Size = 3, ob_SHA256 = ''old''\<rparr>"

theorem upload_escapes_bucket_witness:
  "\<exists>digest st'. PutObject demo_metas demo_store IoOk IoOk ''b'' ''../c/k'' (Ok ''evil'') ([((''c'', ''k''), demo_object)], demo_disk)
      = (Ok digest, st')
    \<and> GetObject demo_metas demo_store IoOk ''c'' ''k'' st' = Ok (File ''evil'', demo_object)"
proof -
  let ?s = "[((''c'', ''k''), demo_object)]"
  have "\<exists>digest s' fs'. PutObject demo_metas demo_store IoOk IoOk ''b'' ''../c/k'' (Ok ''evil'') (?s, demo_disk) = (Ok digest, (s', fs'))"
    by (simp add: PutObject_def Let_def object_path_def filepath_Join_def filepath_Dir_def demo_store_def
      demo_disk_def demo_metas_def os_MkdirAll_def mkdirs_def os_WriteFile_def os_OpenCreate_def map_exec numeral_nat)
  then obtain digest s' fs' where
    p: "PutObject demo_metas demo_store IoOk IoOk ''b'' ''../c/k'' (Ok ''evil'') (?s, demo_disk) = (Ok digest, (s', fs'))" by blast
  have n: "plain_name ''b''" "plain_object (''c'', ''k'')" by code_simp+
  have g: "ms_GetObject demo_metas ''c'' ''k'' ?s = Ok demo_object" by (simp add: demo_metas_def mget_def)
  have "GetObject demo_metas demo_store IoOk ''c'' ''k'' (s', fs') = Ok (File ''evil'', demo_object)"
    by (rule upload_escapes_bucket [OF demo_metas_ok n g, of demo_store IoOk IoOk "''evil''" demo_disk digest]) (simp add: p)
  with p show ?thesis by (intro exI [of _ digest] exI [of _ "(s', fs')"] conjI)
qed

theorem presign_round_trip_witness:
  "VerifyPresign demo_store (fst (ParseQuery (TrimPrefix (Presign demo_store (62135596800 * second) ''b'' ''a b/c&d'' (- second))
     ''/objects/presigned?''))) = Ok (''b'', ''a b/c&d'')"
  by (rule presign_round_trip) simp_all

theorem presigned_url_opens_other_object_witness:
  "\<exists>ve vs. presign_values demo_store ''b'' ''k|l'' 7 = [(''bucket'', [''b'']), (''key'', [''k|l'']), (''exp'', ve), (''sig'', vs)]
    \<and> VerifyPresign demo_store [(''bucket'', [''b|k'']), (''key'', [''l'']), (''exp'', ve), (''sig'', vs)] = Ok (''b|k'', ''l'')"
proof -
  obtain ve vs where v: "presign_values demo_store ''b'' ''k|l'' 7 = [(''bucket'', [''b'']), (''key'', [''k|l'']), (''exp'', ve), (''sig'', vs)]"
    by (simp add: presign_values_def)
  with presigned_url_opens_other_object [of "''l''" demo_store "''b''" "''k''" 7 "[''b'']" "[''k|l'']" ve vs]
  show ?thesis by (intro exI [of _ ve] exI [of _ vs]) simp
qed

end
