(* ===== verification/VolumeManager.thy ===== *)
theory VolumeManager
  imports GoFile
begin

text \<open>
  The volume manager, \<^verbatim>\<open>internal/storage/volume/volume.go\<close>: volumes with a data file and a record in the
  store of the state package, attached to nodes and detached, and snapshots of their files. The store is
  an argument.
\<close>

section \<open>Data\<close>

record Volume =
  vo_ID :: string
  vo_ProjectID :: string
  vo_Name :: string
  vo_SizeBytes :: int
  vo_NodeID :: string
  vo_Status :: string

record 's VolumeStore =
  vs_CreateVolume :: "Volume \<Rightarrow> 's \<Rightarrow> unit outcome \<times> 's"
  vs_GetVolume :: "string \<Rightarrow> string \<Rightarrow> 's \<Rightarrow> Volume outcome"
  vs_UpdateVolume :: "Volume \<Rightarrow> 's \<Rightarrow> unit outcome \<times> 's"
  vs_DeleteVolume :: "string \<Rightarrow> string \<Rightarrow> 's \<Rightarrow> unit outcome \<times> 's"

type_synonym 's volumes = "'s \<times> fs"

section \<open>Operations\<close>

definition New_VolumeManager :: "io \<Rightarrow> path \<Rightarrow> path option \<Rightarrow> fs \<Rightarrow> path outcome \<times> fs" where
  "New_VolumeManager d tempDir rootDir fs =
     (let root = (case rootDir of None \<Rightarrow> filepath_Join tempDir [''minicloud-volumes''] | Some p \<Rightarrow> p)
      in case os_MkdirAll d root fs of
           (Err e, fs') \<Rightarrow> (Err e, fs')
         | (Panic m, fs') \<Rightarrow> (Panic m, fs')
         | (Ok _, fs') \<Rightarrow> (Ok root, fs'))"

definition volume_path :: "path \<Rightarrow> string \<times> string \<Rightarrow> path" where
  "volume_path root pv = filepath_Join root [fst pv, snd pv @ ''.vol'']"

text \<open>\<^verbatim>\<open>File.Truncate\<close>: cut off, or filled up with zero bytes.\<close>

definition truncated :: "nat \<Rightarrow> bytes \<Rightarrow> bytes" where
  "truncated n b = take n (b @ replicate (n - length b) CHR 0x00)"

definition Create ::
  "'s VolumeStore \<Rightarrow> path \<Rightarrow> io \<Rightarrow> io \<Rightarrow> io \<Rightarrow> string \<Rightarrow> string \<Rightarrow> int \<Rightarrow> string \<Rightarrow> 's volumes
   \<Rightarrow> unit outcome \<times> 's volumes" where
  "Create V root d1 d2 d3 projectID i sizeBytes nodeID st =
     (case st of (s, fs) \<Rightarrow>
        if sizeBytes \<le> 0 then (Err (ErrorString ''volume: size must be positive''), (s, fs))
        else case vs_CreateVolume V
                    \<lparr>vo_ID = i, vo_ProjectID = projectID, vo_Name = i, vo_SizeBytes = sizeBytes, vo_NodeID = nodeID,
                     vo_Status = ''Available''\<rparr> s of
          (Err e, s') \<Rightarrow> (Err e, (s', fs))
        | (Panic m, s') \<Rightarrow> (Panic m, (s', fs))
        | (Ok _, s') \<Rightarrow>
            (let p = volume_path root (projectID, i) in
             case os_MkdirAll d1 (filepath_Dir p) fs of
               (Err e, fs1) \<Rightarrow> (Err e, (s', fs1))
             | (Panic m, fs1) \<Rightarrow> (Panic m, (s', fs1))
             | (Ok _, fs1) \<Rightarrow>
                 (case os_OpenCreate d2 p fs1 of
                    (Err e, fs2) \<Rightarrow> (Err e, (s', fs2))
                  | (Panic m, fs2) \<Rightarrow> (Panic m, (s', fs2))
                  | (Ok b, fs2) \<Rightarrow>
                      (case d3 of
                         IoOk \<Rightarrow> (Ok (), (s', mput p (File (truncated (nat sizeBytes) b)) fs2))
                       | IoFail e \<Rightarrow> (Err e, (s', fs2))
                       | IoShort n e \<Rightarrow> (Err e, (s', fs2))))))"

definition Attach ::
  "'s VolumeStore \<Rightarrow> string \<Rightarrow> string \<Rightarrow> string \<Rightarrow> 's volumes \<Rightarrow> unit outcome \<times> 's volumes" where
  "Attach V projectID i nodeID st =
     (case st of (s, fs) \<Rightarrow>
        case vs_GetVolume V projectID i s of
          Err e \<Rightarrow> (Err e, (s, fs))
        | Panic m \<Rightarrow> (Panic m, (s, fs))
        | Ok v \<Rightarrow>
            (case vs_UpdateVolume V (v\<lparr>vo_NodeID := nodeID, vo_Status := ''InUse''\<rparr>) s of (r, s') \<Rightarrow> (r, (s', fs))))"

definition Detach :: "'s VolumeStore \<Rightarrow> string \<Rightarrow> string \<Rightarrow> 's volumes \<Rightarrow> unit outcome \<times> 's volumes" where
  "Detach V projectID i st =
     (case st of (s, fs) \<Rightarrow>
        case vs_GetVolume V projectID i s of
          Err e \<Rightarrow> (Err e, (s, fs))
        | Panic m \<Rightarrow> (Panic m, (s, fs))
        | Ok v \<Rightarrow> (case vs_UpdateVolume V (v\<lparr>vo_Status := ''Available''\<rparr>) s of (r, s') \<Rightarrow> (r, (s', fs))))"

definition Delete :: "'s VolumeStore \<Rightarrow> path \<Rightarrow> io \<Rightarrow> string \<Rightarrow> string \<Rightarrow> 's volumes \<Rightarrow> unit outcome \<times> 's volumes" where
  "Delete V root d projectID i st =
     (case st of (s, fs) \<Rightarrow>
        case vs_DeleteVolume V projectID i s of
          (Err e, s') \<Rightarrow> (Err e, (s', fs))
        | (Panic m, s') \<Rightarrow> (Panic m, (s', fs))
        | (Ok _, s') \<Rightarrow> (case os_Remove d (volume_path root (projectID, i)) fs of (r, fs') \<Rightarrow> (r, (s', fs'))))"

definition Read :: "'s VolumeStore \<Rightarrow> path \<Rightarrow> io \<Rightarrow> string \<Rightarrow> string \<Rightarrow> 's volumes \<Rightarrow> fnode outcome" where
  "Read V root d projectID i st =
     (case st of (s, fs) \<Rightarrow>
        case vs_GetVolume V projectID i s of
          Err e \<Rightarrow> Err e
        | Panic m \<Rightarrow> Panic m
        | Ok _ \<Rightarrow> os_Open d (volume_path root (projectID, i)) fs)"

text \<open>
  A snapshot writes the bytes of the source over the start of the destination, which is not truncated.
  The copy may break off after some bytes.
\<close>

definition Snapshot :: "path \<Rightarrow> io \<Rightarrow> io \<Rightarrow> io \<Rightarrow> io \<Rightarrow> string \<Rightarrow> string \<Rightarrow> string \<Rightarrow> fs \<Rightarrow> unit outcome \<times> fs" where
  "Snapshot root d1 d2 d3 d4 projectID volID snapID fs =
     (let src = volume_path root (projectID, volID); dst = volume_path root (projectID, snapID) in
      if mget fs src = None
      then (Err (WrapError ''volume: source missing'' (path_error ''stat'' src ENOENT)), fs)
      else case os_MkdirAll d1 (filepath_Dir dst) fs of
        (Err e, fs1) \<Rightarrow> (Err e, fs1)
      | (Panic m, fs1) \<Rightarrow> (Panic m, fs1)
      | (Ok _, fs1) \<Rightarrow>
          (case os_Open d2 src fs1 of
             Err e \<Rightarrow> (Err e, fs1)
           | Panic m \<Rightarrow> (Panic m, fs1)
           | Ok inp \<Rightarrow>
               (case os_OpenCreate d3 dst fs1 of
                  (Err e, fs2) \<Rightarrow> (Err e, fs2)
                | (Panic m, fs2) \<Rightarrow> (Panic m, fs2)
                | (Ok old, fs2) \<Rightarrow>
                    (case inp of
                       Dir \<Rightarrow> (Err (path_error ''read'' src EISDIR), fs2)
                     | File b \<Rightarrow>
                         (case d4 of
                            IoOk \<Rightarrow> (Ok (), mput dst (File (b @ drop (length b) old)) fs2)
                          | IoFail e \<Rightarrow> (Err e, fs2)
                          | IoShort n e \<Rightarrow> (Err e, mput dst (File (take n b @ drop (length (take n b)) old)) fs2))))))"

section \<open>Volumes and their files\<close>

definition plain_volume :: "string \<times> string \<Rightarrow> bool" where
  "plain_volume pv \<longleftrightarrow> plain_name (fst pv) \<and> plain_path (snd pv @ ''.vol'')"

lemma volume_path_plain:
  "plain_volume pv \<Longrightarrow> volume_path root pv = root @ fst pv # Split (snd pv @ ''.vol'') CHR ''/''"
  by (simp add: plain_volume_def volume_path_def join_plain)

interpretation vols: named_files volume_path plain_volume
  by unfold_locales (auto simp: volume_path_plain Split_inj prod_eq_iff)

text \<open>The data of a volume: the bytes of its file.\<close>

definition volume_data :: "path \<Rightarrow> fs \<Rightarrow> string \<times> string \<Rightarrow> bytes option" where
  "volume_data root fs pv = (case mget fs (volume_path root pv) of Some (File b) \<Rightarrow> Some b | _ \<Rightarrow> None)"

lemma volume_data_payload: "volume_data = vols.payload"
  by (intro ext) (simp add: volume_data_def vols.payload_def)

text \<open>What the store promises: a volume that was created is found.\<close>

definition volume_store :: "'s VolumeStore \<Rightarrow> bool" where
  "volume_store V \<longleftrightarrow>
     (\<forall>v s u s'. vs_CreateVolume V v s = (Ok u, s') \<longrightarrow> is_ok (vs_GetVolume V (vo_ProjectID v) (vo_ID v) s'))"

lemma open_content:
  "os_OpenCreate d p fs = (Ok b, fs') \<Longrightarrow> b = (case mget fs p of Some (File b) \<Rightarrow> b | _ \<Rightarrow> [])"
  by (auto simp: os_OpenCreate_def split: option.splits fnode.splits io.splits if_splits)

lemma create_reads:
  assumes "volume_store V" and "Create V root d1 d2 d3 p i n nodeID (s, fs) = (Ok u, (s', fs'))"
  shows "Read V root IoOk p i (s', fs') =
    Ok (File (truncated (nat n) (case vols.payload root fs (p, i) of Some b \<Rightarrow> b | None \<Rightarrow> [])))"
proof -
  let ?p = "volume_path root (p, i)"
  from assms(2) obtain v fs1 x y b fs2 where
      c: "vs_CreateVolume V \<lparr>vo_ID = i, vo_ProjectID = p, vo_Name = i, vo_SizeBytes = n, vo_NodeID = nodeID,
            vo_Status = ''Available''\<rparr> s = (Ok v, s')"
    and m: "os_MkdirAll d1 (filepath_Dir ?p) fs = (Ok x, fs1)"
    and o: "os_OpenCreate d2 ?p fs1 = (Ok b, fs2)"
    and f: "fs' = mput ?p (File (truncated (nat n) b)) fs2"
    by (auto simp: Create_def Let_def split: if_splits prod.splits outcome.splits io.splits)
  have "b = (case vols.payload root fs1 (p, i) of Some b \<Rightarrow> b | None \<Rightarrow> [])"
    using open_content [OF o] by (simp add: vols.payload_def split: option.splits fnode.splits)
  then have "b = (case vols.payload root fs (p, i) of Some b \<Rightarrow> b | None \<Rightarrow> [])"
    by (simp add: vols.mkdir_payload [OF m])
  moreover have "is_ok (vs_GetVolume V p i s')"
    using assms(1) c unfolding volume_store_def by fastforce
  ultimately show ?thesis by (auto simp: Read_def os_Open_def f is_ok_iff)
qed

lemma recreated_payload:
  assumes "volume_store V"
    and "Delete V root (IoFail e) p i (s, fs) = (r, (s1, fs1))" and "vols.payload root fs (p, i) = old"
    and "Create V root d1 d2 d3 p i n nodeID (s1, fs1) = (Ok u, (s2, fs2))"
    and "case old of Some b \<Rightarrow> length b = nat n | None \<Rightarrow> True"
  shows "Read V root IoOk p i (s2, fs2) =
    Ok (File (case old of Some b \<Rightarrow> b | None \<Rightarrow> replicate (nat n) CHR 0x00))"
proof -
  have "fs1 = fs"
    using assms(2)
    by (auto simp: Delete_def os_Remove_def split: prod.splits outcome.splits option.splits if_splits)
  with create_reads [OF assms(1,4)] assms(3,5) show ?thesis
    by (simp add: truncated_def split: option.splits)
qed

text \<open>
  A new volume is not always empty: when the removal of a volume deleted its record and then
  failed to delete its file, the next volume that is created with the same name and size hands out the
  data of the removed one; when no file is left over, it reads as zero bytes.
\<close>

theorem recreated_volume_shows_old_data:
  assumes "volume_store V"
    and "Delete V root (IoFail e) p i (s, fs) = (r, (s1, fs1))" and "volume_data root fs (p, i) = old"
    and "Create V root d1 d2 d3 p i n nodeID (s1, fs1) = (Ok u, (s2, fs2))"
    and "case old of Some b \<Rightarrow> length b = nat n | None \<Rightarrow> True"
  shows "Read V root IoOk p i (s2, fs2) =
    Ok (File (case old of Some b \<Rightarrow> b | None \<Rightarrow> replicate (nat n) CHR 0x00))"
  using assms unfolding volume_data_payload by (rule recreated_payload)

lemma snapshot_payload:
  assumes "plain_volume (p, vol)" and "plain_volume (p, snap)" and "plain_volume other"
    and "other \<noteq> (p, snap)"
    and "vols.payload root fs (p, vol) = Some b"
    and "vols.payload root fs (p, snap) = old"
    and "Snapshot root d1 d2 d3 d4 p vol snap fs = (Ok u, fs')"
  shows "vols.payload root fs' (p, snap) = Some (b @ (case old of Some c \<Rightarrow> drop (length b) c | None \<Rightarrow> []))
    \<and> vols.payload root fs' other = vols.payload root fs other"
proof -
  let ?src = "volume_path root (p, vol)" and ?dst = "volume_path root (p, snap)"
  from assms(7) obtain fs1 fs2 x inp c where
      m: "os_MkdirAll d1 (filepath_Dir ?dst) fs = (Ok x, fs1)"
    and i: "os_Open d2 ?src fs1 = Ok (File inp)"
    and o: "os_OpenCreate d3 ?dst fs1 = (Ok c, fs2)"
    and f: "fs' = mput ?dst (File (inp @ drop (length inp) c)) fs2"
    by (auto simp: Snapshot_def Let_def split: if_splits prod.splits outcome.splits fnode.splits io.splits)
  have pay: "vols.payload root fs1 k = vols.payload root fs k" for k by (rule vols.mkdir_payload [OF m])
  have "vols.payload root fs1 (p, vol) = Some inp"
    using i by (auto simp: os_Open_def vols.payload_file split: option.splits io.splits)
  then have inp: "inp = b" using assms(5) pay by simp
  have "c = (case vols.payload root fs1 (p, snap) of Some b \<Rightarrow> b | None \<Rightarrow> [])"
    using open_content [OF o] by (simp add: vols.payload_def split: option.splits fnode.splits)
  then have c: "c = (case old of Some b \<Rightarrow> b | None \<Rightarrow> [])" using assms(6) pay by simp
  have "volume_path root other \<noteq> ?dst" using vols.file_inj [OF assms(3,2)] assms(4) by blast
  then have "vols.payload root fs' other = vols.payload root fs1 other"
    using open_elsewhere [OF o] by (simp add: vols.payload_def f)
  moreover have "vols.payload root fs' (p, snap) = Some (b @ (case old of Some c \<Rightarrow> drop (length b) c | None \<Rightarrow> []))"
    by (simp add: vols.payload_file f inp c split: option.splits)
  ultimately show ?thesis by (simp add: pay)
qed

text \<open>
  What a snapshot holds: the data of the volume, followed by what an older and longer file of
  the same name had after that point; so it is a copy exactly if no longer file was there. The files of all
  other volumes with plain names, the source included, stay as they are.
\<close>

theorem snapshot_contents:
  assumes "plain_volume (p, vol)" and "plain_volume (p, snap)" and "plain_volume other"
    and "other \<noteq> (p, snap)"
    and "volume_data root fs (p, vol) = Some b"
    and "volume_data root fs (p, snap) = old"
    and "Snapshot root d1 d2 d3 d4 p vol snap fs = (Ok u, fs')"
  shows "volume_data root fs' (p, snap) = Some (b @ (case old of Some c \<Rightarrow> drop (length b) c | None \<Rightarrow> []))
    \<and> volume_data root fs' other = volume_data root fs other"
  using assms unfolding volume_data_payload by (rule snapshot_payload)

text \<open>Attaching does not look at the status: a volume in use on one node is taken over by another.\<close>

lemma attach_takes_over:
  assumes "vs_GetVolume V p i s = Ok v" and "vo_Status v = ''InUse''" and "vo_NodeID v \<noteq> nodeID"
  shows "Attach V p i nodeID (s, fs) =
    (case vs_UpdateVolume V (v\<lparr>vo_NodeID := nodeID\<rparr>) s of (r, s') \<Rightarrow> (r, (s', fs)))"
proof -
  have "v\<lparr>vo_NodeID := nodeID, vo_Status := ''InUse''\<rparr> = v\<lparr>vo_NodeID := nodeID\<rparr>"
    using assms(2) by (cases v) simp
  then show ?thesis by (simp add: Attach_def assms(1))
qed

section \<open>A concrete store of volumes\<close>

type_synonym demo_vols = "(string \<times> string, Volume) gomap"

definition demo_volumes :: "demo_vols VolumeStore" where
  "demo_volumes =
    \<lparr>vs_CreateVolume = (\<lambda>v s. (Ok (), mput (vo_ProjectID v, vo_ID v) v s)),
     vs_GetVolume = (\<lambda>p i s. case mget s (p, i) of Some v \<Rightarrow> Ok v | None \<Rightarrow> Err (ErrorString ''not found'')),
     vs_UpdateVolume = (\<lambda>v s. (Ok (), mput (vo_ProjectID v, vo_ID v) v s)),
     vs_DeleteVolume = (\<lambda>p i s. (Ok (), mdel (p, i) s))\<rparr>"

lemma demo_volumes_ok: "volume_store demo_volumes"
  by (simp add: volume_store_def demo_volumes_def)

definition demo_tree :: fs where
  "demo_tree = [([], Dir), ([''v''], Dir), ([''v'', ''p''], Dir), ([''v'', ''p'', ''a.vol''], File ''key''),
     ([''v'', ''p'', ''s.vol''], File ''stale'')]"

lemmas demo_eval = Let_def volume_path_def filepath_Join_def filepath_Dir_def demo_tree_def demo_volumes_def
  os_MkdirAll_def mkdirs_def os_OpenCreate_def os_Open_def os_Remove_def map_exec numeral_nat

lemma demo_payload:
  "volume_data [''v''] demo_tree (''p'', ''a'') = Some ''key''"
  "volume_data [''v''] demo_tree (''p'', ''s'') = Some ''stale''"
  by (simp_all add: volume_data_def demo_eval)

theorem recreated_volume_shows_old_data_witness:
  "\<exists>r st1 u st2. Delete demo_volumes [''v''] (IoFail (ErrorString ''busy'')) ''p'' ''a'' ([], demo_tree) = (r, st1)
    \<and> Create demo_volumes [''v''] IoOk IoOk IoOk ''p'' ''a'' 3 ''n1'' st1 = (Ok u, st2)
    \<and> Read demo_volumes [''v''] IoOk ''p'' ''a'' st2 = Ok (File ''key'')"
proof -
  have d: "Delete demo_volumes [''v''] (IoFail (ErrorString ''busy'')) ''p'' ''a'' ([], demo_tree)
      = (Err (ErrorString ''busy''), ([], demo_tree))"
    by (simp add: Delete_def demo_eval)
  have "\<exists>s2 fs2. Create demo_volumes [''v''] IoOk IoOk IoOk ''p'' ''a'' 3 ''n1'' ([], demo_tree) = (Ok (), (s2, fs2))"
    by (simp add: Create_def demo_eval)
  then obtain s2 fs2 where c: "Create demo_volumes [''v''] IoOk IoOk IoOk ''p'' ''a'' 3 ''n1'' ([], demo_tree) = (Ok (), (s2, fs2))"
    by blast
  have "Read demo_volumes [''v''] IoOk ''p'' ''a'' (s2, fs2) = Ok (File ''key'')"
    using recreated_volume_shows_old_data [OF demo_volumes_ok d demo_payload(1) c] by simp
  with d c show ?thesis
    by (intro exI [of _ "Err (ErrorString ''busy'')"] exI [of _ "([], demo_tree)"] exI [of _ "()"] exI [of _ "(s2, fs2)"] conjI)
qed

theorem snapshot_contents_witness:
  "\<exists>fs'. Snapshot [''v''] IoOk IoOk IoOk IoOk ''p'' ''a'' ''s'' demo_tree = (Ok (), fs')
    \<and> volume_data [''v''] fs' (''p'', ''s'') = Some ''keyle'' \<and> volume_data [''v''] fs' (''p'', ''a'') = Some ''key''"
proof -
  have "\<exists>fs'. Snapshot [''v''] IoOk IoOk IoOk IoOk ''p'' ''a'' ''s'' demo_tree = (Ok (), fs')"
    by (simp add: Snapshot_def demo_eval)
  then obtain fs' where s: "Snapshot [''v''] IoOk IoOk IoOk IoOk ''p'' ''a'' ''s'' demo_tree = (Ok (), fs')" by blast
  have n: "plain_volume (''p'', ''a'')" "plain_volume (''p'', ''s'')" by code_simp+
  have d: "(''p'', ''a'') \<noteq> (''p'', ''s'')" by simp
  from snapshot_contents [OF n n(1) d demo_payload s] s show ?thesis
    by (intro exI [of _ fs']) (simp add: demo_payload)
qed

end
