(* ===== verification/GoAes.thy ===== *)
theory GoAes
  imports GoText
begin

unbundle bit_operations_syntax

text \<open>
  AES with a 256-bit key and the Galois/counter mode with a 12-byte nonce and a 16-byte tag, as
  \<^verbatim>\<open>crypto/aes\<close> and \<^verbatim>\<open>crypto/cipher\<close> compute them: the key schedule, the fourteen rounds, the counter
  mode, the polynomial hash, sealing and opening. Opening accepts exactly what sealing yields.
\<close>

type_synonym u8 = "8 word"
type_synonym u128 = "128 word"

definition w8 :: "char \<Rightarrow> u8" where
  "w8 c = word_of_nat (byte_val c)"

definition c8 :: "u8 \<Rightarrow> char" where
  "c8 w = byte_of (unat w)"

lemma c8_w8 [simp]: "c8 (w8 c) = c"
  using byte_val_lt [of c] by (simp add: c8_def w8_def unat_of_nat)

lemma w8_c8 [simp]: "w8 (c8 w) = w"
  using unsigned_less [of w, where 'a = nat] by (simp add: c8_def w8_def)

section \<open>The block cipher\<close>

definition sbox :: "u8 list" where
  "sbox =
    [
     99, 124, 119, 123, 242, 107, 111, 197, 48, 1, 103, 43, 254, 215, 171, 118,
     202, 130, 201, 125, 250, 89, 71, 240, 173, 212, 162, 175, 156, 164, 114, 192,
     183, 253, 147, 38, 54, 63, 247, 204, 52, 165, 229, 241, 113, 216, 49, 21,
     4, 199, 35, 195, 24, 150, 5, 154, 7, 18, 128, 226, 235, 39, 178, 117,
     9, 131, 44, 26, 27, 110, 90, 160, 82, 59, 214, 179, 41, 227, 47, 132,
     83, 209, 0, 237, 32, 252, 177, 91, 106, 203, 190, 57, 74, 76, 88, 207,
     208, 239, 170, 251, 67, 77, 51, 133, 69, 249, 2, 127, 80, 60, 159, 168,
     81, 163, 64, 143, 146, 157, 56, 245, 188, 182, 218, 33, 16, 255, 243, 210,
     205, 12, 19, 236, 95, 151, 68, 23, 196, 167, 126, 61, 100, 93, 25, 115,
     96, 129, 79, 220, 34, 42, 144, 136, 70, 238, 184, 20, 222, 94, 11, 219,
     224, 50, 58, 10, 73, 6, 36, 92, 194, 211, 172, 98, 145, 149, 228, 121,
     231, 200, 55, 109, 141, 213, 78, 169, 108, 86, 244, 234, 101, 122, 174, 8,
     186, 120, 37, 46, 28, 166, 180, 198, 232, 221, 116, 31, 75, 189, 139, 138,
     112, 62, 181, 102, 72, 3, 246, 14, 97, 53, 87, 185, 134, 193, 29, 158,
     225, 248, 152, 17, 105, 217, 142, 148, 155, 30, 135, 233, 206, 85, 40, 223,
     140, 161, 137, 13, 191, 230, 66, 104, 65, 153, 45, 15, 176, 84, 187, 22]"

definition sub_byte :: "u8 \<Rightarrow> u8" where
  "sub_byte b = sbox ! unat b"

definition xtime :: "u8 \<Rightarrow> u8" where
  "xtime b = push_bit 1 b XOR (if bit b 7 then 0x1b else 0)"

definition xor_list :: "u8 list \<Rightarrow> u8 list \<Rightarrow> u8 list" where
  "xor_list a b = map (\<lambda>(x, y). x XOR y) (zip a b)"

text \<open>The key schedule: sixty words of four bytes.\<close>

fun rcon :: "nat \<Rightarrow> u8" where
  "rcon 0 = 1"
| "rcon (Suc n) = xtime (rcon n)"

definition key_word :: "u8 list list \<Rightarrow> nat \<Rightarrow> u8 list list" where
  "key_word ws i =
     (let t = ws ! (i - 1);
          t' = (if i mod 8 = 0 then xor_list (map sub_byte (rotate 1 t)) [rcon (i div 8 - 1), 0, 0, 0]
                else if i mod 8 = 4 then map sub_byte t else t)
      in ws @ [xor_list (ws ! (i - 8)) t'])"

definition key_expand :: "u8 list \<Rightarrow> u8 list list" where
  "key_expand key = foldl key_word (map (\<lambda>i. take 4 (drop (4 * i) key)) [0..<8]) [8..<60]"

definition round_key :: "u8 list list \<Rightarrow> nat \<Rightarrow> u8 list" where
  "round_key ws r = concat (take 4 (drop (4 * r) ws))"

definition shift_rows :: "u8 list \<Rightarrow> u8 list" where
  "shift_rows s = map (\<lambda>i. s ! (i mod 4 + 4 * ((i div 4 + i mod 4) mod 4))) [0..<16]"

definition mix_column :: "u8 list \<Rightarrow> nat \<Rightarrow> u8" where
  "mix_column s i =
     (let at = (\<lambda>k. s ! (4 * (i div 4) + (i + k) mod 4))
      in xtime (at 0) XOR xtime (at 1) XOR at 1 XOR at 2 XOR at 3)"

definition mix_columns :: "u8 list \<Rightarrow> u8 list" where
  "mix_columns s = map (mix_column s) [0..<16]"

definition aes_round :: "u8 list list \<Rightarrow> u8 list \<Rightarrow> nat \<Rightarrow> u8 list" where
  "aes_round ws s r = xor_list (mix_columns (shift_rows (map sub_byte s))) (round_key ws r)"

text \<open>The result of the last round is read off byte by byte, so that a block always has 16 bytes.\<close>

definition aes_block :: "u8 list list \<Rightarrow> u8 list \<Rightarrow> u8 list" where
  "aes_block ws b =
     (let s = foldl (aes_round ws) (xor_list b (round_key ws 0)) [1..<14];
          t = shift_rows (map sub_byte s); k = round_key ws 14
      in map (\<lambda>i. t ! i XOR k ! i) [0..<16])"

section \<open>Counter mode and hash\<close>

definition counter_block :: "u8 list \<Rightarrow> nat \<Rightarrow> u8 list" where
  "counter_block nonce n = nonce @ map w8 (be_bytes 4 (n mod 2 ^ 32))"

definition keystream :: "u8 list list \<Rightarrow> u8 list \<Rightarrow> nat \<Rightarrow> u8 list" where
  "keystream ws nonce n = concat (map (\<lambda>i. aes_block ws (counter_block nonce (2 + i))) [0..<(n + 15) div 16])"

definition gctr :: "u8 list list \<Rightarrow> u8 list \<Rightarrow> u8 list \<Rightarrow> u8 list" where
  "gctr ws nonce b = xor_list b (keystream ws nonce (length b))"

definition u128_of :: "u8 list \<Rightarrow> u128" where
  "u128_of bs = foldl (\<lambda>n b. push_bit 8 n OR ucast b) 0 bs"

definition of_u128 :: "u128 \<Rightarrow> u8 list" where
  "of_u128 w = map (\<lambda>i. ucast (drop_bit (8 * (15 - i)) w)) [0..<16]"

definition gf_step :: "u128 \<Rightarrow> u128 \<times> u128 \<Rightarrow> nat \<Rightarrow> u128 \<times> u128" where
  "gf_step x zv i =
     (case zv of (z, v) \<Rightarrow>
        (if bit x (127 - i) then z XOR v else z,
         drop_bit 1 v XOR (if bit v 0 then push_bit 120 0xe1 else 0)))"

definition gf_mult :: "u128 \<Rightarrow> u128 \<Rightarrow> u128" where
  "gf_mult x y = fst (foldl (gf_step x) (0, y) [0..<128])"

definition ghash :: "u128 \<Rightarrow> u8 list \<Rightarrow> u128" where
  "ghash h bs =
     (let blocks = map (\<lambda>i. let b = take 16 (drop (16 * i) bs) in b @ replicate (16 - length b) 0) [0..<(length bs + 15) div 16];
          y = foldl (\<lambda>y b. gf_mult (y XOR u128_of b) h) 0 blocks
      in gf_mult (y XOR word_of_nat (8 * length bs)) h)"

definition gcm_tag :: "u8 list list \<Rightarrow> u8 list \<Rightarrow> u8 list \<Rightarrow> u8 list" where
  "gcm_tag ws nonce ct =
     (let h = u128_of (aes_block ws (replicate 16 0))
      in map (\<lambda>i. of_u128 (ghash h ct) ! i XOR aes_block ws (counter_block nonce 1) ! i) [0..<16])"

section \<open>Sealing and opening\<close>

definition gcm_limit :: nat where
  "gcm_limit = (2 ^ 32 - 2) * 16"

definition gcm_Seal :: "bytes \<Rightarrow> bytes \<Rightarrow> bytes \<Rightarrow> bytes" where
  "gcm_Seal key nonce pt =
     (let ws = key_expand (map w8 key); n = map w8 nonce; ct = gctr ws n (map w8 pt)
      in map c8 (ct @ gcm_tag ws n ct))"

definition gcm_Open :: "bytes \<Rightarrow> bytes \<Rightarrow> bytes \<Rightarrow> bytes option" where
  "gcm_Open key nonce sealed =
     (if length sealed < 16 \<or> length sealed > gcm_limit + 16 then None
      else
        let ws = key_expand (map w8 key); n = map w8 nonce; k = length sealed - 16;
            ct = map w8 (take k sealed)
        in if map w8 (drop k sealed) = gcm_tag ws n ct then Some (map c8 (gctr ws n ct)) else None)"

section \<open>Opening what was sealed\<close>

lemma length_aes_block [simp]: "length (aes_block ws b) = 16"
  by (simp add: aes_block_def Let_def)

lemma length_gcm_tag [simp]: "length (gcm_tag ws n ct) = 16"
  by (simp add: gcm_tag_def Let_def)

lemma length_keystream: "n \<le> length (keystream ws nonce n)"
proof -
  have "length (keystream ws nonce n) = 16 * ((n + 15) div 16)"
    by (simp add: keystream_def length_concat comp_def sum_list_triv)
  then show ?thesis by linarith
qed

lemma length_gctr [simp]: "length (gctr ws nonce b) = length b"
  using length_keystream [of "length b" ws nonce] by (simp add: gctr_def xor_list_def)

lemma xor_list_twice: "length a \<le> length k \<Longrightarrow> xor_list (xor_list a k) k = a"
  by (rule nth_equalityI) (auto simp: xor_list_def xor.assoc)

lemma gctr_gctr [simp]: "gctr ws nonce (gctr ws nonce b) = b"
proof -
  have "gctr ws nonce (gctr ws nonce b) = xor_list (xor_list b (keystream ws nonce (length b))) (keystream ws nonce (length b))"
    unfolding gctr_def [of _ _ "gctr ws nonce b"] length_gctr by (simp add: gctr_def)
  then show ?thesis by (simp add: xor_list_twice length_keystream)
qed

lemma map_w8_c8 [simp]: "map w8 (map c8 ws) = ws" "map c8 (map w8 cs) = cs"
  by (simp_all add: comp_def)

lemma length_gcm_Seal [simp]: "length (gcm_Seal key nonce pt) = length pt + 16"
  by (simp add: gcm_Seal_def Let_def)

lemma gcm_Open_iff:
  assumes "length sealed \<le> gcm_limit + 16"
  shows "gcm_Open key nonce sealed = Some pt \<longleftrightarrow> sealed = gcm_Seal key nonce pt"
proof
  assume "sealed = gcm_Seal key nonce pt"
  then show "gcm_Open key nonce sealed = Some pt"
    using assms by (simp add: gcm_Open_def gcm_Seal_def Let_def take_map drop_map comp_def)
next
  assume o: "gcm_Open key nonce sealed = Some pt"
  let ?k = "length sealed - 16" and ?ws = "key_expand (map w8 key)" and ?n = "map w8 nonce"
  have l: "16 \<le> length sealed" and t: "map w8 (drop ?k sealed) = gcm_tag ?ws ?n (map w8 (take ?k sealed))"
    and p: "pt = map c8 (gctr ?ws ?n (map w8 (take ?k sealed)))"
    using o by (auto simp: gcm_Open_def Let_def split: if_splits)
  have "gctr ?ws ?n (map w8 pt) = map w8 (take ?k sealed)" unfolding p by (simp add: comp_def)
  then have "gcm_Seal key nonce pt = map c8 (map w8 (take ?k sealed) @ map w8 (drop ?k sealed))"
    by (simp only: gcm_Seal_def Let_def t)
  also have "\<dots> = sealed" by (simp only: map_append [symmetric] append_take_drop_id map_w8_c8)
  finally show "sealed = gcm_Seal key nonce pt" by simp
qed

end
