(* ===== verification/SecretCipher.thy ===== *)
theory SecretCipher
  imports GoAes
begin

text \<open>
  The encryption of secrets, \<^verbatim>\<open>internal/secret/secrets.go\<close>, on the AES and the Galois/counter mode of
  \<^verbatim>\<open>GoAes\<close>. The random bytes of a call, or the error of the random source, are an argument.
\<close>

definition ErrCipherTextTooShort :: go_error where
  "ErrCipherTextTooShort = ErrorString ''secret: ciphertext too short''"

definition ErrDecryptFailed :: go_error where
  "ErrDecryptFailed = ErrorString ''secret: decrypt failed''"

text \<open>A cipher is its key.\<close>

record Cipher =
  ci_key :: bytes

definition NonceSize :: nat where
  "NonceSize = 12"

definition NewCipher :: "bytes \<Rightarrow> Cipher outcome" where
  "NewCipher masterKey =
     (if length masterKey \<noteq> 32
      then Err (ErrorString (''secret: master key must be 32 bytes, got '' @ digits (length masterKey)))
      else Ok \<lparr>ci_key = masterKey\<rparr>)"

definition Encrypt :: "Cipher \<Rightarrow> bytes outcome \<Rightarrow> bytes \<Rightarrow> (bytes \<times> bytes) outcome" where
  "Encrypt c rnd plaintext =
     (case rnd of
        Err e \<Rightarrow> Err e
      | Panic m \<Rightarrow> Panic m
      | Ok n \<Rightarrow>
          if length plaintext > gcm_limit then Panic ''crypto/cipher: message too large for GCM''
          else Ok (gcm_Seal (ci_key c) n plaintext, n))"

definition Decrypt :: "Cipher \<Rightarrow> bytes \<Rightarrow> bytes \<Rightarrow> bytes outcome" where
  "Decrypt c ct nonce =
     (if length nonce \<noteq> NonceSize then Err ErrCipherTextTooShort
      else case gcm_Open (ci_key c) nonce ct of
             None \<Rightarrow> Err ErrDecryptFailed
           | Some pt \<Rightarrow> Ok pt)"

definition GenerateKey :: "bytes outcome \<Rightarrow> bytes outcome" where
  "GenerateKey rnd = rnd"

section \<open>What decrypts\<close>

lemma decrypt_sealed:
  assumes "length nonce = 12" and "length pt \<le> gcm_limit"
  shows "Decrypt c (gcm_Seal (ci_key c) nonce pt) nonce = Ok pt"
  using assms by (simp add: Decrypt_def NonceSize_def gcm_Open_iff [THEN iffD2])

text \<open>
  Property C29. Decryption undoes encryption and accepts nothing else: with a 12-byte nonce, a ciphertext of
  any length decrypts to a plaintext exactly if encrypting that plaintext with that nonce under the same key
  yields that very ciphertext, so no two ciphertexts decrypt alike and a change of any byte is noticed; all
  others give the one error for a failed decryption.
\<close>

theorem decrypts_exactly_what_was_encrypted:
  assumes "length nonce = 12"
  shows "(\<forall>pt. Decrypt c ct nonce = Ok pt \<longleftrightarrow> Encrypt c (Ok nonce) pt = Ok (ct, nonce))
    \<and> (is_ok (Decrypt c ct nonce) \<or> Decrypt c ct nonce = Err ErrDecryptFailed)"
proof -
  have iff: "Decrypt c ct nonce = Ok pt \<longleftrightarrow> Encrypt c (Ok nonce) pt = Ok (ct, nonce)" for pt
  proof
    assume d: "Decrypt c ct nonce = Ok pt"
    then have o: "gcm_Open (ci_key c) nonce ct = Some pt" by (simp add: Decrypt_def split: if_splits option.splits)
    then have "length ct \<le> gcm_limit + 16" by (auto simp: gcm_Open_def split: if_splits)
    with o have "ct = gcm_Seal (ci_key c) nonce pt" by (simp add: gcm_Open_iff)
    with \<open>length ct \<le> gcm_limit + 16\<close> show "Encrypt c (Ok nonce) pt = Ok (ct, nonce)" by (simp add: Encrypt_def)
  next
    assume "Encrypt c (Ok nonce) pt = Ok (ct, nonce)"
    then show "Decrypt c ct nonce = Ok pt"
      using assms by (auto simp: Encrypt_def decrypt_sealed split: if_splits)
  qed
  moreover have "is_ok (Decrypt c ct nonce) \<or> Decrypt c ct nonce = Err ErrDecryptFailed"
    using assms by (simp add: Decrypt_def NonceSize_def split: option.splits)
  ultimately show ?thesis by blast
qed

theorem decrypts_exactly_what_was_encrypted_witness:
  "\<exists>c ct. NewCipher (replicate 32 CHR ''k'') = Ok c \<and> Encrypt c (Ok (replicate 12 CHR ''n'')) ''hello'' = Ok (ct, replicate 12 CHR ''n'')
    \<and> Decrypt c ct (replicate 12 CHR ''n'') = Ok ''hello''"
proof -
  obtain c where c: "NewCipher (replicate 32 CHR ''k'') = Ok c" by (simp add: NewCipher_def)
  obtain ct where e: "Encrypt c (Ok (replicate 12 CHR ''n'')) ''hello'' = Ok (ct, replicate 12 CHR ''n'')"
    by (simp add: Encrypt_def gcm_limit_def)
  have "Decrypt c ct (replicate 12 CHR ''n'') = Ok ''hello''"
    using decrypts_exactly_what_was_encrypted [of "replicate 12 CHR ''n''" c ct] e by simp
  with c e show ?thesis by blast
qed

end
