(* ===== verification/EnvResolver.thy ===== *)
theory EnvResolver
  imports SecretCipher GoJson
begin

text \<open>
  The environment of a container, \<^verbatim>\<open>internal/config/config.go\<close>: the variables of the workload, overlaid by
  the ConfigMaps and the decrypted Secrets that it refers to. The store of the state package is an argument,
  and so is the text of the error that decoding a secret's JSON reports.
\<close>

section \<open>Data\<close>

record EnvWorkload =
  ew_ProjectID :: string
  ew_Env :: "(string, string) gomap"
  ew_ConfigMapRefs :: "string list"
  ew_SecretRefs :: "string list"

record Secret =
  se_Ciphertext :: bytes
  se_Nonce :: bytes

record 's ConfigStore =
  cf_GetConfigMap :: "string \<Rightarrow> string \<Rightarrow> 's \<Rightarrow> (string, string) gomap outcome"
  cf_GetSecret :: "string \<Rightarrow> string \<Rightarrow> 's \<Rightarrow> Secret outcome"

section \<open>Resolving\<close>

text \<open>The entries of one map written over the ones of another.\<close>

definition overlay :: "(string, string) gomap \<Rightarrow> (string, string) gomap \<Rightarrow> (string, string) gomap" where
  "overlay m out = fold (\<lambda>(k, v). mput k v) m out"

definition unmarshal_map :: "(bytes \<Rightarrow> string) \<Rightarrow> bytes \<Rightarrow> (string, string) gomap outcome" where
  "unmarshal_map jerr pt =
     (case read_struct map_member [] (json_parse pt) of Some m \<Rightarrow> Ok m | None \<Rightarrow> Err (ErrorString (jerr pt)))"

fun add_configmaps ::
  "'s ConfigStore \<Rightarrow> string \<Rightarrow> 's \<Rightarrow> string list \<Rightarrow> (string, string) gomap \<Rightarrow> (string, string) gomap outcome" where
  "add_configmaps C projectID s [] out = Ok out"
| "add_configmaps C projectID s (ref # refs) out =
     (case cf_GetConfigMap C projectID ref s of
        Err e \<Rightarrow> Err (WrapError (''config: configmap '' @ ref) e)
      | Panic m \<Rightarrow> Panic m
      | Ok cm \<Rightarrow> add_configmaps C projectID s refs (overlay cm out))"

definition read_secret ::
  "'s ConfigStore \<Rightarrow> (bytes \<Rightarrow> string) \<Rightarrow> Cipher \<Rightarrow> string \<Rightarrow> 's \<Rightarrow> string \<Rightarrow> (string, string) gomap outcome" where
  "read_secret C jerr c projectID s ref =
     (case cf_GetSecret C projectID ref s of
        Err e \<Rightarrow> Err (WrapError (''config: secret '' @ ref) e)
      | Panic m \<Rightarrow> Panic m
      | Ok sec \<Rightarrow>
          (case Decrypt c (se_Ciphertext sec) (se_Nonce sec) of
             Err e \<Rightarrow> Err (WrapError (''config: decrypt '' @ ref) e)
           | Panic m \<Rightarrow> Panic m
           | Ok pt \<Rightarrow>
               (case unmarshal_map jerr pt of
                  Err e \<Rightarrow> Err (WrapError (''config: decode '' @ ref) e)
                | Panic m \<Rightarrow> Panic m
                | Ok m \<Rightarrow> Ok m)))"

fun add_secrets ::
  "'s ConfigStore \<Rightarrow> (bytes \<Rightarrow> string) \<Rightarrow> Cipher \<Rightarrow> string \<Rightarrow> 's \<Rightarrow> string list \<Rightarrow> (string, string) gomap
   \<Rightarrow> (string, string) gomap outcome" where
  "add_secrets C jerr c projectID s [] out = Ok out"
| "add_secrets C jerr c projectID s (ref # refs) out =
     (case read_secret C jerr c projectID s ref of
        Err e \<Rightarrow> Err e
      | Panic m \<Rightarrow> Panic m
      | Ok m \<Rightarrow> add_secrets C jerr c projectID s refs (overlay m out))"

definition ResolveEnv ::
  "'s ConfigStore \<Rightarrow> (bytes \<Rightarrow> string) \<Rightarrow> Cipher \<Rightarrow> EnvWorkload \<Rightarrow> 's \<Rightarrow> (string, string) gomap outcome" where
  "ResolveEnv C jerr c w s =
     (case add_configmaps C (ew_ProjectID w) s (ew_ConfigMapRefs w) (overlay (ew_Env w) []) of
        Err e \<Rightarrow> Err e
      | Panic m \<Rightarrow> Panic m
      | Ok out \<Rightarrow> add_secrets C jerr c (ew_ProjectID w) s (ew_SecretRefs w) out)"

section \<open>Layers\<close>

definition union_get :: "string option \<Rightarrow> string option \<Rightarrow> string option" where
  "union_get new old = (case new of Some v \<Rightarrow> Some v | None \<Rightarrow> old)"

lemma union_get_simps [simp]: "union_get None x = x" "union_get x None = x" "union_get (Some v) x = Some v"
  by (simp_all add: union_get_def split: option.splits)

lemma union_get_assoc: "union_get (union_get a b) c = union_get a (union_get b c)"
  by (simp add: union_get_def split: option.splits)

text \<open>The value that the last of some maps gives to a name.\<close>

fun layered :: "(string, string) gomap list \<Rightarrow> string \<Rightarrow> string option" where
  "layered [] k = None"
| "layered (m # ms) k = union_get (layered ms k) (mget m k)"

lemma mget_overlay:
  assumes "mwf m"
  shows "mget (overlay m out) k = union_get (mget m k) (mget out k)"
proof -
  have "distinct (map fst m) \<Longrightarrow> mget (fold (\<lambda>(k, v). mput k v) m out) k
      = (case map_of m k of Some v \<Rightarrow> Some v | None \<Rightarrow> mget out k)" for out
  proof (induction m arbitrary: out)
    case (Cons kv m)
    obtain k' v' where kv: "kv = (k', v')" by (cases kv)
    have "map_of m k' = None" using Cons.prems kv by (simp add: map_of_eq_None_iff)
    with Cons kv show ?case by (auto split: option.splits)
  qed simp
  with assms show ?thesis by (simp add: overlay_def union_get_def mget_def [of m] mwf_def)
qed

lemma layered_append: "layered (ms @ ns) k = union_get (layered ns k) (layered ms k)"
  by (induction ms) (simp_all add: union_get_assoc)

lemma add_configmaps_layers:
  assumes "list_all2 (\<lambda>ref m. cf_GetConfigMap C p ref s = Ok m \<and> mwf m) refs ms"
  shows "\<exists>out'. add_configmaps C p s refs out = Ok out'
    \<and> (\<forall>k. mget out' k = union_get (layered ms k) (mget out k))"
  using assms
proof (induction refs ms arbitrary: out rule: list_all2_induct)
  case (Cons ref refs m ms)
  from Cons.IH [of "overlay m out"] Cons.hyps show ?case
    by (auto simp: mget_overlay union_get_assoc)
qed simp

lemma add_secrets_layers:
  assumes "list_all2 (\<lambda>ref m. read_secret C jerr c p s ref = Ok m \<and> mwf m) refs ms"
  shows "\<exists>out'. add_secrets C jerr c p s refs out = Ok out'
    \<and> (\<forall>k. mget out' k = union_get (layered ms k) (mget out k))"
  using assms
proof (induction refs ms arbitrary: out rule: list_all2_induct)
  case (Cons ref refs m ms)
  from Cons.IH [of "overlay m out"] Cons.hyps show ?case
    by (auto simp: mget_overlay union_get_assoc)
qed simp

text \<open>A secret that holds the JSON of a map, encrypted with the key of a cipher.\<close>

definition map_json :: "(string, string) gomap \<Rightarrow> json" where
  "map_json m = JObject (map (\<lambda>(k, v). (k, JString v)) m)"

definition seals :: "Cipher \<Rightarrow> (string, string) gomap \<Rightarrow> Secret \<Rightarrow> bool" where
  "seals c m sec \<longleftrightarrow> mwf m \<and> json_wf (map_json m) \<and> length (se_Nonce sec) = 12
     \<and> Encrypt c (Ok (se_Nonce sec)) (json_print (map_json m)) = Ok (se_Ciphertext sec, se_Nonce sec)"

lemma mput_new: "k \<notin> fst ` set m \<Longrightarrow> mput k v m = m @ [(k, v)]"
  unfolding mput_def by (induction m) auto

lemma fold_map_member:
  "distinct (map fst (acc @ m)) \<Longrightarrow> fold map_member (map (\<lambda>(k, v). (k, JString v)) m) (acc, True) = (acc @ m, True)"
proof (induction m arbitrary: acc)
  case (Cons kv m)
  obtain k v where kv: "kv = (k, v)" by (cases kv)
  have "k \<notin> fst ` set acc" using Cons.prems kv by auto
  then have "mput k v acc = acc @ [(k, v)]" by (rule mput_new)
  with Cons.IH [of "acc @ [(k, v)]"] Cons.prems kv show ?case by (simp add: map_member_def)
qed simp

lemma read_sealed:
  assumes "cf_GetSecret C p ref s = Ok sec" and "seals c m sec"
  shows "read_secret C jerr c p s ref = Ok m"
proof -
  have "length (json_print (map_json m)) \<le> gcm_limit"
    and "se_Ciphertext sec = gcm_Seal (ci_key c) (se_Nonce sec) (json_print (map_json m))"
    using assms(2) by (auto simp: seals_def Encrypt_def split: if_splits)
  then have "Decrypt c (se_Ciphertext sec) (se_Nonce sec) = Ok (json_print (map_json m))"
    using assms(2) by (simp add: decrypt_sealed seals_def)
  moreover have "json_parse (json_print (map_json m)) = Some (map_json m)"
    using assms(2) by (intro json_parse_print) (simp add: seals_def)
  moreover have "distinct (map fst ([] @ m))" using assms(2) by (simp add: seals_def mwf_def)
  ultimately show ?thesis
    using assms(1) fold_map_member [of "[]" m]
    by (simp add: read_secret_def unmarshal_map_def read_struct_def map_json_def)
qed

text \<open>
  Property C30. The environment of a container is made of layers: the variables of the workload, over them its
  ConfigMaps in the order of the references, over them its Secrets. When the ConfigMaps exist and every
  Secret holds the JSON of a map that was encrypted under the resolver's key, resolving succeeds and every
  name has exactly the value of the last layer that mentions it.
\<close>

theorem resolved_env_layers:
  assumes "mwf (ew_Env w)"
    and "list_all2 (\<lambda>ref m. cf_GetConfigMap C (ew_ProjectID w) ref s = Ok m \<and> mwf m) (ew_ConfigMapRefs w) cms"
    and "list_all2 (\<lambda>ref m. \<exists>sec. cf_GetSecret C (ew_ProjectID w) ref s = Ok sec \<and> seals c m sec) (ew_SecretRefs w) sms"
  shows "\<exists>out. ResolveEnv C jerr c w s = Ok out \<and> (\<forall>k. mget out k = layered (ew_Env w # cms @ sms) k)"
proof -
  obtain out1 where o1: "add_configmaps C (ew_ProjectID w) s (ew_ConfigMapRefs w) (overlay (ew_Env w) []) = Ok out1"
    and l1: "\<And>k. mget out1 k = union_get (layered cms k) (mget (ew_Env w) k)"
    using add_configmaps_layers [OF assms(2), of "overlay (ew_Env w) []"] assms(1)
    by (auto simp: mget_overlay)
  have "list_all2 (\<lambda>ref m. read_secret C jerr c (ew_ProjectID w) s ref = Ok m \<and> mwf m) (ew_SecretRefs w) sms"
    using assms(3) by (rule list_all2_mono) (auto simp: seals_def intro: read_sealed)
  from add_secrets_layers [OF this, of out1] obtain out where
      "add_secrets C jerr c (ew_ProjectID w) s (ew_SecretRefs w) out1 = Ok out"
    and l2: "\<And>k. mget out k = union_get (layered sms k) (mget out1 k)" by blast
  with o1 have "ResolveEnv C jerr c w s = Ok out" by (simp add: ResolveEnv_def)
  moreover have "mget out k = layered (ew_Env w # cms @ sms) k" for k
    by (simp add: l1 l2 layered_append union_get_assoc)
  ultimately show ?thesis by blast
qed

text \<open>A workload with one ConfigMap and one Secret that both set a variable of the workload.\<close>

definition demo_cipher :: Cipher where
  "demo_cipher = \<lparr>ci_key = replicate 32 CHR ''k''\<rparr>"

definition demo_nonce :: bytes where
  "demo_nonce = replicate 12 CHR ''n''"

definition demo_secret :: Secret where
  "demo_secret =
    \<lparr>se_Ciphertext = gcm_Seal (ci_key demo_cipher) demo_nonce (json_print (map_json [(''A'', ''s'')])), se_Nonce = demo_nonce\<rparr>"

definition demo_config :: "unit ConfigStore" where
  "demo_config =
    \<lparr>cf_GetConfigMap = (\<lambda>p n s. Ok [(''A'', ''c''), (''B'', ''c'')]), cf_GetSecret = (\<lambda>p n s. Ok demo_secret)\<rparr>"

definition demo_env_workload :: EnvWorkload where
  "demo_env_workload =
    \<lparr>ew_ProjectID = ''p'', ew_Env = [(''A'', ''e''), (''B'', ''e''), (''C'', ''e'')], ew_ConfigMapRefs = [''cm''], ew_SecretRefs = [''sec'']\<rparr>"

lemma demo_seals: "seals demo_cipher [(''A'', ''s'')] demo_secret"
proof -
  have "json_wf (map_json [(''A'', ''s'')])" by code_simp
  moreover have "length (json_print (map_json [(''A'', ''s'')])) \<le> gcm_limit"
  proof -
    have "length (json_print (map_json [(''A'', ''s'')])) = 9" by code_simp
    then show ?thesis by (simp add: gcm_limit_def)
  qed
  ultimately show ?thesis by (simp add: seals_def demo_secret_def demo_nonce_def Encrypt_def mwf_def)
qed

theorem resolved_env_layers_witness:
  "\<exists>out. ResolveEnv demo_config (\<lambda>_. ''bad'') demo_cipher demo_env_workload () = Ok out
    \<and> mget out ''A'' = Some ''s'' \<and> mget out ''B'' = Some ''c'' \<and> mget out ''C'' = Some ''e'' \<and> mget out ''D'' = None"
proof -
  have e: "mwf (ew_Env demo_env_workload)" by (simp add: demo_env_workload_def mwf_def)
  have c: "list_all2 (\<lambda>ref m. cf_GetConfigMap demo_config (ew_ProjectID demo_env_workload) ref () = Ok m \<and> mwf m)
      (ew_ConfigMapRefs demo_env_workload) [[(''A'', ''c''), (''B'', ''c'')]]"
    by (simp add: demo_env_workload_def demo_config_def mwf_def)
  have s: "list_all2 (\<lambda>ref m. \<exists>sec. cf_GetSecret demo_config (ew_ProjectID demo_env_workload) ref () = Ok sec
      \<and> seals demo_cipher m sec) (ew_SecretRefs demo_env_workload) [[(''A'', ''s'')]]"
    using demo_seals by (simp add: demo_env_workload_def demo_config_def)
  from resolved_env_layers [OF e c s, of "\<lambda>_. ''bad''"] obtain out where
      "ResolveEnv demo_config (\<lambda>_. ''bad'') demo_cipher demo_env_workload () = Ok out"
    and "\<And>k. mget out k = layered (ew_Env demo_env_workload # [[(''A'', ''c''), (''B'', ''c'')]] @ [[(''A'', ''s'')]]) k"
    by blast
  then show ?thesis by (intro exI [of _ out]) (simp add: demo_env_workload_def mget_def)
qed

end
