(* ===== verification/Retry.thy ===== *)
theory Retry
  imports GoFloat
begin

text \<open>
  Retrying with exponential backoff, \<^verbatim>\<open>internal/util/retry/retry.go\<close>. What the outside does is an argument, by
  the number of the attempt: the error of the context before the attempt and while waiting after it, the
  result of the function, the random number of the jitter. The result is paired with the delays that were
  waited for and with the number of calls of the function.
\<close>

section \<open>Errors\<close>

text \<open>An error, an error that was marked as permanent, or an error that wraps another one.\<close>

datatype rerr = Plain go_error | permanentErr rerr | Wrapped string rerr

definition Permanent :: "rerr \<Rightarrow> rerr" where
  "Permanent err = permanentErr err"

fun rerr_Error :: "rerr \<Rightarrow> string" where
  "rerr_Error (Plain e) = error_text e"
| "rerr_Error (permanentErr e) = rerr_Error e"
| "rerr_Error (Wrapped m e) = m @ '': '' @ rerr_Error e"

fun rerr_Unwrap :: "rerr \<Rightarrow> rerr option" where
  "rerr_Unwrap (Plain e) = None"
| "rerr_Unwrap (permanentErr e) = Some e"
| "rerr_Unwrap (Wrapped m e) = Some e"

fun Is :: "rerr \<Rightarrow> bool" where
  "Is (Plain e) = False"
| "Is (permanentErr e) = True"
| "Is (Wrapped m e) = Is e"

datatype retry_result = RNil | RErr rerr | RPanic string

section \<open>Backoff\<close>

text \<open>
  \<^verbatim>\<open>math.Pow(2, x)\<close> for a whole number, which is exact, and the conversion of a float to an integer: in range
  it cuts off the fraction, out of range its result depends on the implementation. So it is an argument.
\<close>

definition pow_of_two :: "nat \<Rightarrow> float64" where
  "pow_of_two n = (if n < 1024 then Fin (2 ^ n) else PInf)"

definition converts :: "(float64 \<Rightarrow> int) \<Rightarrow> bool" where
  "converts f2i \<longleftrightarrow> (\<forall>i. is_i64 i \<longrightarrow> f2i (Fin (of_int i)) = i)"

record Env =
  rt_ctx :: "nat \<Rightarrow> rerr option"
  rt_fn :: "nat \<Rightarrow> rerr option"
  rt_rand :: "nat \<Rightarrow> int \<Rightarrow> int"
  rt_wait :: "nat \<Rightarrow> rerr option"

text \<open>The delay after an attempt; none when \<^verbatim>\<open>rand.Int64N\<close> panics.\<close>

definition backoff :: "(float64 \<Rightarrow> int) \<Rightarrow> duration \<Rightarrow> duration \<Rightarrow> (int \<Rightarrow> int) \<Rightarrow> nat \<Rightarrow> duration option" where
  "backoff f2i base cap rnd attempt =
     (let mult = pow_of_two (attempt - 1);
          d0 = f2i (f64_mul (f64_of_int base) mult);
          d = (if d0 > cap then cap else d0);
          q = quot64 d 4
      in if q \<le> 0 then None else Some (i64 (d + rnd q)))"

definition gives_up :: "(rerr \<Rightarrow> bool) option \<Rightarrow> rerr \<Rightarrow> bool" where
  "gives_up perm e = (case perm of Some p \<Rightarrow> p e | None \<Rightarrow> False)"

text \<open>The loop, with the number of attempts that are left.\<close>

fun attempts ::
  "(float64 \<Rightarrow> int) \<Rightarrow> duration \<Rightarrow> duration \<Rightarrow> (rerr \<Rightarrow> bool) option \<Rightarrow> Env \<Rightarrow> nat \<Rightarrow> nat
   \<Rightarrow> retry_result \<times> duration list \<times> nat" where
  "attempts f2i base cap perm E 0 attempt = (RNil, [], 0)"
| "attempts f2i base cap perm E (Suc left) attempt =
     (case rt_ctx E attempt of
        Some e \<Rightarrow> (RErr e, [], 0)
      | None \<Rightarrow>
          (case rt_fn E attempt of
             None \<Rightarrow> (RNil, [], 1)
           | Some e \<Rightarrow>
               if gives_up perm e then (RErr e, [], 1)
               else if left = 0 then (RErr e, [], 1)
               else case backoff f2i base cap (rt_rand E attempt) attempt of
                      None \<Rightarrow> (RPanic ''invalid argument to Int64N'', [], 1)
                    | Some d \<Rightarrow>
                        (case rt_wait E attempt of
                           Some e' \<Rightarrow> (RErr e', [d], 1)
                         | None \<Rightarrow>
                             (case attempts f2i base cap perm E left (Suc attempt) of
                                (r, ds, n) \<Rightarrow> (r, d # ds, Suc n)))))"

definition Do ::
  "(float64 \<Rightarrow> int) \<Rightarrow> int \<Rightarrow> duration \<Rightarrow> duration \<Rightarrow> (rerr \<Rightarrow> bool) option \<Rightarrow> Env
   \<Rightarrow> retry_result \<times> duration list \<times> nat" where
  "Do f2i maxAttempts base cap perm E =
     (let base' = (if base \<le> 0 then 100 * millisecond else base);
          cap' = (if cap \<le> 0 then 30 * second else cap);
          max' = (if maxAttempts \<le> 0 then 6 else maxAttempts)
      in attempts f2i base' cap' perm E (nat max') 1)"

section \<open>How long a retry waits\<close>

text \<open>The delay after the attempt with \<^verbatim>\<open>k\<close> attempts before it: the capped power, and up to a quarter more.\<close>

definition backs_off :: "duration \<Rightarrow> duration \<Rightarrow> nat \<Rightarrow> duration \<Rightarrow> bool" where
  "backs_off base cap k d \<longleftrightarrow> (let b = min cap (base * 2 ^ k) in b \<le> d \<and> d < b + b div 4)"

definition fair_rand :: "Env \<Rightarrow> bool" where
  "fair_rand E \<longleftrightarrow> (\<forall>a q. 0 < q \<longrightarrow> 0 \<le> rt_rand E a q \<and> rt_rand E a q < q)"

lemma float_power:
  assumes "0 < base" and "base < 2 ^ 53" and "base * 2 ^ k < 2 ^ 63"
  shows "f64_mul (f64_of_int base) (pow_of_two k) = Fin (of_int (base * 2 ^ k))"
proof -
  have "(2 :: int) ^ k \<le> base * 2 ^ k" using assms(1) by (simp add: mult_le_cancel_right1)
  then have "(2 :: int) ^ k < 2 ^ 63" using assms(3) by linarith
  then have k: "k < 63" by (rule power_less_imp_less_exp [rotated]) simp
  have "(2 :: int) ^ 63 \<le> 2 ^ 1024" by (rule power_increasing) simp_all
  then have "base * 2 ^ k < 2 ^ 1024" using assms(3) by linarith
  from f64_round_scaled [OF assms(1,2) this] k assms(1,2) show ?thesis
    by (simp add: pow_of_two_def f64_of_int_exact)
qed

lemma pow_values: "(2 :: int) ^ 62 = 4611686018427387904" "(2 :: int) ^ 63 = 9223372036854775808"
  by simp_all

lemma quot4: "0 \<le> d \<Longrightarrow> d < 2 ^ 62 \<Longrightarrow> quot64 d 4 = d div 4"
  by (cases "d = 0") (simp_all add: quot64_def i64_small)

lemma backoff_min:
  "backoff f2i base cap rnd (Suc k) =
     (let b = min cap (f2i (f64_mul (f64_of_int base) (pow_of_two k)))
      in if quot64 b 4 \<le> 0 then None else Some (i64 (b + rnd (quot64 b 4))))"
  by (simp add: backoff_def Let_def min_def)

lemma backoff_value:
  assumes "converts f2i" and "4 \<le> base" and "base < 2 ^ 53" and "base * 2 ^ k < 2 ^ 63"
    and "4 \<le> cap" and "cap < 2 ^ 62" and "\<And>q. 0 < q \<Longrightarrow> 0 \<le> rnd q \<and> rnd q < q"
  shows "\<exists>d. backoff f2i base cap rnd (Suc k) = Some d \<and> backs_off base cap k d"
proof -
  let ?b = "min cap (base * 2 ^ k)"
  have "1 * 4 \<le> 2 ^ k * base" using assms(2) by (intro mult_mono) simp_all
  then have b4: "4 \<le> ?b" using assms(5) by (simp add: mult.commute)
  have "f2i (f64_mul (f64_of_int base) (pow_of_two k)) = base * 2 ^ k"
  proof -
    have "f64_mul (f64_of_int base) (pow_of_two k) = Fin (of_int (base * 2 ^ k))" using assms(2-4) by (intro float_power) simp_all
    moreover have "is_i64 (base * 2 ^ k)" using assms(4) b4 by (simp add: is_i64_def)
    ultimately show ?thesis using assms(1) unfolding converts_def by metis
  qed
  then have "backoff f2i base cap rnd (Suc k) = Some (i64 (?b + rnd (?b div 4)))"
  proof -
    have "quot64 ?b 4 = ?b div 4" using b4 assms(6) by (intro quot4) linarith+
    moreover have "0 < ?b div 4" using b4 by linarith
    ultimately show ?thesis using \<open>f2i (f64_mul (f64_of_int base) (pow_of_two k)) = base * 2 ^ k\<close>
      by (simp only: backoff_min Let_def) simp
  qed
  moreover have r: "0 \<le> rnd (?b div 4) \<and> rnd (?b div 4) < ?b div 4" using b4 by (intro assms(7)) linarith
  moreover have "i64 (?b + rnd (?b div 4)) = ?b + rnd (?b div 4)"
  proof (rule i64_id)
    have "?b < 2 ^ 62" using assms(6) by linarith
    moreover have "?b div 4 \<le> ?b" using b4 by linarith
    ultimately show "is_i64 (?b + rnd (?b div 4))" using r b4 unfolding is_i64_def pow_values by linarith
  qed
  ultimately show ?thesis by (intro exI [of _ "?b + rnd (?b div 4)"]) (simp add: backs_off_def Let_def)
qed

lemma attempts_bounds:
  assumes "converts f2i" and "4 \<le> base" and "base < 2 ^ 53" and "4 \<le> cap" and "cap < 2 ^ 62" and "fair_rand E"
    and "base * 2 ^ (k + left) < 2 ^ 63"
    and "attempts f2i base cap perm E left (Suc k) = (r, ds, n)"
  shows "(\<forall>m. r \<noteq> RPanic m) \<and> n \<le> left \<and> (\<forall>i < length ds. backs_off base cap (k + i) (ds ! i))"
  using assms(7,8)
proof (induction left arbitrary: k r ds n)
  case (Suc left)
  have "base * 2 ^ k \<le> base * 2 ^ (k + Suc left)" using assms(2) by (intro mult_left_mono power_increasing) simp_all
  then have "base * 2 ^ k < 2 ^ 63" using Suc.prems(1) by linarith
  from backoff_value [OF assms(1-3) this assms(4,5), of "rt_rand E (Suc k)"] assms(6)
  obtain d where d: "backoff f2i base cap (rt_rand E (Suc k)) (Suc k) = Some d" "backs_off base cap k d"
    by (auto simp: fair_rand_def)
  obtain r' ds' n' where l: "attempts f2i base cap perm E left (Suc (Suc k)) = (r', ds', n')" by (metis prod_cases3)
  have "base * 2 ^ (Suc k + left) < 2 ^ 63" using Suc.prems(1) by simp
  from Suc.IH [OF this l] have ih: "(\<forall>m. r' \<noteq> RPanic m) \<and> n' \<le> left
      \<and> (\<forall>i < length ds'. backs_off base cap (Suc k + i) (ds' ! i))" .
  then have "\<forall>i < length (d # ds'). backs_off base cap (k + i) ((d # ds') ! i)"
    using d(2) by (auto simp: nth_Cons split: nat.splits)
  with ih d Suc.prems(2) l show ?case
    by (auto split: option.splits if_splits)
qed simp

lemma attempts_success:
  assumes "\<forall>i. rt_ctx E i = None \<and> rt_wait E i = None"
    and "rt_fn E (k + Suc j) = None"
    and "\<forall>i < j. \<exists>e. rt_fn E (k + Suc i) = Some e \<and> \<not> gives_up perm e"
    and "j < left" and "attempts f2i base cap perm E left (Suc k) = (r, ds, n)" and "\<forall>m. r \<noteq> RPanic m"
  shows "r = RNil \<and> n = Suc j \<and> length ds = j"
  using assms(2-6)
proof (induction left arbitrary: k j r ds n)
  case (Suc left)
  show ?case
  proof (cases j)
    case 0
    with Suc.prems assms(1) show ?thesis by simp
  next
    case (Suc j')
    obtain r' ds' n' where l: "attempts f2i base cap perm E left (Suc (Suc k)) = (r', ds', n')" by (metis prod_cases3)
    have "\<exists>e. rt_fn E (Suc k) = Some e \<and> \<not> gives_up perm e"
      using Suc.prems(2) [rule_format, of 0] Suc by simp
    then obtain d where "r = r'" "ds = d # ds'" "n = Suc n'"
      using Suc.prems(3-5) Suc assms(1) l by (auto split: option.splits if_splits)
    moreover have "\<forall>i < j'. \<exists>e. rt_fn E (Suc k + Suc i) = Some e \<and> \<not> gives_up perm e"
      using Suc.prems(2) Suc by auto
    ultimately show ?thesis
      using Suc.IH [of "Suc k" j' r' ds' n'] Suc.prems(1,3,5) Suc l by simp
  qed
qed simp

text \<open>
  Property C39. Retrying with sensible arguments (a base of at least 4 nanoseconds that stays in range when it
  is doubled for every attempt, a cap of at least 4 nanoseconds) never panics, calls the function at most the
  given number of times, and waits after the attempt number \<^verbatim>\<open>i\<close> for the base doubled \<^verbatim>\<open>i - 1\<close> times or the
  cap, whichever is less, and for less than a quarter more. If the context is never cancelled and the
  attempt number \<^verbatim>\<open>j\<close> is the first that succeeds, with no permanent error before it, the result is nil after
  exactly \<^verbatim>\<open>j\<close> calls.
\<close>

theorem retry_backs_off:
  assumes "converts f2i" and "4 \<le> base" and "base < 2 ^ 53" and "4 \<le> cap" and "cap < 2 ^ 62" and "fair_rand E"
    and "0 < maxAttempts" and "base * 2 ^ nat maxAttempts < 2 ^ 63"
    and "Do f2i maxAttempts base cap perm E = (r, ds, n)"
  shows "(\<forall>m. r \<noteq> RPanic m) \<and> n \<le> nat maxAttempts \<and> (\<forall>i < length ds. backs_off base cap i (ds ! i))
    \<and> (\<forall>j < nat maxAttempts. (\<forall>i. rt_ctx E i = None \<and> rt_wait E i = None) \<longrightarrow> rt_fn E (Suc j) = None \<longrightarrow>
        (\<forall>i < j. \<exists>e. rt_fn E (Suc i) = Some e \<and> \<not> gives_up perm e) \<longrightarrow>
        r = RNil \<and> n = Suc j)"
proof -
  have d: "attempts f2i base cap perm E (nat maxAttempts) (Suc 0) = (r, ds, n)"
    using assms(2,4,7,9) by (simp add: Do_def)
  from attempts_bounds [OF assms(1-6) _ d] assms(8)
  have "(\<forall>m. r \<noteq> RPanic m) \<and> n \<le> nat maxAttempts \<and> (\<forall>i < length ds. backs_off base cap i (ds ! i))" by simp
  with attempts_success [of E 0 _ perm "nat maxAttempts", OF _ _ _ _ d] show ?thesis by simp
qed

text \<open>
  A base of 1, 2 or 3 nanoseconds panics: when the first of several attempts fails with an error
  that is not permanent, a quarter of the delay is 0, and the random number for the jitter cannot be drawn.
\<close>

theorem tiny_base_panics:
  assumes "converts f2i" and "1 \<le> base" and "base \<le> 3" and "1 < maxAttempts"
    and "rt_ctx E 1 = None" and "rt_fn E 1 = Some e"
    and "\<not> gives_up perm e"
  shows "Do f2i maxAttempts base cap perm E = (RPanic ''invalid argument to Int64N'', [], 1)"
proof -
  let ?cap = "if cap \<le> 0 then 30 * second else cap"
  have "f64_mul (f64_of_int base) (pow_of_two 0) = Fin (of_int (base * 2 ^ 0))"
    using assms(2,3) by (intro float_power) simp_all
  moreover have "f2i (Fin (of_int base)) = base"
    using assms(1-3) unfolding converts_def by (simp add: is_i64_def)
  ultimately have b: "f2i (f64_mul (f64_of_int base) (pow_of_two 0)) = base" by simp
  have "1 \<le> ?cap" by (simp add: second_def)
  then have c: "0 \<le> min ?cap base" "min ?cap base < 4" using assms(2,3) by linarith+
  then have "min ?cap base < 2 ^ 62" unfolding pow_values by linarith
  then have "quot64 (min ?cap base) 4 = 0" using quot4 [OF c(1)] c by linarith
  then have "backoff f2i base ?cap (rt_rand E 1) 1 = None" by (simp only: backoff_min One_nat_def b Let_def) simp
  moreover obtain left where "nat maxAttempts = Suc left" "left \<noteq> 0" using assms(4) by (cases "nat maxAttempts") auto
  ultimately show ?thesis using assms(2,4-7) by (simp add: Do_def Let_def)
qed

section \<open>Concrete runs\<close>

text \<open>A function that fails twice, no cancellation, and no jitter; and a conversion that saturates.\<close>

definition demo_run :: Env where
  "demo_run =
    \<lparr>rt_ctx = (\<lambda>_. None), rt_fn = (\<lambda>a. if a < 3 then Some (Plain (ErrorString ''retry me'')) else None),
     rt_rand = (\<lambda>_ _. 0), rt_wait = (\<lambda>_. None)\<rparr>"

definition demo_f2i :: "float64 \<Rightarrow> int" where
  "demo_f2i x = (case x of Fin q \<Rightarrow> \<lfloor>q\<rfloor> | PInf \<Rightarrow> 2 ^ 63 - 1 | _ \<Rightarrow> - (2 ^ 63))"

lemma demo_converts: "converts demo_f2i"
  by (simp add: converts_def demo_f2i_def)

theorem retry_backs_off_witness:
  "\<exists>ds. Do demo_f2i 5 millisecond second (Some Is) demo_run = (RNil, ds, 3) \<and> (\<forall>i < length ds. backs_off millisecond second i (ds ! i))"
proof -
  obtain r ds n where d: "Do demo_f2i 5 millisecond second (Some Is) demo_run = (r, ds, n)" by (metis prod_cases3)
  have f: "fair_rand demo_run" by (simp add: fair_rand_def demo_run_def)
  have b: "4 \<le> millisecond" "millisecond < 2 ^ 53" "4 \<le> second" "second < 2 ^ 62" "millisecond * 2 ^ nat 5 < 2 ^ 63"
    by (simp_all add: millisecond_def second_def)
  have m: "(0 :: int) < 5" by simp
  note R = retry_backs_off [OF demo_converts b(1-4) f m b(5) d]
  have "\<forall>i < 2. \<exists>e. rt_fn demo_run (Suc i) = Some e \<and> \<not> gives_up (Some Is) e"
    by (simp add: demo_run_def gives_up_def)
  moreover have "\<forall>i. rt_ctx demo_run i = None \<and> rt_wait demo_run i = None" "rt_fn demo_run (Suc 2) = None" "2 < nat 5"
    by (simp_all add: demo_run_def)
  ultimately have "r = RNil \<and> n = Suc 2" using R by blast
  with R d show ?thesis by (intro exI [of _ ds]) simp
qed

theorem tiny_base_panics_witness:
  "Do demo_f2i 5 3 0 None demo_run = (RPanic ''invalid argument to Int64N'', [], 1)"
  by (rule tiny_base_panics [OF demo_converts]) (simp_all add: demo_run_def gives_up_def)

end
