(* ===== verification/GoScan.thy ===== *)
theory GoScan
  imports GoText GoFloat
begin

text \<open>
  \<^verbatim>\<open>strings.TrimSpace\<close>, \<^verbatim>\<open>strconv.ParseFloat\<close> and \<^verbatim>\<open>fmt.Sscanf\<close> with the one verb \<^verbatim>\<open>%f\<close>: the token that the
  scanner takes from the text, and the number that the token means, rounded once.
\<close>

section \<open>White space\<close>

text \<open>The white space of Unicode, in UTF-8.\<close>

definition utf8_spaces :: "string list" where
  "utf8_spaces =
     map (\<lambda>n. [byte_of n]) [9, 10, 11, 12, 13, 32]
     @ map (map byte_of)
         ([[0xC2, 0x85], [0xC2, 0xA0], [0xE1, 0x9A, 0x80], [0xE2, 0x80, 0xA8], [0xE2, 0x80, 0xA9],
           [0xE2, 0x80, 0xAF], [0xE2, 0x81, 0x9F], [0xE3, 0x80, 0x80]] @ map (\<lambda>n. [0xE2, 0x80, n]) [0x80..<0x8B])"

function strip_left :: "string list \<Rightarrow> string \<Rightarrow> string" where
  "strip_left sps s =
     (case find (\<lambda>sp. sp \<noteq> [] \<and> HasPrefix s sp) sps of
        None \<Rightarrow> s
      | Some sp \<Rightarrow> strip_left sps (drop (length sp) s))"
  by pat_completeness auto

termination
proof (relation "measure (\<lambda>(sps, s). length s)")
  fix sps :: "string list" and s sp
  assume "find (\<lambda>sp. sp \<noteq> [] \<and> HasPrefix s sp) sps = Some sp"
  then have "sp \<noteq> [] \<and> HasPrefix s sp" by (auto simp: find_Some_iff)
  then have "0 < length sp" "length sp \<le> length s" by (auto simp: HasPrefix_iff_prefix dest: prefix_length_le)
  then have "length s - length sp < length s" by linarith
  then show "((sps, drop (length sp) s), sps, s) \<in> measure (\<lambda>(sps, s). length s)" by simp
qed simp

declare strip_left.simps [simp del]

definition TrimSpace :: "string \<Rightarrow> string" where
  "TrimSpace s = rev (strip_left (map rev utf8_spaces) (rev (strip_left utf8_spaces s)))"

text \<open>\<^verbatim>\<open>strings.Fields\<close>; the first argument is the field that is being read, reversed.\<close>

function fields_from :: "string \<Rightarrow> string \<Rightarrow> string list" where
  "fields_from cur [] = (if cur = [] then [] else [rev cur])"
| "fields_from cur (c # r) =
     (case find (\<lambda>sp. HasPrefix (c # r) sp) utf8_spaces of
        None \<Rightarrow> fields_from (c # cur) r
      | Some sp \<Rightarrow>
          (if cur = [] then [] else [rev cur]) @ fields_from [] (drop (length sp - 1) r))"
  by pat_completeness auto

termination
  by (relation "measure (\<lambda>(cur, s). length s)") auto

declare fields_from.simps [simp del]

definition Fields :: "string \<Rightarrow> string list" where
  "Fields s = fields_from [] s"

section \<open>Tokens\<close>

text \<open>The scanner's buffer and the text that is left; \<^verbatim>\<open>accept\<close> takes one byte of a set.\<close>

definition accept :: "string \<Rightarrow> string \<times> string \<Rightarrow> bool \<times> string \<times> string" where
  "accept cs br =
     (case br of
        (b, c # r) \<Rightarrow> if c \<in> set cs then (True, b @ [c], r) else (False, b, c # r)
      | (b, []) \<Rightarrow> (False, b, []))"

definition accept_all :: "string \<Rightarrow> string \<times> string \<Rightarrow> string \<times> string" where
  "accept_all cs br = (case br of (b, r) \<Rightarrow> (b @ takeWhile (\<lambda>c. c \<in> set cs) r, dropWhile (\<lambda>c. c \<in> set cs) r))"

text \<open>Three sets in a row, as long as each one is met.\<close>

definition accept3 :: "string \<Rightarrow> string \<Rightarrow> string \<Rightarrow> string \<times> string \<Rightarrow> bool \<times> string \<times> string" where
  "accept3 x y z br =
     (case accept x br of
        (False, br1) \<Rightarrow> (False, br1)
      | (True, br1) \<Rightarrow> (case accept y br1 of (False, br2) \<Rightarrow> (False, br2) | (True, br2) \<Rightarrow> accept z br2))"

definition float_token :: "string \<Rightarrow> string" where
  "float_token s =
     (case accept3 ''nN'' ''aA'' ''nN'' ([], s) of
        (True, b, r) \<Rightarrow> b
      | (False, br) \<Rightarrow>
          (case accept3 ''iI'' ''nN'' ''fF'' (snd (accept ''+-'' br)) of
             (True, b, r) \<Rightarrow> b
           | (False, br1) \<Rightarrow>
               (let (zero, br2) = accept ''0'' br1;
                    (hex, br3) = (if zero then accept ''xX'' br2 else (False, br2));
                    ds = (if hex then ''0123456789aAbBcCdDeEfF_'' else ''0123456789_'');
                    br4 = accept_all ds br3;
                    (point, br5) = accept ''.'' br4;
                    br6 = (if point then accept_all ds br5 else br5);
                    (ex, br7) = accept (if hex then ''pP'' else ''eEpP'') br6
                in fst (if ex then accept_all ''0123456789_'' (snd (accept ''+-'' br7)) else br7))))"

section \<open>Numbers\<close>

definition to_lower :: "char \<Rightarrow> char" where
  "to_lower c = (let n = byte_val c in if 65 \<le> n \<and> n \<le> 90 then byte_of (n + 32) else c)"

definition is_base_digit :: "nat \<Rightarrow> char \<Rightarrow> bool" where
  "is_base_digit base c = (case hex_value c of Some n \<Rightarrow> n < base | None \<Rightarrow> False)"

text \<open>Underscores stand between digits; a base prefix counts as a digit. The first argument is the last byte seen.\<close>

fun underscores_ok :: "bool \<Rightarrow> char \<Rightarrow> string \<Rightarrow> bool" where
  "underscores_ok hex saw [] \<longleftrightarrow> saw \<noteq> CHR ''_''"
| "underscores_ok hex saw (c # s) \<longleftrightarrow>
     (if is_digit c \<or> hex \<and> is_base_digit 16 c then underscores_ok hex CHR ''0'' s
      else if c = CHR ''_'' then saw = CHR ''0'' \<and> underscores_ok hex CHR ''_'' s
      else saw \<noteq> CHR ''_'' \<and> underscores_ok hex CHR ''!'' s)"

definition digits_in :: "nat \<Rightarrow> string \<Rightarrow> nat" where
  "digits_in base ds = foldl (\<lambda>n c. n * base + the (hex_value c)) 0 ds"

definition signed_part :: "string \<Rightarrow> bool \<times> string" where
  "signed_part s = (case s of c # r \<Rightarrow> if c = CHR ''-'' then (True, r) else if c = CHR ''+'' then (False, r) else (False, s) | [] \<Rightarrow> (False, s))"

text \<open>An exponent: none, or a sign and digits that start with a digit.\<close>

definition read_exponent :: "string \<Rightarrow> int option" where
  "read_exponent s =
     (case signed_part s of (neg, r) \<Rightarrow>
        if r = [] \<or> \<not> is_digit (hd r) \<or> \<not> list_all (\<lambda>c. is_digit c \<or> c = CHR ''_'') r then None
        else let n = int (digits_value (filter is_digit r)) in Some (if neg then - n else n))"

definition parse_mantissa :: "nat \<Rightarrow> string \<Rightarrow> (nat \<times> nat \<times> string) option" where
  "parse_mantissa base s =
     (let ok = (\<lambda>c. is_base_digit base c \<or> c = CHR ''_'');
          a = takeWhile ok s; r = dropWhile ok s;
          (f, r') = (case r of c # t \<Rightarrow> if c = CHR ''.'' then (takeWhile ok t, dropWhile ok t) else ([], r) | [] \<Rightarrow> ([], []));
          da = filter (is_base_digit base) a; df = filter (is_base_digit base) f
      in if da @ df = [] then None else Some (digits_in base (da @ df), length df, r'))"

text \<open>\<^verbatim>\<open>ParseFloat\<close>; a number out of range is an error.\<close>

definition ParseFloat :: "string \<Rightarrow> float64 option" where
  "ParseFloat s =
     (let (neg, r) = signed_part s; low = map to_lower r;
          sgnd = (\<lambda>q. let q' = (if neg then - q else q) in
                    case f64_round q' of Fin x \<Rightarrow> Some (Fin x) | _ \<Rightarrow> None)
      in if low = ''inf'' \<or> low = ''infinity'' then Some (if neg then NInf else PInf)
         else if map to_lower s = ''nan'' then Some NaN
         else
           let hex = HasPrefix low ''0x''; base = (if hex then 16 else 10); body = (if hex then drop 2 low else low)
           in if CHR ''_'' \<in> set r \<and> \<not> underscores_ok hex (if hex then CHR ''0'' else CHR ''^'') body then None
              else case parse_mantissa base body of
                     None \<Rightarrow> None
                   | Some (m, k, rest) \<Rightarrow>
                       (case rest of
                          [] \<Rightarrow> if hex then None else sgnd (of_nat m / 10 ^ k)
                        | c # t \<Rightarrow>
                            if c \<noteq> (if hex then CHR ''p'' else CHR ''e'') then None
                            else case read_exponent t of
                                   None \<Rightarrow> None
                                 | Some e \<Rightarrow>
                                     sgnd (of_nat m / of_nat base ^ k
                                           * (if hex then pow2 e else if 0 \<le> e then 10 ^ nat e else 1 / 10 ^ nat (- e)))))"

text \<open>The scanner also takes a decimal number with a binary exponent.\<close>

definition convertFloat :: "string \<Rightarrow> float64 option" where
  "convertFloat s =
     (if CHR ''p'' \<in> set s \<and> CHR ''x'' \<notin> set s \<and> CHR ''X'' \<notin> set s then
        (case SplitN2 s CHR ''p'' of
           [a, b] \<Rightarrow>
             (case (ParseFloat a, ParseInt b) of
                (Some f, Some e) \<Rightarrow> Some (case f of Fin q \<Rightarrow> f64_round (q * pow2 e) | _ \<Rightarrow> f)
              | _ \<Rightarrow> None)
         | _ \<Rightarrow> None)
      else ParseFloat s)"

definition Sscanf_f :: "string \<Rightarrow> float64 option" where
  "Sscanf_f s = (if s = [] then None else convertFloat (float_token (strip_left utf8_spaces s)))"

section \<open>Facts\<close>

definition graphic :: "char \<Rightarrow> bool" where
  "graphic c \<longleftrightarrow> 32 < byte_val c \<and> byte_val c < 127"

lemma spaces_not_graphic:
  "sp \<in> set utf8_spaces \<Longrightarrow> sp \<noteq> [] \<and> \<not> graphic (hd sp) \<and> \<not> graphic (last sp)"
proof -
  have "list_all (\<lambda>sp. sp \<noteq> [] \<and> \<not> graphic (hd sp) \<and> \<not> graphic (last sp)) utf8_spaces" by code_simp
  then show "sp \<in> set utf8_spaces \<Longrightarrow> sp \<noteq> [] \<and> \<not> graphic (hd sp) \<and> \<not> graphic (last sp)"
    by (simp add: list_all_iff)
qed

lemma strip_left_stays: "(\<And>sp. sp \<in> set sps \<Longrightarrow> sp \<noteq> [] \<Longrightarrow> \<not> HasPrefix s sp) \<Longrightarrow> strip_left sps s = s"
  by (subst strip_left.simps) (auto simp: find_Some_iff split: option.splits)

lemma HasPrefix_hd: "HasPrefix s sp \<Longrightarrow> sp \<noteq> [] \<Longrightarrow> s \<noteq> [] \<and> hd s = hd sp"
  by (cases s; cases sp) (auto simp: HasPrefix_def)

lemma strip_left_graphic: "s \<noteq> [] \<Longrightarrow> graphic (hd s) \<Longrightarrow> strip_left utf8_spaces s = s"
  by (rule strip_left_stays) (metis HasPrefix_hd spaces_not_graphic)

text \<open>A text that starts and ends with a graphic ASCII character has nothing to trim.\<close>

lemma TrimSpace_graphic:
  assumes "s \<noteq> []" and "graphic (hd s)" and "graphic (last s)"
  shows "TrimSpace s = s"
proof -
  have "strip_left (map rev utf8_spaces) (rev s) = rev s"
  proof (rule strip_left_stays)
    fix sp
    assume "sp \<in> set (map rev utf8_spaces)" and "sp \<noteq> []"
    then have "\<not> graphic (hd sp)" using spaces_not_graphic by (auto simp: hd_rev)
    with \<open>sp \<noteq> []\<close> show "\<not> HasPrefix (rev s) sp"
      using assms HasPrefix_hd [of "rev s" sp] by (auto simp: hd_rev)
  qed
  then show ?thesis using assms by (simp add: TrimSpace_def strip_left_graphic)
qed

lemma find_graphic: "graphic c \<Longrightarrow> find (\<lambda>sp. HasPrefix (c # r) sp) utf8_spaces = None"
  using spaces_not_graphic HasPrefix_hd [of "c # r"] by (force simp: find_None_iff)

text \<open>A blank is recognised as what it is.\<close>

lemma spaces_blank: "sp \<in> set utf8_spaces \<Longrightarrow> hd sp = CHR '' '' \<or> last sp = CHR '' '' \<Longrightarrow> sp = '' ''"
proof -
  have "list_all (\<lambda>sp. (hd sp = CHR '' '' \<or> last sp = CHR '' '') \<longrightarrow> sp = '' '') utf8_spaces" by code_simp
  then show "sp \<in> set utf8_spaces \<Longrightarrow> hd sp = CHR '' '' \<or> last sp = CHR '' '' \<Longrightarrow> sp = '' ''"
    unfolding list_all_iff by blast
qed

lemma blank_space: "'' '' \<in> set utf8_spaces"
  by code_simp

lemma find_blank: "find (\<lambda>sp. HasPrefix (CHR '' '' # r) sp) utf8_spaces = Some '' ''"
proof -
  obtain sp where sp: "find (\<lambda>sp. HasPrefix (CHR '' '' # r) sp) utf8_spaces = Some sp"
    using blank_space by (cases "find (\<lambda>sp. HasPrefix (CHR '' '' # r) sp) utf8_spaces") (auto simp: find_None_iff HasPrefix_def)
  then have "sp \<in> set utf8_spaces" "HasPrefix (CHR '' '' # r) sp" by (auto simp: find_Some_iff)
  with HasPrefix_hd spaces_not_graphic have "sp = '' ''" by (metis list.sel(1) spaces_blank)
  with sp show ?thesis by simp
qed

lemma fields_graphic: "list_all graphic w \<Longrightarrow> fields_from cur (w @ r) = fields_from (rev w @ cur) r"
  by (induction w arbitrary: cur) (simp_all add: fields_from.simps find_graphic)

definition word :: "string \<Rightarrow> bool" where
  "word w \<longleftrightarrow> w \<noteq> [] \<and> list_all graphic w"

lemma fields_word: "word w \<Longrightarrow> fields_from [] (w @ CHR '' '' # r) = w # fields_from [] r"
  by (simp add: word_def fields_graphic fields_from.simps(2) find_blank)

text \<open>Words that are joined by blanks are the fields of the text.\<close>

lemma Fields_Join: "list_all word ws \<Longrightarrow> Fields (Join ws '' '') = ws"
proof -
  have "list_all word ws \<Longrightarrow> fields_from [] (Join ws '' '') = ws"
  proof (induction ws rule: induct_list012)
    case (2 w)
    then show ?case using fields_graphic [of w "[]" "[]"] by (simp add: word_def fields_from.simps(1))
  qed (simp_all add: fields_word fields_from.simps(1))
  then show "list_all word ws \<Longrightarrow> Fields (Join ws '' '') = ws" by (simp add: Fields_def)
qed

lemma TrimSpace_blank:
  assumes "s \<noteq> []" and "graphic (hd s)" and "graphic (last s)"
  shows "TrimSpace (s @ '' '') = s"
proof -
  let ?rs = "map rev utf8_spaces"
  have l: "strip_left utf8_spaces (s @ '' '') = s @ '' ''" using assms by (intro strip_left_graphic) simp_all
  have "strip_left ?rs (CHR '' '' # rev s) = strip_left ?rs (rev s)"
  proof -
    obtain sp where f: "find (\<lambda>sp. sp \<noteq> [] \<and> HasPrefix (CHR '' '' # rev s) sp) ?rs = Some sp"
      using blank_space
      by (cases "find (\<lambda>sp. sp \<noteq> [] \<and> HasPrefix (CHR '' '' # rev s) sp) ?rs") (force simp: find_None_iff HasPrefix_def)+
    then have "sp \<in> set ?rs" "sp \<noteq> []" "HasPrefix (CHR '' '' # rev s) sp" by (auto simp: find_Some_iff)
    then have "sp = '' ''" using HasPrefix_hd [of "CHR '' '' # rev s" sp] spaces_blank by (force simp: hd_rev)
    with f show ?thesis by (subst strip_left.simps) simp
  qed
  moreover have "strip_left ?rs (rev s) = rev s"
    using TrimSpace_graphic [OF assms] assms by (simp add: TrimSpace_def strip_left_graphic) (metis rev_rev_ident)
  ultimately show ?thesis by (simp add: TrimSpace_def l)
qed

end
