(* ===== verification/Alerts.thy ===== *)
theory Alerts
  imports Observability GoScan
begin

text \<open>
  The alert rules of \<^verbatim>\<open>internal/primitives/obs/alerts.go\<close>: the expressions, their values over the metrics
  registry, and the evaluation that makes an alert pending, firing and resolved. The registry that the
  evaluation reads is an argument.
\<close>

section \<open>Data\<close>

record AlertRule =
  ar_ID :: string
  ar_Name :: string
  ar_Severity :: string
  ar_Expression :: string
  ar_For :: duration

record AlertState =
  at_Rule :: AlertRule
  at_Firing :: bool
  at_PendingSince :: time
  at_LastEvaluated :: time
  at_LastValue :: float64

record Alerts =
  al_rules :: "AlertRule list"
  al_state :: "(string, AlertState) gomap"

definition NewAlerts :: Alerts where
  "NewAlerts = \<lparr>al_rules = [], al_state = []\<rparr>"

definition new_state :: "AlertRule \<Rightarrow> AlertState" where
  "new_state r = \<lparr>at_Rule = r, at_Firing = False, at_PendingSince = zero_time, at_LastEvaluated = zero_time, at_LastValue = Fin 0\<rparr>"

definition Add :: "AlertRule \<Rightarrow> Alerts \<Rightarrow> Alerts" where
  "Add r a = a\<lparr>al_rules := al_rules a @ [r], al_state := mput (ar_ID r) (new_state r) (al_state a)\<rparr>"

section \<open>Expressions\<close>

text \<open>The first place of an operator outside of a block in braces; none if a block does not end.\<close>

function index_outside :: "string \<Rightarrow> string \<Rightarrow> nat \<Rightarrow> nat option" where
  "index_outside s op i =
     (if i + length op > length s \<or> i \<ge> length s then None
      else if s ! i = CHR ''{'' then
        (if CHR ''}'' \<notin> set (drop i s) then None
         else index_outside s op (Suc (i + length (takeWhile (\<lambda>c. c \<noteq> CHR ''}'') (drop i s)))))
      else if HasPrefix (drop i s) op then Some i
      else index_outside s op (Suc i))"
  by pat_completeness auto

termination
  by (relation "measure (\<lambda>(s, op, i). length s - i)") auto

declare index_outside.simps [simp del]

definition indexOutside :: "string \<Rightarrow> string \<Rightarrow> nat option" where
  "indexOutside s op = index_outside s op 0"

fun split_at :: "string \<Rightarrow> string list \<Rightarrow> (string \<times> string \<times> float64) option" where
  "split_at e [] = None"
| "split_at e (op # ops) =
     (case indexOutside e op of
        Some i \<Rightarrow>
          (case Sscanf_f (TrimSpace (drop (i + length op) e)) of
             None \<Rightarrow> None
           | Some v \<Rightarrow> Some (TrimSpace (take i e), op, v))
      | None \<Rightarrow> split_at e ops)"

definition splitExpr :: "string \<Rightarrow> (string \<times> string \<times> float64) option" where
  "splitExpr e = split_at e [''>='', ''<='', ''=='', ''!='', ''>'', ''<'']"

definition compareOp :: "string \<Rightarrow> float64 \<Rightarrow> float64 \<Rightarrow> bool" where
  "compareOp op v t =
     (if op = ''>'' then f64_less t v
      else if op = ''<'' then f64_less v t
      else if op = ''>='' then f64_le t v
      else if op = ''<='' then f64_le v t
      else if op = ''=='' then f64_eq v t
      else if op = ''!='' then \<not> f64_eq v t
      else False)"

fun sum_metric :: "string \<Rightarrow> Metric list \<Rightarrow> float64 \<times> bool \<Rightarrow> float64 \<times> bool" where
  "sum_metric name [] acc = acc"
| "sum_metric name (mm # mts) (tot, found) =
     (if me_Name mm = name then sum_metric name mts (f64_add tot (me_Value mm), True)
      else sum_metric name mts (tot, found))"

definition evalExpr :: "string \<Rightarrow> Metrics \<Rightarrow> float64 \<times> bool" where
  "evalExpr e m =
     (case splitExpr e of
        None \<Rightarrow> (Fin 0, False)
      | Some (name, _, _) \<Rightarrow> sum_metric name (Snapshot m) (Fin 0, False))"

definition matchesThreshold :: "string \<Rightarrow> float64 \<Rightarrow> bool" where
  "matchesThreshold e v = (case splitExpr e of None \<Rightarrow> False | Some (_, op, t) \<Rightarrow> compareOp op v t)"

section \<open>Evaluation\<close>

text \<open>What one evaluation of a rule does to its state, and whether it is newly firing or newly resolved.\<close>

definition eval_rule :: "time \<Rightarrow> Metrics \<Rightarrow> AlertRule \<Rightarrow> AlertState \<Rightarrow> AlertState \<times> AlertState list \<times> AlertState list" where
  "eval_rule now m r st0 =
     (case evalExpr (ar_Expression r) m of
        (v, found) \<Rightarrow>
          let st = st0\<lparr>at_LastValue := v, at_LastEvaluated := now\<rparr> in
          if \<not> found then (st, [], [])
          else if matchesThreshold (ar_Expression r) v then
            (if at_Firing st then (st, [], [])
             else if at_PendingSince st = zero_time then (st\<lparr>at_PendingSince := now\<rparr>, [], [])
             else if time_sub now (at_PendingSince st) \<ge> ar_For r
               then let st' = st\<lparr>at_Firing := True\<rparr> in (st', [st'], [])
             else (st, [], []))
          else (st\<lparr>at_Firing := False, at_PendingSince := zero_time\<rparr>, [], if at_Firing st then [st] else []))"

fun eval_rules ::
  "time \<Rightarrow> Metrics \<Rightarrow> AlertRule list \<Rightarrow> (string, AlertState) gomap
   \<Rightarrow> ((string, AlertState) gomap \<times> AlertState list \<times> AlertState list) outcome" where
  "eval_rules now m [] sts = Ok (sts, [], [])"
| "eval_rules now m (r # rs) sts =
     (case mget sts (ar_ID r) of
        None \<Rightarrow> Panic ''nil pointer dereference''
      | Some st0 \<Rightarrow>
          (case eval_rule now m r st0 of
             (st, f, d) \<Rightarrow>
               (case eval_rules now m rs (mput (ar_ID r) st sts) of
                  Ok (sts', fs, ds) \<Rightarrow> Ok (sts', f @ fs, d @ ds)
                | Err e \<Rightarrow> Err e
                | Panic p \<Rightarrow> Panic p)))"

definition Evaluate :: "time \<Rightarrow> Metrics \<Rightarrow> Alerts \<Rightarrow> (AlertState list \<times> AlertState list \<times> Alerts) outcome" where
  "Evaluate now m a =
     (case eval_rules now m (al_rules a) (al_state a) of
        Ok (sts, fs, ds) \<Rightarrow> Ok (fs, ds, a\<lparr>al_state := sts\<rparr>)
      | Err e \<Rightarrow> Err e
      | Panic p \<Rightarrow> Panic p)"

definition State :: "Alerts \<Rightarrow> AlertState list" where
  "State a = map snd (al_state a)"

section \<open>When an alert fires\<close>

text \<open>A sequence of evaluations, each with its time and the metrics that it sees.\<close>

fun evaluate_all :: "(time \<times> Metrics) list \<Rightarrow> Alerts \<Rightarrow> Alerts outcome" where
  "evaluate_all [] a = Ok a"
| "evaluate_all ((now, m) # evs) a =
     (case Evaluate now m a of
        Ok (_, _, a') \<Rightarrow> evaluate_all evs a'
      | Err e \<Rightarrow> Err e
      | Panic p \<Rightarrow> Panic p)"

text \<open>
  The evaluations that found the metric of a rule, with whether its condition held; and the times of the
  latest ones at which it held without a break.
\<close>

definition verdicts :: "AlertRule \<Rightarrow> (time \<times> Metrics) list \<Rightarrow> (time \<times> bool) list" where
  "verdicts r evs =
     concat (map (\<lambda>(t, m). case evalExpr (ar_Expression r) m of
                             (v, found) \<Rightarrow> if found then [(t, matchesThreshold (ar_Expression r) v)] else []) evs)"

definition held_at :: "(time \<times> bool) list \<Rightarrow> time list" where
  "held_at vs = rev (map fst (takeWhile snd (rev vs)))"

lemma held_at_simps [simp]:
  "held_at [] = []" "held_at (vs @ [(t, False)]) = []" "held_at (vs @ [(t, True)]) = held_at vs @ [t]"
  by (simp_all add: held_at_def)

text \<open>The state of a rule after some verdicts.\<close>

definition alert_after :: "AlertRule \<Rightarrow> (time \<times> bool) list \<Rightarrow> AlertState \<Rightarrow> bool" where
  "alert_after r vs st \<longleftrightarrow>
     (case held_at vs of
        [] \<Rightarrow> \<not> at_Firing st \<and> at_PendingSince st = zero_time
      | t # ts \<Rightarrow> at_PendingSince st = t \<and> (at_Firing st \<longleftrightarrow> ts \<noteq> [] \<and> time_sub (last ts) t \<ge> ar_For r))"

lemma time_sub_mono: "a \<le> b \<Longrightarrow> time_sub a t \<le> time_sub b t"
  by (simp add: time_sub_def max_duration_def)

lemma held_at_subset: "set (held_at vs) \<subseteq> fst ` set vs"
  using set_takeWhileD [of _ snd "rev vs"] by (fastforce simp: held_at_def)

lemma eval_rule_step:
  assumes "alert_after r vs st" and "now > zero_time" and "\<forall>v \<in> set vs. zero_time < fst v \<and> fst v \<le> now"
  shows "alert_after r (vs @ verdicts r [(now, m)]) (fst (eval_rule now m r st))"
proof -
  obtain v found where e: "evalExpr (ar_Expression r) m = (v, found)" by (cases "evalExpr (ar_Expression r) m")
  show ?thesis
  proof (cases "found \<and> matchesThreshold (ar_Expression r) v")
    case False
    then show ?thesis using assms(1) e
      by (cases "held_at vs") (auto simp: verdicts_def eval_rule_def alert_after_def Let_def)
  next
    case hit: True
    then have vs: "verdicts r [(now, m)] = [(now, True)]" by (simp add: verdicts_def e)
    show ?thesis
    proof (cases "held_at vs")
      case Nil
      with hit assms(1) show ?thesis by (simp add: vs alert_after_def eval_rule_def e Let_def)
    next
      case (Cons t ts)
      have t: "zero_time < t" "\<And>x. x \<in> set ts \<Longrightarrow> x \<le> now"
        using held_at_subset [of vs] assms(3) Cons by auto
      have "ts \<noteq> [] \<Longrightarrow> time_sub (last ts) t \<le> time_sub now t" using t(2) by (intro time_sub_mono) simp
      with hit Cons assms(1) t(1) show ?thesis
        by (auto simp: vs alert_after_def eval_rule_def e Let_def)
    qed
  qed
qed

lemma eval_rules_spec:
  assumes "distinct (map ar_ID rs)" and "\<forall>r \<in> set rs. mget sts (ar_ID r) \<noteq> None"
  shows "\<exists>sts' fs ds. eval_rules now m rs sts = Ok (sts', fs, ds)
    \<and> (\<forall>r \<in> set rs. \<forall>st. mget sts (ar_ID r) = Some st \<longrightarrow> mget sts' (ar_ID r) = Some (fst (eval_rule now m r st)))
    \<and> (\<forall>i. i \<notin> ar_ID ` set rs \<longrightarrow> mget sts' i = mget sts i)"
  using assms
proof (induction rs arbitrary: sts)
  case (Cons r rs)
  obtain st where st: "mget sts (ar_ID r) = Some st" using Cons.prems(2) by auto
  let ?sts = "mput (ar_ID r) (fst (eval_rule now m r st)) sts"
  have "\<forall>r' \<in> set rs. mget ?sts (ar_ID r') \<noteq> None" using Cons.prems(2) by auto
  then obtain sts' fs ds where e: "eval_rules now m rs ?sts = Ok (sts', fs, ds)"
    and i: "\<And>r' st. r' \<in> set rs \<Longrightarrow> mget ?sts (ar_ID r') = Some st \<Longrightarrow> mget sts' (ar_ID r') = Some (fst (eval_rule now m r' st))"
    and o: "\<And>i. i \<notin> ar_ID ` set rs \<Longrightarrow> mget sts' i = mget ?sts i"
    using Cons.IH [of ?sts] Cons.prems(1) by auto
  have "r' \<in> set rs \<Longrightarrow> ar_ID r' \<noteq> ar_ID r" for r' using Cons.prems(1) by (auto simp: image_iff)
  with st e i o Cons.prems(1) show ?case by (auto split: prod.splits)
qed simp

definition alerts_ok :: "Alerts \<Rightarrow> bool" where
  "alerts_ok a \<longleftrightarrow> distinct (map ar_ID (al_rules a)) \<and> (\<forall>r \<in> set (al_rules a). mget (al_state a) (ar_ID r) \<noteq> None)"

lemma evaluate_step:
  assumes "alerts_ok a"
  obtains fs ds a' where "Evaluate now m a = Ok (fs, ds, a')" and "alerts_ok a'" and "al_rules a' = al_rules a"
    and "\<And>r st. r \<in> set (al_rules a) \<Longrightarrow> mget (al_state a) (ar_ID r) = Some st \<Longrightarrow>
          mget (al_state a') (ar_ID r) = Some (fst (eval_rule now m r st))"
proof -
  from eval_rules_spec [of "al_rules a" "al_state a" now m] assms
  obtain sts' fs ds where e: "eval_rules now m (al_rules a) (al_state a) = Ok (sts', fs, ds)"
    and i: "\<forall>r \<in> set (al_rules a). \<forall>st. mget (al_state a) (ar_ID r) = Some st \<longrightarrow>
      mget sts' (ar_ID r) = Some (fst (eval_rule now m r st))"
    unfolding alerts_ok_def by blast
  have "alerts_ok (a\<lparr>al_state := sts'\<rparr>)" using assms i by (auto simp: alerts_ok_def)
  with e i show ?thesis by (intro that [of fs ds "a\<lparr>al_state := sts'\<rparr>"]) (simp_all add: Evaluate_def)
qed

lemma verdicts_Cons: "verdicts r (ev # evs) = verdicts r [ev] @ verdicts r evs"
  by (simp add: verdicts_def)

lemma verdict_times: "v \<in> set (verdicts r [(now, m)]) \<Longrightarrow> fst v = now"
  by (auto simp: verdicts_def split: prod.splits if_splits)

lemma evaluate_all_spec:
  assumes "alerts_ok a" and "r \<in> set (al_rules a)" and "mget (al_state a) (ar_ID r) = Some st"
    and "alert_after r vs st" and "sorted (map fst evs)" and "\<forall>ev \<in> set evs. zero_time < fst ev"
    and "\<forall>v \<in> set vs. zero_time < fst v \<and> (\<forall>ev \<in> set evs. fst v \<le> fst ev)"
  shows "\<exists>a' st'. evaluate_all evs a = Ok a' \<and> mget (al_state a') (ar_ID r) = Some st'
    \<and> alert_after r (vs @ verdicts r evs) st'"
  using assms
proof (induction evs arbitrary: a st vs)
  case Nil
  then show ?case by (simp add: verdicts_def)
next
  case (Cons ev evs)
  obtain now m where ev: "ev = (now, m)" by (cases ev)
  from evaluate_step [OF Cons.prems(1), of now m] obtain fs ds a' where
      e: "Evaluate now m a = Ok (fs, ds, a')" and a': "alerts_ok a'" "al_rules a' = al_rules a"
    and st': "mget (al_state a') (ar_ID r) = Some (fst (eval_rule now m r st))"
    using Cons.prems(2,3) by metis
  have "alert_after r (vs @ verdicts r [(now, m)]) (fst (eval_rule now m r st))"
    using Cons.prems(4,6,7) ev by (intro eval_rule_step) auto
  moreover have "\<forall>v \<in> set (vs @ verdicts r [(now, m)]). zero_time < fst v \<and> (\<forall>ev \<in> set evs. fst v \<le> fst ev)"
    using Cons.prems(5-7) ev by (auto dest: verdict_times)
  moreover have "r \<in> set (al_rules a')" "sorted (map fst evs)" "\<forall>ev \<in> set evs. zero_time < fst ev"
    using Cons.prems(2,5,6) a'(2) by auto
  ultimately show ?case
    using Cons.IH [OF a'(1) _ st', of "vs @ verdicts r [(now, m)]"] ev e by (simp add: verdicts_Cons [of r "(now, m)" evs])
qed

lemma Add_fields:
  "al_rules (Add r a) = al_rules a @ [r]" "al_state (Add r a) = mput (ar_ID r) (new_state r) (al_state a)"
  by (simp_all add: Add_def)

lemma add_rules:
  assumes "distinct (map ar_ID rs)" and "ar_ID ` set rs \<inter> ar_ID ` set (al_rules a) = {}" and "alerts_ok a"
  shows "alerts_ok (fold Add rs a) \<and> set (al_rules (fold Add rs a)) = set (al_rules a) \<union> set rs
    \<and> (\<forall>i. mget (al_state (fold Add rs a)) i = (case find (\<lambda>r. ar_ID r = i) rs of Some r \<Rightarrow> Some (new_state r) | None \<Rightarrow> mget (al_state a) i))"
  using assms
proof (induction rs arbitrary: a)
  case (Cons r rs)
  have "alerts_ok (Add r a)" using Cons.prems by (auto simp: alerts_ok_def Add_def)
  moreover have "ar_ID ` set rs \<inter> ar_ID ` set (al_rules (Add r a)) = {}" using Cons.prems by (auto simp: Add_def)
  ultimately have ih: "alerts_ok (fold Add rs (Add r a)) \<and> set (al_rules (fold Add rs (Add r a))) = set (al_rules (Add r a)) \<union> set rs
    \<and> (\<forall>i. mget (al_state (fold Add rs (Add r a))) i = (case find (\<lambda>r. ar_ID r = i) rs of Some r \<Rightarrow> Some (new_state r) | None \<Rightarrow> mget (al_state (Add r a)) i))"
    using Cons.IH [of "Add r a"] Cons.prems(1) by simp
  have "find (\<lambda>r'. ar_ID r' = ar_ID r) rs = None" using Cons.prems(1) by (auto simp: find_None_iff image_iff)
  with ih show ?case by (auto simp: Add_fields split: option.splits)
qed simp

text \<open>
  Property C32. When an alert fires: after any evaluations at increasing times, of rules with different
  identifiers, the alert of a rule is firing exactly if its condition held at the last two or more evaluations
  that found its metric, without a break, and the last of them is at least the rule's duration after the
  first. Evaluation never panics. So a rule with the duration 0 needs two evaluations to fire, and an alert
  whose metric disappears keeps its state.
\<close>

theorem firing_iff_condition_held:
  assumes "distinct (map ar_ID rs)" and "r \<in> set rs"
    and "sorted (map fst evs)" and "\<forall>ev \<in> set evs. zero_time < fst ev"
  shows "\<exists>a st. evaluate_all evs (fold Add rs NewAlerts) = Ok a \<and> mget (al_state a) (ar_ID r) = Some st
    \<and> (at_Firing st \<longleftrightarrow> (let ts = held_at (verdicts r evs) in 2 \<le> length ts \<and> time_sub (last ts) (hd ts) \<ge> ar_For r))"
proof -
  have n: "alerts_ok NewAlerts" by (simp add: alerts_ok_def NewAlerts_def)
  have d: "ar_ID ` set rs \<inter> ar_ID ` set (al_rules NewAlerts) = {}" by (simp add: NewAlerts_def)
  have f: "find (\<lambda>r'. ar_ID r' = ar_ID r) rs = Some r"
    using assms(1,2) by (induction rs) auto
  note A = add_rules [OF assms(1) d n]
  have "mget (al_state (fold Add rs NewAlerts)) (ar_ID r) = Some (new_state r)" using A f by simp
  moreover have "alert_after r [] (new_state r)" by (simp add: alert_after_def new_state_def)
  ultimately obtain a st where "evaluate_all evs (fold Add rs NewAlerts) = Ok a" "mget (al_state a) (ar_ID r) = Some st"
    and "alert_after r (verdicts r evs) st"
    using evaluate_all_spec [of "fold Add rs NewAlerts" r "new_state r" "[]" evs] A assms(2-4) by auto
  then show ?thesis
    by (intro exI [of _ a] exI [of _ st]) (auto simp: alert_after_def Let_def neq_Nil_conv split: list.splits)
qed


section \<open>A concrete rule\<close>

definition demo_rule :: AlertRule where
  "demo_rule = \<lparr>ar_ID = ''r'', ar_Name = ''load'', ar_Severity = ''page'', ar_Expression = ''c>1'', ar_For = 0\<rparr>"

definition demo_metrics :: Metrics where
  "demo_metrics = Set ''c'' (Fin 2) [] NewMetrics"

lemma demo_split: "splitExpr ''c>1'' = Some (''c'', ''>'', Fin 1)"
proof -
  have i: "map (indexOutside ''c>1'') [''>='', ''<='', ''=='', ''!='', ''>''] = [None, None, None, None, Some 1]" by code_simp
  have t: "TrimSpace ''c'' = ''c''" "TrimSpace ''1'' = ''1''"
    by (simp_all add: TrimSpace_graphic graphic_def byte_val_def)
  have "strip_left utf8_spaces ''1'' = ''1''" by (simp add: strip_left_graphic graphic_def byte_val_def)
  moreover have "float_token ''1'' = ''1''" "parse_mantissa 10 ''1'' = Some (1, 0, [])" by code_simp+
  moreover have "f64_round 1 = Fin 1" using f64_of_int_exact [of 1] by (simp add: f64_of_int_def)
  ultimately have "Sscanf_f ''1'' = Some (Fin 1)"
    by (simp add: Sscanf_f_def convertFloat_def ParseFloat_def signed_part_def to_lower_def byte_val_def HasPrefix_def)
  with i t show ?thesis by (simp add: splitExpr_def)
qed

lemma demo_verdict: "verdicts demo_rule [(t, demo_metrics)] = [(t, True)]"
proof -
  have "evalExpr ''c>1'' demo_metrics = (f64_add (Fin 0) (Fin 2), True)"
    by (simp add: evalExpr_def demo_split demo_metrics_def Set_def NewMetrics_def Snapshot_def mget_def mput_def new_metric_def)
  moreover have "f64_add (Fin 0) (Fin 2) = Fin 2" using f64_of_int_exact [of 2] by (simp add: f64_of_int_def)
  moreover have "matchesThreshold ''c>1'' (Fin 2)" by (simp add: matchesThreshold_def demo_split compareOp_def)
  ultimately show ?thesis by (simp add: verdicts_def demo_rule_def)
qed

theorem firing_iff_condition_held_witness:
  "\<exists>a st. evaluate_all [(second, demo_metrics), (2 * second, demo_metrics)] (fold Add [demo_rule] NewAlerts) = Ok a
    \<and> mget (al_state a) ''r'' = Some st \<and> at_Firing st"
proof -
  let ?evs = "[(second, demo_metrics), (2 * second, demo_metrics)]"
  have v: "held_at (verdicts demo_rule ?evs) = [second, 2 * second]"
    by (simp add: verdicts_Cons [of _ "(second, demo_metrics)" "[(2 * second, demo_metrics)]"] demo_verdict held_at_def)
  have s: "sorted (map fst ?evs)" "\<forall>ev \<in> set ?evs. zero_time < fst ev" by (simp_all add: second_def zero_time_def)
  have "distinct (map ar_ID [demo_rule])" "demo_rule \<in> set [demo_rule]" by simp_all
  from firing_iff_condition_held [OF this s] obtain a st where
      "evaluate_all ?evs (fold Add [demo_rule] NewAlerts) = Ok a" and "mget (al_state a) (ar_ID demo_rule) = Some st"
    and "at_Firing st \<longleftrightarrow> 2 \<le> length [second, 2 * second] \<and> time_sub (last [second, 2 * second]) (hd [second, 2 * second]) \<ge> ar_For demo_rule"
    unfolding v Let_def by blast
  moreover have "ar_ID demo_rule = ''r''" "ar_For demo_rule = 0" by (simp_all add: demo_rule_def)
  ultimately show ?thesis
    by (intro exI [of _ a] exI [of _ st] conjI) (simp_all add: time_sub_def second_def max_duration_def)
qed

end
