(* ===== verification/Cni.thy ===== *)
theory Cni
  imports GoPrelude
begin

text \<open>
  The bridge network plugin, \<^verbatim>\<open>internal/network/cni/cni.go\<close>. The commands that a call runs are part of its
  result (their own results are discarded by the source); whether the program \<^verbatim>\<open>ip\<close> is found is an argument.
\<close>

section \<open>Operations\<close>

record Network =
  nw_Name :: string
  nw_CIDR :: string
  nw_Gateway :: string
  nw_Bridge :: string

text \<open>The fields of the state package's network that the plugin reads.\<close>

record StateNetwork =
  sn_ID :: string
  sn_ProjectID :: string
  sn_Name :: string
  sn_CIDR :: string

type_synonym networks = "(string, Network) gomap"
type_synonym command = "string list"

definition NewManager :: networks where
  "NewManager = []"

definition shortID :: "string \<Rightarrow> string outcome" where
  "shortID s =
     (if length s < 6 then Ok s
      else let t = filter (\<lambda>c. c \<noteq> CHR ''-'') s
           in if length t < 6 then Panic ''slice bounds out of range'' else Ok (take 6 t))"

definition firstIP :: "string \<Rightarrow> string outcome" where
  "firstIP cidr =
     (case SplitN2 cidr CHR ''/'' of
        [] \<Rightarrow> Err (ErrorString (''cni: bad cidr '' @ cidr))
      | p # _ \<Rightarrow> Ok p)"

definition Ensure :: "bool \<Rightarrow> StateNetwork \<Rightarrow> networks \<Rightarrow> unit outcome \<times> networks \<times> command list" where
  "Ensure canExec n m =
     (case shortID (sn_ID n) of
        Panic p \<Rightarrow> (Panic p, m, [])
      | Err e \<Rightarrow> (Err e, m, [])
      | Ok sid \<Rightarrow>
          (let bridge = ''cbr-'' @ sid;
               gw = (case firstIP (sn_CIDR n) of Ok g \<Rightarrow> g | _ \<Rightarrow> []);
               m' = mput (sn_ProjectID n)
                      \<lparr>nw_Name = sn_Name n, nw_CIDR = sn_CIDR n, nw_Gateway = gw, nw_Bridge = bridge\<rparr> m
           in if \<not> canExec then (Ok (), m', [])
              else (Ok (), m',
                    [[''ip'', ''link'', ''add'', bridge, ''type'', ''bridge''],
                     [''ip'', ''addr'', ''add'', gw @ ''/24'', ''dev'', bridge],
                     [''ip'', ''link'', ''set'', bridge, ''up'']])))"

definition Attach :: "bool \<Rightarrow> string \<Rightarrow> string \<Rightarrow> networks \<Rightarrow> unit outcome \<times> command list" where
  "Attach canExec projectID containerID m =
     (case mget m projectID of
        None \<Rightarrow> (Err (ErrorString (''cni: project '' @ projectID @ '' has no network'')), [])
      | Some net \<Rightarrow>
          if \<not> canExec then (Ok (), [])
          else case shortID containerID of
                 Panic p \<Rightarrow> (Panic p, [])
               | Err e \<Rightarrow> (Err e, [])
               | Ok sid \<Rightarrow>
                   (let vethHost = ''veth'' @ sid; vethCtr = ''eth0''
                    in (Ok (),
                        [[''ip'', ''link'', ''add'', vethHost, ''type'', ''veth'', ''peer'', ''name'', vethCtr],
                         [''ip'', ''link'', ''set'', vethHost, ''master'', nw_Bridge net],
                         [''ip'', ''link'', ''set'', vethHost, ''up'']])))"

definition Detach :: "bool \<Rightarrow> string \<Rightarrow> unit outcome \<times> command list" where
  "Detach canExec containerID =
     (if \<not> canExec then (Ok (), [])
      else case shortID containerID of
             Panic p \<Rightarrow> (Panic p, [])
           | Err e \<Rightarrow> (Err e, [])
           | Ok sid \<Rightarrow> (Ok (), [[''ip'', ''link'', ''del'', ''veth'' @ sid]]))"

definition Network_of :: "string \<Rightarrow> networks \<Rightarrow> Network option" where
  "Network_of projectID m = mget m projectID"

section \<open>Networks that meet\<close>

lemma ensure_records:
  assumes "Ensure canExec n m = (Ok u, m', cmds)"
  shows "\<exists>sid net. shortID (sn_ID n) = Ok sid \<and> nw_Bridge net = ''cbr-'' @ sid \<and> m' = mput (sn_ProjectID n) net m"
proof (cases "shortID (sn_ID n)")
  case (Ok sid)
  let ?gw = "case firstIP (sn_CIDR n) of Ok g \<Rightarrow> g | _ \<Rightarrow> []"
  have "m' = mput (sn_ProjectID n) \<lparr>nw_Name = sn_Name n, nw_CIDR = sn_CIDR n, nw_Gateway = ?gw, nw_Bridge = ''cbr-'' @ sid\<rparr> m"
    using assms Ok by (simp add: Ensure_def Let_def split: if_splits)
  with Ok show ?thesis by (intro exI conjI) (assumption, simp_all)
qed (use assms in \<open>simp_all add: Ensure_def\<close>)

lemma attach_commands:
  assumes "Attach True p x m = (Ok u, cmds)" and "mget m p = Some net"
  shows "\<exists>h. [''ip'', ''link'', ''set'', h, ''master'', nw_Bridge net] \<in> set cmds"
  using assms by (auto simp: Attach_def Let_def split: outcome.splits)

text \<open>
  Bridges do not separate projects: a bridge is named after the first six characters of the
  network's identifier without its dashes, so two projects whose networks agree there are put on the same
  bridge, and the containers of both are attached to it.
\<close>

theorem bridges_are_shared:
  assumes "shortID (sn_ID n) = shortID (sn_ID n')" and "sn_ProjectID n \<noteq> sn_ProjectID n'"
    and "Ensure True n m = (Ok u, m1, c1)" and "Ensure True n' m1 = (Ok u', m2, c2)"
    and "Attach True (sn_ProjectID n) x m2 = (Ok v, cmds)" and "Attach True (sn_ProjectID n') y m2 = (Ok v', cmds')"
  shows "\<exists>bridge h h'. [''ip'', ''link'', ''set'', h, ''master'', bridge] \<in> set cmds
    \<and> [''ip'', ''link'', ''set'', h', ''master'', bridge] \<in> set cmds'"
proof -
  obtain sid net where a: "shortID (sn_ID n) = Ok sid" "nw_Bridge net = ''cbr-'' @ sid"
      "m1 = mput (sn_ProjectID n) net m" using ensure_records [OF assms(3)] by blast
  obtain sid' net' where b: "shortID (sn_ID n') = Ok sid'" "nw_Bridge net' = ''cbr-'' @ sid'"
      "m2 = mput (sn_ProjectID n') net' m1" using ensure_records [OF assms(4)] by blast
  have g: "mget m2 (sn_ProjectID n) = Some net" "mget m2 (sn_ProjectID n') = Some net'" using assms(2) a b by simp_all
  have "nw_Bridge net' = nw_Bridge net" using assms(1) a b by simp
  with attach_commands [OF assms(5) g(1)] attach_commands [OF assms(6) g(2)] show ?thesis by fastforce
qed

text \<open>
  An identifier of six or more characters of which fewer than six are not dashes makes the plugin panic.
\<close>

lemma dashes_panic:
  "6 \<le> length (sn_ID n) \<Longrightarrow> length (filter (\<lambda>c. c \<noteq> CHR ''-'') (sn_ID n)) < 6 \<Longrightarrow>
   Ensure ex n m = (Panic ''slice bounds out of range'', m, [])"
  by (simp add: Ensure_def shortID_def)

definition demo_net :: "string \<Rightarrow> string \<Rightarrow> StateNetwork" where
  "demo_net i p = \<lparr>sn_ID = i, sn_ProjectID = p, sn_Name = i, sn_CIDR = ''10.0.0.0/24''\<rparr>"

theorem bridges_are_shared_witness:
  "\<exists>m1 m2 c1 c2 cmds cmds'. Ensure True (demo_net ''net-001-a'' ''p'') NewManager = (Ok (), m1, c1)
    \<and> Ensure True (demo_net ''net-001-b'' ''q'') m1 = (Ok (), m2, c2)
    \<and> Attach True ''p'' ''c1'' m2 = (Ok (), cmds) \<and> Attach True ''q'' ''c2'' m2 = (Ok (), cmds')
    \<and> (\<exists>bridge h h'. [''ip'', ''link'', ''set'', h, ''master'', bridge] \<in> set cmds
        \<and> [''ip'', ''link'', ''set'', h', ''master'', bridge] \<in> set cmds')"
proof -
  let ?n = "demo_net ''net-001-a'' ''p''" and ?n' = "demo_net ''net-001-b'' ''q''"
  have s: "shortID (sn_ID ?n) = shortID (sn_ID ?n')" "sn_ProjectID ?n \<noteq> sn_ProjectID ?n'"
    by (simp_all add: demo_net_def shortID_def)
  obtain m1 c1 where e1: "Ensure True ?n NewManager = (Ok (), m1, c1)"
    by (simp add: Ensure_def demo_net_def shortID_def Let_def)
  obtain m2 c2 where e2: "Ensure True ?n' m1 = (Ok (), m2, c2)"
    by (simp add: Ensure_def demo_net_def shortID_def Let_def)
  have "mget m2 ''p'' \<noteq> None" "mget m2 ''q'' \<noteq> None"
    using ensure_records [OF e1] ensure_records [OF e2] by (auto simp: demo_net_def)
  then obtain cmds cmds' where a: "Attach True (sn_ProjectID ?n) ''c1'' m2 = (Ok (), cmds)" "Attach True (sn_ProjectID ?n') ''c2'' m2 = (Ok (), cmds')"
    by (auto simp: demo_net_def Attach_def shortID_def Let_def)
  from bridges_are_shared [OF s e1 e2 a] e1 e2 a show ?thesis
    by (intro exI [of _ m1] exI [of _ m2] exI [of _ c1] exI [of _ c2] exI [of _ cmds] exI [of _ cmds'])
       (simp add: demo_net_def)
qed

end
