(* ===== verification/DnsServe.thy ===== *)
theory DnsServe
  imports Dns
begin

text \<open>
  The DNS server at work, \<^verbatim>\<open>Run\<close> of \<^verbatim>\<open>internal/dns/dns.go\<close> with its three loops: the start with its sockets, and
  the datagrams, connections and refreshes that follow in any order, while the store changes. The
  functions of the package \<^verbatim>\<open>net\<close> that open a socket are arguments that return its local address.
\<close>

section \<open>The start\<close>

record Net =
  nt_ResolveUDPAddr :: "string \<Rightarrow> string outcome"
  nt_ListenUDP :: "string \<Rightarrow> string outcome"
  nt_ResolveTCPAddr :: "string \<Rightarrow> string outcome"
  nt_ListenTCP :: "string \<Rightarrow> string outcome"

definition open_socket :: "(string \<Rightarrow> string outcome) \<Rightarrow> (string \<Rightarrow> string outcome) \<Rightarrow> string \<Rightarrow> string outcome" where
  "open_socket resolve listen a =
     (case resolve a of Err e \<Rightarrow> Err e | Panic m \<Rightarrow> Panic m | Ok b \<Rightarrow> listen b)"

definition Run_start ::
  "(string \<Rightarrow> string) \<Rightarrow> 's ClusterStore \<Rightarrow> Net \<Rightarrow> 's \<Rightarrow> DnsServer \<Rightarrow> unit outcome \<times> DnsServer" where
  "Run_start U S N s srv =
     (case open_socket (nt_ResolveUDPAddr N) (nt_ListenUDP N) (dc_Listen (server_cfg srv)) of
        Err e \<Rightarrow> (Err e, srv)
      | Panic m \<Rightarrow> (Panic m, srv)
      | Ok u \<Rightarrow>
          let srv1 = srv\<lparr>ds_udp := Some u\<rparr> in
          (case open_socket (nt_ResolveTCPAddr N) (nt_ListenTCP N) (dc_Listen (server_cfg srv1)) of
             Err e \<Rightarrow> (Err e, srv1)
           | Panic m \<Rightarrow> (Panic m, srv1)
           | Ok t \<Rightarrow> refreshZone U S s (srv1\<lparr>ds_tcp := Some t\<rparr>)))"

section \<open>The loops\<close>

datatype status = Serving | Stopped | Crashed

text \<open>
  What can be seen of the server: a datagram or a connection and what was sent back, a refresh, a change of
  the store, the end. The state has the stores there have been, the newest first.
\<close>

datatype event = Datagram bytes "bytes option" | Connection bytes bytes | Refresh | StoreChange | Stop

inductive dns_step ::
  "(string \<Rightarrow> string) \<Rightarrow> 's ClusterStore \<Rightarrow> 's list \<times> DnsServer \<times> status \<Rightarrow> event \<Rightarrow> 's list \<times> DnsServer \<times> status \<Rightarrow> bool"
  for U S where
  datagram_answered:
    "serve_datagram U srv d = Some (Ok resp) \<Longrightarrow>
     dns_step U S (h, srv, Serving) (Datagram d (Some resp)) (h, srv, Serving)"
| datagram_dropped:
    "serve_datagram U srv d = Some (Err e) \<Longrightarrow> dns_step U S (h, srv, Serving) (Datagram d None) (h, srv, Serving)"
| datagram_fatal:
    "serve_datagram U srv d \<in> {None, Some (Panic m)} \<Longrightarrow> dns_step U S (h, srv, Serving) (Datagram d None) (h, srv, Crashed)"
| connection:
    "serve_connection U srv input = Some (Ok out) \<Longrightarrow>
     dns_step U S (h, srv, Serving) (Connection input out) (h, srv, Serving)"
| connection_fatal:
    "serve_connection U srv input \<in> {None, Some (Panic m)} \<Longrightarrow>
     dns_step U S (h, srv, Serving) (Connection input []) (h, srv, Crashed)"
| refresh:
    "refreshZone U S s srv = (res, srv') \<Longrightarrow> (\<And>m. res \<noteq> Panic m) \<Longrightarrow>
     dns_step U S (s # h, srv, Serving) Refresh (s # h, srv', Serving)"
| refresh_fatal:
    "refreshZone U S s srv = (Panic m, srv') \<Longrightarrow> dns_step U S (s # h, srv, Serving) Refresh (s # h, srv', Crashed)"
| store: "dns_step U S (h, srv, st) StoreChange (s # h, srv, st)"
| stop: "dns_step U S (h, srv, Serving) Stop (h, srv, Stopped)"



section \<open>The zone comes from the store\<close>








section \<open>How it starts and ends\<close>

text \<open>
  The configured address has no effect: the server resolves the address of the sockets it does not have yet,
  which is empty, and then listens for connections where its datagram socket is.
\<close>

lemma Run_ignores_Listen: "Run_start U S N s (NewServer (cfg\<lparr>dc_Listen := a\<rparr>)) = Run_start U S N s (NewServer cfg)"
  by (simp add: NewServer_def)

lemma Run_addresses:
  assumes "Run_start U S N s (NewServer cfg) = (Ok (), srv)"
  shows "\<exists>u t. open_socket (nt_ResolveUDPAddr N) (nt_ListenUDP N) [] = Ok u
    \<and> open_socket (nt_ResolveTCPAddr N) (nt_ListenTCP N) u = Ok t \<and> ds_udp srv = Some u \<and> ds_tcp srv = Some t"
proof -
  have "refreshZone U S s x = (Ok (), srv) \<Longrightarrow> ds_udp srv = ds_udp x \<and> ds_tcp srv = ds_tcp x" for x
    by (auto simp: refreshZone_def split: outcome.splits)
  then show ?thesis
    using assms by (fastforce simp: Run_start_def Let_def server_cfg_def NewServer_def addr_def split: outcome.splits)
qed

text \<open>One datagram ends the server: its name points to itself.\<close>

lemma one_datagram_crashes:
  "dns_step U S (h, srv, Serving)
     (Datagram (replicate 12 (byte_of 0) @ [byte_of 0xC0, byte_of 0x0C]) None) (h, srv, Crashed)"
proof -
  have "serve_datagram U srv (replicate 12 (byte_of 0) @ [byte_of 0xC0, byte_of 0x0C]) = None"
    unfolding serve_datagram_def by (rule pointer_loop_never_returns) (simp_all add: nth_append)
  then show ?thesis by (intro dns_step.datagram_fatal) simp
qed

section \<open>A concrete server\<close>



end
