(* ===== verification/GoAny.thy ===== *)
theory GoAny
  imports GoJson GoScan
begin

text \<open>
  Values of the type \<^verbatim>\<open>any\<close>: what \<^verbatim>\<open>json.Unmarshal\<close> stores in one, how \<^verbatim>\<open>json.MarshalIndent\<close> and \<^verbatim>\<open>fmt.Println\<close>
  write it and the shortest decimal of a \<^verbatim>\<open>float64\<close>.
\<close>

section \<open>The shortest decimal of a number\<close>

text \<open>
  A positive number q is \<^verbatim>\<open>0.d1d2d3... * 10^e\<close> with a digit d1 that is not 0; the smallest positive \<^verbatim>\<open>float64\<close>
  has less than 400 zeros behind the point.
\<close>

fun leading_zeros :: "nat \<Rightarrow> rat \<Rightarrow> nat" where
  "leading_zeros 0 q = 0"
| "leading_zeros (Suc n) q = (if q * 10 \<ge> 1 then 0 else Suc (leading_zeros n (q * 10)))"

definition decimal_exp :: "rat \<Rightarrow> int" where
  "decimal_exp q = (if q \<ge> 1 then int (length (digits (nat \<lfloor>q\<rfloor>))) else - int (leading_zeros 400 q))"

definition scale10 :: "int \<Rightarrow> rat" where
  "scale10 k = (if 0 \<le> k then 10 ^ nat k else 1 / 10 ^ nat (- k))"

text \<open>The decimals of n digits next to q that are read back as q; the nearer one of two.\<close>

definition decimal_near :: "rat \<Rightarrow> nat \<Rightarrow> nat option" where
  "decimal_near q n =
     (let u = scale10 (decimal_exp q - int n); m = nat \<lfloor>q / u\<rfloor>;
          good = (\<lambda>m. f64_round (of_nat m * u) = Fin q); d = q / u - of_nat m
      in if good m \<and> good (Suc m) then Some (if d < 1 / 2 \<or> d = 1 / 2 \<and> even m then m else Suc m)
         else if good m then Some m
         else if good (Suc m) then Some (Suc m)
         else None)"

definition strip_zeros :: "string \<Rightarrow> string" where
  "strip_zeros s = rev (dropWhile (\<lambda>c. c = CHR ''0'') (rev s))"

text \<open>The digits and the place of the point; 17 digits always suffice.\<close>

definition shortest :: "rat \<Rightarrow> string \<times> int" where
  "shortest q =
     (case filter (\<lambda>n. decimal_near q n \<noteq> None) [1..<18] of
        [] \<Rightarrow> ([], 0)
      | n # _ \<Rightarrow>
          let ds = digits (the (decimal_near q n))
          in (strip_zeros ds, decimal_exp q + (int (length ds) - int n)))"

text \<open>The formats \<^verbatim>\<open>%f\<close> and \<^verbatim>\<open>%e\<close> of these digits; the last one with the least number of digits in the exponent.\<close>

definition plain_format :: "string \<times> int \<Rightarrow> string" where
  "plain_format x =
     (case x of (ds, p) \<Rightarrow>
        if ds = [] then ''0''
        else if p \<le> 0 then ''0.'' @ replicate (nat (- p)) CHR ''0'' @ ds
        else if int (length ds) \<le> p then ds @ replicate (nat p - length ds) CHR ''0''
        else take (nat p) ds @ ''.'' @ drop (nat p) ds)"

definition exp_format :: "nat \<Rightarrow> string \<times> int \<Rightarrow> string" where
  "exp_format w x =
     (case x of (ds, p) \<Rightarrow>
        let e = p - 1; es = digits (nat \<bar>e\<bar>)
        in take 1 ds @ (if 1 < length ds then ''.'' @ drop 1 ds else [])
           @ (if e < 0 then ''e-'' else ''e+'') @ replicate (w - length es) CHR ''0'' @ es)"

definition magnitude :: "string \<Rightarrow> rat option" where
  "magnitude s = (case ParseFloat s of Some (Fin q) \<Rightarrow> Some \<bar>q\<bar> | _ \<Rightarrow> None)"

definition minus_of :: "string \<Rightarrow> string" where
  "minus_of s = (if HasPrefix s ''-'' then ''-'' else [])"

text \<open>A number of a document as \<^verbatim>\<open>encoding/json\<close> and as \<^verbatim>\<open>fmt\<close> write its \<^verbatim>\<open>float64\<close>.\<close>

definition json_float :: "string \<Rightarrow> string" where
  "json_float s =
     (let q = the (magnitude s); x = (if q = 0 then ([], 0) else shortest q)
      in minus_of s @ (if q \<noteq> 0 \<and> (q < 1 / 1000000 \<or> q \<ge> 10 ^ 21) then exp_format (if q < 1 then 1 else 2) x
                       else plain_format x))"

definition g_format :: "rat \<Rightarrow> string" where
  "g_format q =
     (let x = (if q = 0 then ([], 1) else shortest q); e = snd x - 1
      in if e < - 4 \<or> 6 \<le> e then exp_format 2 x else plain_format x)"

definition fmt_float :: "string \<Rightarrow> string" where
  "fmt_float s = minus_of s @ g_format (the (magnitude s))"

text \<open>The verb \<^verbatim>\<open>%g\<close> for a \<^verbatim>\<open>float64\<close>.\<close>

fun Sprintf_g :: "float64 \<Rightarrow> string" where
  "Sprintf_g (Fin q) = (if q < 0 then ''-'' else []) @ g_format \<bar>q\<bar>"
| "Sprintf_g PInf = ''+Inf''"
| "Sprintf_g NInf = ''-Inf''"
| "Sprintf_g NaN = ''NaN''"

section \<open>Values\<close>

text \<open>
  A value is the JSON value with numbers that are in range (one that is not is an error and the value nil)
  and with one member of each name, the last, in the order of the names.
\<close>

fun any_value :: "json \<Rightarrow> json" where
  "any_value (JNumber s) = (if magnitude s = None then JNull else JNumber s)"
| "any_value (JArray xs) = JArray (map any_value xs)"
| "any_value (JObject ms) =
     JObject (sort_key fst (fold (\<lambda>(k, x) m. mput k x m) (map (\<lambda>(k, x). (k, any_value x)) ms) []))"
| "any_value j = j"

fun any_good :: "json \<Rightarrow> bool" where
  "any_good (JNumber s) \<longleftrightarrow> magnitude s \<noteq> None"
| "any_good (JArray xs) \<longleftrightarrow> list_all any_good xs"
| "any_good (JObject ms) \<longleftrightarrow> list_all (\<lambda>(k, x). any_good x) ms"
| "any_good j \<longleftrightarrow> True"

definition unmarshal_any :: "bytes \<Rightarrow> json option" where
  "unmarshal_any b = (case json_parse b of Some j \<Rightarrow> if any_good j then Some (any_value j) else None | None \<Rightarrow> None)"

definition new_line :: "nat \<Rightarrow> string" where
  "new_line d = CHR 0x0A # replicate (2 * d) CHR '' ''"

fun commas :: "nat \<Rightarrow> string list \<Rightarrow> string" where
  "commas d [] = []"
| "commas d [x] = new_line d @ x"
| "commas d (x # y # xs) = new_line d @ x @ '','' @ commas d (y # xs)"

text \<open>\<^verbatim>\<open>MarshalIndent\<close> with two blanks for a level; the first argument is the level.\<close>

fun json_indent :: "nat \<Rightarrow> json \<Rightarrow> string" where
  "json_indent d (JNumber s) = json_float s"
| "json_indent d (JArray xs) =
     (if xs = [] then ''[]'' else ''['' @ commas (Suc d) (map (json_indent (Suc d)) xs) @ new_line d @ '']'')"
| "json_indent d (JObject ms) =
     (if ms = [] then ''{}''
      else ''{'' @ commas (Suc d) (map (\<lambda>(k, x). json_quote k @ '': '' @ json_indent (Suc d) x) ms) @ new_line d @ ''}'')"
| "json_indent d j = json_print j"

text \<open>\<^verbatim>\<open>fmt.Println\<close> of a value.\<close>

fun any_text :: "json \<Rightarrow> string" where
  "any_text JNull = ''<nil>''"
| "any_text (JBool b) = (if b then ''true'' else ''false'')"
| "any_text (JNumber s) = fmt_float s"
| "any_text (JString s) = s"
| "any_text (JArray xs) = ''['' @ Join (map any_text xs) '' '' @ '']''"
| "any_text (JObject ms) = ''map['' @ Join (map (\<lambda>(k, x). k @ '':'' @ any_text x) ms) '' '' @ '']''"

section \<open>Quoted strings\<close>

text \<open>
  \<^verbatim>\<open>strconv.Quote\<close>, the verb \<^verbatim>\<open>%q\<close>. Which characters from 256 on are printable is in the Unicode tables, an argument.
\<close>

definition utf8_decode :: "string \<Rightarrow> nat" where
  "utf8_decode s =
     (case map byte_val s of
        [a, b] \<Rightarrow> (a - 192) * 64 + (b - 128)
      | [a, b, c] \<Rightarrow> (a - 224) * 4096 + (b - 128) * 64 + (c - 128)
      | [a, b, c, d] \<Rightarrow> (a - 240) * 262144 + (b - 128) * 4096 + (c - 128) * 64 + (d - 128)
      | [a] \<Rightarrow> a
      | _ \<Rightarrow> 65533)"

definition IsPrint :: "(nat \<Rightarrow> bool) \<Rightarrow> nat \<Rightarrow> bool" where
  "IsPrint T r =
     (if r < 128 then 32 \<le> r \<and> r < 127 else if r < 256 then 161 \<le> r \<and> r \<noteq> 173 else T r)"

definition hex_digits :: "nat \<Rightarrow> nat \<Rightarrow> string" where
  "hex_digits w r = map (\<lambda>i. hex_digit (r div 16 ^ i mod 16)) (rev [0..<w])"

definition quote_rune :: "(nat \<Rightarrow> bool) \<Rightarrow> nat \<Rightarrow> string \<Rightarrow> string" where
  "quote_rune T r raw =
     (if r = 34 \<or> r = 92 then backslash # raw
      else if IsPrint T r then raw
      else if r = 7 then [backslash, CHR ''a'']
      else if r = 8 then [backslash, CHR ''b'']
      else if r = 12 then [backslash, CHR ''f'']
      else if r = 10 then [backslash, CHR ''n'']
      else if r = 13 then [backslash, CHR ''r'']
      else if r = 9 then [backslash, CHR ''t'']
      else if r = 11 then [backslash, CHR ''v'']
      else if r < 32 \<or> r = 127 then [backslash, CHR ''x''] @ hex_digits 2 r
      else if r < 65536 then [backslash, CHR ''u''] @ hex_digits 4 r
      else [backslash, CHR ''U''] @ hex_digits 8 r)"

function quote_runes :: "(nat \<Rightarrow> bool) \<Rightarrow> string \<Rightarrow> string" where
  "quote_runes T [] = []"
| "quote_runes T (c # s) =
     (let k = utf8_size (c # s) in
      if k = 0 then [backslash, CHR ''x''] @ hex_digits 2 (byte_val c) @ quote_runes T s
      else quote_rune T (utf8_decode (take k (c # s))) (take k (c # s)) @ quote_runes T (drop (k - 1) s))"
  by pat_completeness auto
termination by (relation "measure (length \<circ> snd)") auto

definition Quote :: "(nat \<Rightarrow> bool) \<Rightarrow> string \<Rightarrow> string" where
  "Quote T s = quote # quote_runes T s @ [quote]"

text \<open>Plain text is only put between quotes.\<close>

lemma quote_runes_plain:
  "list_all (\<lambda>c. 32 \<le> byte_val c \<and> byte_val c < 127 \<and> byte_val c \<noteq> 34 \<and> byte_val c \<noteq> 92) s \<Longrightarrow> quote_runes T s = s"
  by (induction s) (simp_all add: utf8_decode_def quote_rune_def IsPrint_def)

section \<open>Maps\<close>

text \<open>A map from strings to values; null is the nil map.\<close>

definition read_any_map :: "json \<Rightarrow> (string, json) gomap \<times> bool \<Rightarrow> (string, json) gomap \<times> bool" where
  "read_any_map x acc =
     (case x of
        JObject ms \<Rightarrow> fold (\<lambda>(k, v) a. (mput k (any_value v) (fst a), snd a \<and> any_good v)) ms acc
      | JNull \<Rightarrow> ([], snd acc)
      | _ \<Rightarrow> (fst acc, False))"

end
