(* ===== verification/Exposition.thy ===== *)
theory Exposition
  imports Observability GoAny
begin

text \<open>
  The text format of the metrics registry, \<^verbatim>\<open>TextExposition\<close> of \<^verbatim>\<open>internal/primitives/obs/metrics.go\<close>, and what it shows
  of a histogram. The registry is in the order in which the map is iterated.
\<close>

section \<open>The text\<close>

definition formatFloat :: "float64 \<Rightarrow> string" where
  "formatFloat f = Sprintf_g f"

definition labelsString :: "(nat \<Rightarrow> bool) \<Rightarrow> (string, string) gomap \<Rightarrow> string" where
  "labelsString T labels = Join (map (\<lambda>k. k @ ''='' @ Quote T (label_value labels k)) (sort (mkeys labels))) '',''"

definition text_line :: "string \<Rightarrow> string" where
  "text_line s = s @ [CHR 0x0A]"

definition head_lines :: "Metric \<Rightarrow> string" where
  "head_lines mm =
     text_line (''# HELP '' @ me_Name mm @ '' '' @ me_Help mm) @ text_line (''# TYPE '' @ me_Name mm @ '' '' @ me_Type mm)"

definition bucket_line :: "(nat \<Rightarrow> bool) \<Rightarrow> Metric \<Rightarrow> string \<Rightarrow> u64 \<Rightarrow> string" where
  "bucket_line T mm le n =
     text_line (me_Name mm @ ''_bucket{'' @ labelsString T (mergeLabels (me_Labels mm) [(''le'', le)]) @ ''} '' @ digits (unat n))"

text \<open>The lines of one metric; an index out of range panics.\<close>

definition metric_lines :: "(nat \<Rightarrow> bool) \<Rightarrow> Metric \<Rightarrow> string outcome" where
  "metric_lines T mm =
     (if me_Type mm = ''histogram'' then
        (let counts = me_BucketCounts mm in
         if length counts < length (me_Buckets mm) \<or> counts = [] then Panic ''index out of range''
         else Ok (concat (map (\<lambda>(bk, n). bucket_line T mm (formatFloat bk) n) (zip (me_Buckets mm) counts))
                @ bucket_line T mm ''+Inf'' (last counts)
                @ text_line (me_Name mm @ ''_sum '' @ formatFloat (me_Sum mm))
                @ text_line (me_Name mm @ ''_count '' @ digits (unat (me_Count mm)))))
      else Ok (text_line (me_Name mm @ ''{'' @ labelsString T (me_Labels mm) @ ''} '' @ formatFloat (me_Value mm))))"

fun expose :: "(nat \<Rightarrow> bool) \<Rightarrow> Metric list \<Rightarrow> string list \<Rightarrow> string \<Rightarrow> string outcome" where
  "expose T [] seenHelp b = Ok b"
| "expose T (mm # mts) seenHelp b =
     (let b1 = (if me_Name mm \<in> set seenHelp then b else b @ head_lines mm)
      in case metric_lines T mm of
           Ok t \<Rightarrow> expose T mts (me_Name mm # seenHelp) (b1 @ t)
         | Err e \<Rightarrow> Err e
         | Panic m \<Rightarrow> Panic m)"

definition TextExposition :: "(nat \<Rightarrow> bool) \<Rightarrow> Metrics \<Rightarrow> string outcome" where
  "TextExposition T m = expose T (Snapshot m) [] []"

section \<open>What a histogram shows\<close>

text \<open>The samples of a histogram one after the other.\<close>

fun observe_all :: "string \<Rightarrow> (string, string) gomap \<Rightarrow> float64 list \<Rightarrow> float64 list \<Rightarrow> Metrics \<Rightarrow> unit outcome \<times> Metrics" where
  "observe_all name labels buckets [] m = (Ok (), m)"
| "observe_all name labels buckets (v # vs) m =
     (case Observe name v labels buckets m of
        (Ok _, m') \<Rightarrow> observe_all name labels buckets vs m'
      | r \<Rightarrow> r)"

definition histogram_of :: "string \<Rightarrow> (string, string) gomap \<Rightarrow> float64 list \<Rightarrow> float64 list \<Rightarrow> Metric" where
  "histogram_of name labels buckets vs =
     (new_metric name ''histogram'' labels)
       \<lparr>me_Buckets := buckets,
        me_BucketCounts := map (\<lambda>b. of_nat (length (filter (\<lambda>v. f64_le v b) vs))) buckets @ [of_nat (length vs)],
        me_Sum := foldl f64_add (Fin 0) vs, me_Count := of_nat (length vs)\<rparr>"

lemma count_buckets_histogram:
  "count_buckets v buckets (map (\<lambda>b. of_nat (length (filter (\<lambda>v. f64_le v b) vs))) buckets @ [of_nat (length vs)])
   = Some (map (\<lambda>b. of_nat (length (filter (\<lambda>v. f64_le v b) (vs @ [v])))) buckets @ [of_nat (length (vs @ [v]))])"
proof -
  let ?c = "map (\<lambda>b. of_nat (length (filter (\<lambda>v. f64_le v b) vs)) :: u64) buckets"
  have "map (\<lambda>(i, c). if i < length buckets \<and> f64_le v (buckets ! i) then c + 1 else c)
      (zip [0..<Suc (length buckets)] (?c @ [of_nat (length vs)]))
    = map (\<lambda>b. of_nat (length (filter (\<lambda>v. f64_le v b) (vs @ [v])))) buckets @ [of_nat (length vs)]"
    by (rule nth_equalityI) (auto simp: nth_append nth_Cons' add.commute less_Suc_eq)
  moreover have "(d @ [a])[n := (d @ [a]) ! n + 1] = d @ [a + 1]" if "length d = n" for d n and a :: u64
    using that by auto
  ultimately show ?thesis
    unfolding count_buckets_def Let_def by (simp del: filter_append upt_Suc add: add.commute)
qed

lemma Observe_step:
  assumes "mget m (metricKey name labels) = Some (histogram_of name labels buckets vs)"
  shows "Observe name v labels buckets m
    = (Ok (), mput (metricKey name labels) (histogram_of name labels buckets (vs @ [v])) (mput (metricKey name labels) (histogram_of name labels buckets vs) m))"
  using assms count_buckets_histogram [of v buckets vs]
  by (simp add: Observe_def Let_def) (simp add: histogram_of_def add.commute)

lemma mput_one: "mput k y [(k, x)] = [(k, y)]" "mput k y [] = [(k, y)]"
  by (simp_all add: mput_def)

lemma observe_more:
  "observe_all name labels buckets vs [(metricKey name labels, histogram_of name labels buckets ws)]
   = (Ok (), [(metricKey name labels, histogram_of name labels buckets (ws @ vs))])"
proof (induction vs arbitrary: ws)
  case (Cons v vs)
  have "mget [(metricKey name labels, histogram_of name labels buckets ws)] (metricKey name labels)
      = Some (histogram_of name labels buckets ws)" by (simp add: mget_def)
  from Observe_step [OF this, of v] Cons [of "ws @ [v]"] show ?case by (simp add: mput_one)
qed simp

lemma observe_fresh:
  assumes "vs \<noteq> []"
  shows "observe_all name labels buckets vs NewMetrics
    = (Ok (), [(metricKey name labels, histogram_of name labels buckets vs)])"
proof -
  obtain v ws where vs: "vs = v # ws" using assms by (cases vs) auto
  let ?h = "histogram_of name labels buckets" and ?k = "metricKey name labels"
  have e: "(new_metric name ''histogram'' labels)\<lparr>me_Buckets := buckets, me_BucketCounts := replicate (length buckets + 1) 0\<rparr> = ?h []"
    by (simp add: histogram_of_def new_metric_def map_replicate_const replicate_append_same)
  have g: "mget [(?k, ?h [])] ?k = Some (?h [])" by (simp add: mget_def)
  have "Observe name v labels buckets NewMetrics = Observe name v labels buckets [(?k, ?h [])]"
    unfolding Observe_def NewMetrics_def Let_def g mget_nil option.case e mput_one ..
  with g have "Observe name v labels buckets NewMetrics = (Ok (), [(?k, ?h [v])])"
    using Observe_step [of "[(?k, ?h [])]" name labels buckets "[]" v] by (simp add: mput_one)
  then show ?thesis using observe_more [of name labels buckets ws "[v]"] by (simp add: vs)
qed

text \<open>
  Property C38. The text of a histogram shows its samples: after any samples, the line of every bucket has the
  number of samples up to its bound, the line of infinity and the count have the number of all
  samples (counted in 64 bits), and the sum is the floating point sum in the order of the samples.
\<close>

theorem histogram_exposition:
  assumes "vs \<noteq> []"
  shows "\<exists>m. observe_all name labels buckets vs NewMetrics = (Ok (), m)
    \<and> TextExposition T m = Ok (
        text_line (''# HELP '' @ name @ '' '') @ text_line (''# TYPE '' @ name @ '' histogram'')
        @ concat (map (\<lambda>b. text_line (name @ ''_bucket{'' @ labelsString T (mergeLabels (copyMap labels) [(''le'', formatFloat b)])
            @ ''} '' @ digits (length (filter (\<lambda>v. f64_le v b) vs) mod 2 ^ 64))) buckets)
        @ text_line (name @ ''_bucket{'' @ labelsString T (mergeLabels (copyMap labels) [(''le'', ''+Inf'')])
            @ ''} '' @ digits (length vs mod 2 ^ 64))
        @ text_line (name @ ''_sum '' @ formatFloat (foldl f64_add (Fin 0) vs))
        @ text_line (name @ ''_count '' @ digits (length vs mod 2 ^ 64)))"
proof -
  let ?h = "histogram_of name labels buckets vs"
  have z: "zip bs (map f bs @ xs) = map (\<lambda>b. (b, f b)) bs" for bs :: "float64 list" and f :: "float64 \<Rightarrow> u64" and xs
    by (induction bs) simp_all
  have t: "TextExposition T [(metricKey name labels, ?h)] = expose T [?h] [] []"
    by (simp add: TextExposition_def Snapshot_def)
  show ?thesis
    by (simp add: observe_fresh [OF assms] t)
       (simp add: histogram_of_def new_metric_def metric_lines_def head_lines_def bucket_line_def Let_def z comp_def
         unat_of_nat)
qed

theorem histogram_exposition_witness:
  "\<exists>m. observe_all ''lat'' [] [Fin 1] [Fin 2] NewMetrics = (Ok (), m)
    \<and> TextExposition (\<lambda>_. True) m = Ok (
        text_line ''# HELP lat '' @ text_line ''# TYPE lat histogram''
        @ text_line (''lat_bucket{'' @ labelsString (\<lambda>_. True) (mergeLabels (copyMap []) [(''le'', formatFloat (Fin 1))])
            @ ''} '' @ digits 0)
        @ text_line (''lat_bucket{'' @ labelsString (\<lambda>_. True) (mergeLabels (copyMap []) [(''le'', ''+Inf'')])
            @ ''} '' @ digits 1)
        @ text_line (''lat_sum '' @ formatFloat (f64_add (Fin 0) (Fin 2)))
        @ text_line (''lat_count '' @ digits 1))"
  using histogram_exposition [of "[Fin 2]" "''lat''" "[]" "[Fin 1]" "\<lambda>_. True"]
  by (simp add: f64_le_def f64_eq_def)

end
