(* ===== verification/Identity.thy ===== *)
theory Identity
  imports GoCrypto GoJson StateTypes
begin

text \<open>
  The identity service, \<^verbatim>\<open>internal/identity/identity.go\<close>: permission rules, accounts, sessions with signed
  tokens, and API keys. The store of the state package and bcrypt (a third-party package) are arguments;
  so are the time and the random bytes of a call. SHA-256, HMAC, base64 and JSON are those of the
  standard library and are computed.
\<close>

section \<open>Errors and data\<close>

definition ErrInvalidCredentials :: go_error where
  "ErrInvalidCredentials = ErrorString ''identity: invalid credentials''"

definition ErrUnauthorized :: go_error where
  "ErrUnauthorized = ErrorString ''identity: unauthorized''"

definition ErrTokenExpired :: go_error where
  "ErrTokenExpired = ErrorString ''identity: token expired''"

definition ErrTokenMalformed :: go_error where
  "ErrTokenMalformed = ErrorString ''identity: token malformed''"

lemmas identity_errors =
  ErrInvalidCredentials_def ErrUnauthorized_def ErrTokenExpired_def ErrTokenMalformed_def

definition builtinRoles :: "(string, string list) gomap" where
  "builtinRoles =
    [(''admin'', [''*:*'']),
     (''editor'', [''*:*'']),
     (''viewer'', [''get:*'', ''list:*'']),
     (''operator'', [''get:nodes'', ''list:nodes'', ''post:nodes'', ''get:workloads'', ''list:workloads'',
        ''get:metrics'', ''get:alerts'', ''list:alerts''])]"

record cachedUser =
  cu_User :: User
  cu_Rules :: "string list"
  cu_Expires :: time

record Manager =
  mg_hmacKey :: bytes
  mg_cache :: "(string, cachedUser) gomap"

record token =
  tk_UserID :: string
  tk_ExpiresAt :: int

text \<open>What the service calls of bcrypt: a hash of a password (with a salt), and the comparison.\<close>

record Bcrypt =
  bc_Generate :: "bytes \<Rightarrow> string \<Rightarrow> string outcome"
  bc_Compare :: "string \<Rightarrow> string \<Rightarrow> bool"

section \<open>Permissions\<close>

definition matchPart :: "string \<Rightarrow> string \<Rightarrow> bool" where
  "matchPart pattern value \<longleftrightarrow>
     (if pattern = [] \<or> pattern = ''*'' then True
      else if HasSuffix pattern ''*'' then HasPrefix value (take (length pattern - 1) pattern)
      else if HasPrefix pattern ''*'' then HasSuffix value (drop 1 pattern)
      else pattern = value)"

definition matchRule :: "string \<Rightarrow> string \<Rightarrow> string \<Rightarrow> bool" where
  "matchRule rule verb resource \<longleftrightarrow>
     (case SplitN2 rule CHR '':'' of
        [v, r] \<Rightarrow> if \<not> matchPart v verb then False else if \<not> matchPart r resource then False else True
      | _ \<Rightarrow> False)"

fun HasPermission :: "string list \<Rightarrow> string \<Rightarrow> string \<Rightarrow> bool" where
  "HasPermission [] verb resource = False"
| "HasPermission (r # rules) verb resource =
     (if matchRule r verb resource then True else HasPermission rules verb resource)"

definition RulesFor :: "User \<Rightarrow> string list" where
  "RulesFor u =
     (if u_Admin u then [''*:*'']
      else case mget builtinRoles ''viewer'' of Some rules \<Rightarrow> rules | None \<Rightarrow> [])"

definition Authorize :: "User option \<Rightarrow> string \<Rightarrow> string \<Rightarrow> unit outcome" where
  "Authorize u verb resource =
     (case u of
        None \<Rightarrow> Err ErrUnauthorized
      | Some usr \<Rightarrow> if \<not> HasPermission (RulesFor usr) verb resource then Err ErrUnauthorized else Ok ())"

section \<open>Tokens\<close>

definition New_Manager :: "bytes \<Rightarrow> Manager" where
  "New_Manager secret = \<lparr>mg_hmacKey = secret, mg_cache = []\<rparr>"

definition marshal_token :: "token \<Rightarrow> bytes" where
  "marshal_token t =
     json_print (JObject [(''sub'', JString (tk_UserID t)), (''exp'', JNumber (FormatInt (tk_ExpiresAt t)))])"

text \<open>
  \<^verbatim>\<open>json.Unmarshal\<close> into a token: members are matched to fields by name, a later one overwrites an earlier
  one, null leaves a field alone, and a value of the wrong type is reported after the rest was read.
\<close>

definition token_member :: "string \<times> json \<Rightarrow> token \<times> bool \<Rightarrow> token \<times> bool" where
  "token_member km acc =
     (case (km, acc) of
        ((k, x), (t, good)) \<Rightarrow>
          if names_field ''sub'' k then
            (case x of JString v \<Rightarrow> (t\<lparr>tk_UserID := v\<rparr>, good) | JNull \<Rightarrow> (t, good) | _ \<Rightarrow> (t, False))
          else if names_field ''exp'' k then
            (case x of
               JNumber n \<Rightarrow>
                 (case ParseInt n of Some i \<Rightarrow> (t\<lparr>tk_ExpiresAt := i\<rparr>, good) | None \<Rightarrow> (t, False))
             | JNull \<Rightarrow> (t, good)
             | _ \<Rightarrow> (t, False))
          else (t, good))"

definition empty_token :: token where
  "empty_token = \<lparr>tk_UserID = [], tk_ExpiresAt = 0\<rparr>"

definition unmarshal_token :: "bytes \<Rightarrow> token option" where
  "unmarshal_token body =
     (case json_parse body of
        Some JNull \<Rightarrow> Some empty_token
      | Some (JObject ms) \<Rightarrow>
          (case fold token_member ms (empty_token, True) of (t, good) \<Rightarrow> if good then Some t else None)
      | _ \<Rightarrow> None)"

definition signToken :: "Manager \<Rightarrow> string \<Rightarrow> time \<Rightarrow> string outcome" where
  "signToken M userID ex =
     (let body = marshal_token \<lparr>tk_UserID = userID, tk_ExpiresAt = time_Unix ex\<rparr>;
          enc = b64_encode body;
          sig = b64_encode (hmac_sha256 (mg_hmacKey M) enc)
      in Ok (enc @ ''.'' @ sig))"

definition VerifyToken :: "'s UserStore \<Rightarrow> Manager \<Rightarrow> string \<Rightarrow> time \<Rightarrow> 's \<Rightarrow> User outcome" where
  "VerifyToken S M tok now s =
     (case SplitN2 tok CHR ''.'' of
        [enc, sig] \<Rightarrow>
          (let wantSig = hmac_sha256 (mg_hmacKey M) enc in
           case b64_decode sig of
             None \<Rightarrow> Err ErrTokenMalformed
           | Some gotSig \<Rightarrow>
               if wantSig \<noteq> gotSig then Err ErrTokenMalformed
               else case b64_decode enc of
                      None \<Rightarrow> Err ErrTokenMalformed
                    | Some body \<Rightarrow>
                        (case unmarshal_token body of
                           None \<Rightarrow> Err ErrTokenMalformed
                         | Some t \<Rightarrow>
                             if time_Unix now > tk_ExpiresAt t then Err ErrTokenExpired
                             else case us_GetUser S (tk_UserID t) s of
                                    Ok u \<Rightarrow> Ok u
                                  | Err e \<Rightarrow> Err ErrUnauthorized
                                  | Panic m \<Rightarrow> Panic m))
      | _ \<Rightarrow> Err ErrTokenMalformed)"

section \<open>Accounts\<close>

definition randID :: "bytes \<Rightarrow> string" where
  "randID b = hex_encode b"

definition randSecret :: "bytes \<Rightarrow> string" where
  "randSecret b = ''ctlk_'' @ hex_encode b"

definition hash_and_create ::
  "'s UserStore \<Rightarrow> Bcrypt \<Rightarrow> bytes \<Rightarrow> bytes \<Rightarrow> string \<Rightarrow> string \<Rightarrow> string \<Rightarrow> bool \<Rightarrow> 's \<Rightarrow> User outcome \<times> 's" where
  "hash_and_create S B salt rnd email password displayName admin s =
     (case bc_Generate B salt password of
        Err e \<Rightarrow> (Err e, s)
      | Panic m \<Rightarrow> (Panic m, s)
      | Ok h \<Rightarrow>
          us_CreateUser S
            \<lparr>u_ID = ''usr_'' @ randID rnd, u_Name = displayName, u_Email = email, u_DisplayName = displayName,
             u_Admin = admin, u_PasswordBcrypt = h\<rparr> s)"

definition BootstrapAdmin ::
  "'s UserStore \<Rightarrow> Bcrypt \<Rightarrow> bytes \<Rightarrow> bytes \<Rightarrow> string \<Rightarrow> string \<Rightarrow> string \<Rightarrow> 's \<Rightarrow> User outcome \<times> 's" where
  "BootstrapAdmin S B salt rnd email password displayName s =
     (case us_FindUserByEmail S email s of
        Ok u \<Rightarrow> (Ok u, s)
      | Panic m \<Rightarrow> (Panic m, s)
      | Err e \<Rightarrow> hash_and_create S B salt rnd email password displayName True s)"

definition CreateUser ::
  "'s UserStore \<Rightarrow> Bcrypt \<Rightarrow> bytes \<Rightarrow> bytes \<Rightarrow> string \<Rightarrow> string \<Rightarrow> string \<Rightarrow> bool \<Rightarrow> 's \<Rightarrow> User outcome \<times> 's" where
  "CreateUser S B salt rnd email password displayName admin s =
     (if email = [] \<or> password = [] then (Err (ErrorString ''identity: email and password required''), s)
      else hash_and_create S B salt rnd email password displayName admin s)"

definition VerifyPassword :: "Bcrypt \<Rightarrow> User \<Rightarrow> string \<Rightarrow> unit outcome" where
  "VerifyPassword B u password =
     (if u_PasswordBcrypt u = [] then Err ErrInvalidCredentials
      else if \<not> bc_Compare B (u_PasswordBcrypt u) password then Err ErrInvalidCredentials
      else Ok ())"

definition Login ::
  "'s UserStore \<Rightarrow> Bcrypt \<Rightarrow> Manager \<Rightarrow> time \<Rightarrow> string \<Rightarrow> string \<Rightarrow> 's \<Rightarrow> (string \<times> time \<times> User) outcome" where
  "Login S B M now email password s =
     (case us_FindUserByEmail S email s of
        Err e \<Rightarrow> Err ErrInvalidCredentials
      | Panic m \<Rightarrow> Panic m
      | Ok u \<Rightarrow>
          if \<not> is_ok (VerifyPassword B u password) then Err ErrInvalidCredentials
          else let ex = now + 86400 * second
               in case signToken M (u_ID u) ex of
                    Err e \<Rightarrow> Err e
                  | Panic m \<Rightarrow> Panic m
                  | Ok tok \<Rightarrow> Ok (tok, ex, u))"

section \<open>API keys\<close>

definition IssueAPIKey ::
  "'s UserStore \<Rightarrow> bytes \<Rightarrow> bytes \<Rightarrow> time \<Rightarrow> string \<Rightarrow> string \<Rightarrow> duration \<Rightarrow> 's \<Rightarrow> (APIKey \<times> string) outcome \<times> 's" where
  "IssueAPIKey S rndSecret rndID now projectID name ttl s =
     (let secret = randSecret rndSecret;
          ak = \<lparr>ak_ID = ''key_'' @ randID rndID, ak_Name = name, ak_ProjectID = projectID,
                ak_Hash = hex_encode (sha256 secret), ak_Prefix = take 8 secret, ak_ExpiresAt = now + ttl\<rparr>
      in if length secret < 8 then (Panic ''slice bounds out of range'', s)
         else case us_CreateAPIKey S ak s of
                (Ok ak', s') \<Rightarrow> (Ok (ak', secret), s')
              | (Err e, s') \<Rightarrow> (Err e, s')
              | (Panic m, s') \<Rightarrow> (Panic m, s'))"

fun auth_keys :: "time \<Rightarrow> string \<Rightarrow> APIKey list \<Rightarrow> APIKey outcome" where
  "auth_keys now secret [] = Err ErrInvalidCredentials"
| "auth_keys now secret (k # keys) =
     (if length secret < 8 then Panic ''slice bounds out of range''
      else if ak_Prefix k \<noteq> take 8 secret then auth_keys now secret keys
      else if ak_Hash k = hex_encode (sha256 secret) then
        (if ak_ExpiresAt k \<noteq> zero_time \<and> now > ak_ExpiresAt k then Err ErrTokenExpired else Ok k)
      else auth_keys now secret keys)"

definition AuthAPIKey :: "'s UserStore \<Rightarrow> time \<Rightarrow> string \<Rightarrow> 's \<Rightarrow> APIKey outcome" where
  "AuthAPIKey S now secret s =
     (if \<not> HasPrefix secret ''ctlk_'' then Err ErrInvalidCredentials
      else case us_ListAPIKeys S s of
             Panic m \<Rightarrow> Panic m
           | Err e \<Rightarrow> auth_keys now secret []
           | Ok keys \<Rightarrow> auth_keys now secret keys)"

section \<open>Helpers\<close>

definition QuotaCheck :: "Project option \<Rightarrow> int \<Rightarrow> int \<Rightarrow> unit outcome" where
  "QuotaCheck p addCPU addMem = Ok ()"

definition FormatResource :: "int \<Rightarrow> int \<Rightarrow> string" where
  "FormatResource cpu mem =
     ''cpu='' @ FormatInt cpu @ ''m mem='' @ FormatInt (quot64 mem 1048576) @ ''Mi''"

section \<open>Who may do what\<close>

lemma matchPart_star [simp]: "matchPart ''*'' v"
  by (simp add: matchPart_def)

lemma matchRule_star: "CHR '':'' \<notin> set v \<Longrightarrow> matchRule (v @ '':*'') verb resource \<longleftrightarrow> matchPart v verb"
  using SplitN2_sep [of "CHR '':''" v "''*''"] by (simp add: matchRule_def)

lemma rule_all: "matchRule ''*:*'' verb resource"
  using matchRule_star [of "''*''" verb resource] by simp

lemma rule_get: "matchRule ''get:*'' verb resource \<longleftrightarrow> verb = ''get''"
  using matchRule_star [of "''get''" verb resource] by (auto simp: matchPart_def HasSuffix_def HasPrefix_def)

lemma rule_list: "matchRule ''list:*'' verb resource \<longleftrightarrow> verb = ''list''"
  using matchRule_star [of "''list''" verb resource] by (auto simp: matchPart_def HasSuffix_def HasPrefix_def)

lemma viewer_rules: "mget builtinRoles ''viewer'' = Some [''get:*'', ''list:*'']"
  by (simp add: builtinRoles_def mget_def)

text \<open>
  Authorization is decided by the verb alone: no user is refused, an administrator may do
  everything, and every other user may get and list every resource and do nothing else.
\<close>

theorem authorize_decision:
  "Authorize u verb resource =
    (case u of
       None \<Rightarrow> Err ErrUnauthorized
     | Some usr \<Rightarrow> if u_Admin usr \<or> verb = ''get'' \<or> verb = ''list'' then Ok () else Err ErrUnauthorized)"
  by (simp add: Authorize_def RulesFor_def viewer_rules rule_all rule_get rule_list split: option.split)

section \<open>Sessions\<close>

lemma token_fields [simp]:
  "names_field ''sub'' ''sub''" "names_field ''exp'' ''exp''" "\<not> names_field ''sub'' ''exp''"
  by code_simp+

lemma unmarshal_marshal_token:
  assumes "ascii (tk_UserID t)" and "0 \<le> tk_ExpiresAt t" and "is_i64 (tk_ExpiresAt t)"
  shows "unmarshal_token (marshal_token t) = Some t"
proof -
  let ?j = "JObject [(''sub'', JString (tk_UserID t)), (''exp'', JNumber (FormatInt (tk_ExpiresAt t)))]"
  have "FormatInt (tk_ExpiresAt t) = digits (nat (tk_ExpiresAt t))" using assms(2) by (simp add: FormatInt_def)
  then have "json_wf ?j" using assms(1) by (simp add: plain_int_digits byte_val_def ascii_def)
  then have "json_parse (json_print ?j) = Some ?j" by (rule json_parse_print)
  then show ?thesis
    by (simp add: unmarshal_token_def marshal_token_def token_member_def ParseInt_FormatInt assms(3) empty_token_def)
qed

lemma verify_sign:
  assumes "signToken M uid ex = Ok tok" and "ascii uid" and "0 \<le> time_Unix ex" and "is_i64 (time_Unix ex)"
  shows "VerifyToken S M tok now s =
    (if time_Unix now > time_Unix ex then Err ErrTokenExpired
     else case us_GetUser S uid s of Ok u \<Rightarrow> Ok u | Err e \<Rightarrow> Err ErrUnauthorized | Panic m \<Rightarrow> Panic m)"
proof -
  let ?t = "\<lparr>tk_UserID = uid, tk_ExpiresAt = time_Unix ex\<rparr>"
  let ?enc = "b64_encode (marshal_token ?t)"
  have "tok = ?enc @ CHR ''.'' # b64_encode (hmac_sha256 (mg_hmacKey M) ?enc)"
    using assms(1) by (simp add: signToken_def Let_def)
  then have "SplitN2 tok CHR ''.'' = [?enc, b64_encode (hmac_sha256 (mg_hmacKey M) ?enc)]"
    using SplitN2_sep [OF b64_encode_no_dot] by simp
  moreover have "unmarshal_token (marshal_token ?t) = Some ?t" using assms by (intro unmarshal_marshal_token) simp_all
  ultimately show ?thesis by (simp add: VerifyToken_def)
qed

text \<open>
  What bcrypt documents: a hash of a password is accepted with that password, and the empty string is no hash.
\<close>

definition bcrypt_spec :: "Bcrypt \<Rightarrow> bool" where
  "bcrypt_spec B \<longleftrightarrow>
     (\<forall>salt pw h. bc_Generate B salt pw = Ok h \<longrightarrow> bc_Compare B h pw) \<and> (\<forall>pw. \<not> bc_Compare B [] pw)"

text \<open>What the service relies on when it creates a user: the store keeps the user and finds it again.\<close>

definition user_store :: "'s UserStore \<Rightarrow> bool" where
  "user_store S \<longleftrightarrow>
     (\<forall>u s u' s'. us_CreateUser S u s = (Ok u', s') \<longrightarrow>
        u_ID u' = u_ID u \<and> u_Email u' = u_Email u \<and> u_Admin u' = u_Admin u
        \<and> u_PasswordBcrypt u' = u_PasswordBcrypt u
        \<and> us_FindUserByEmail S (u_Email u) s' = Ok u' \<and> us_GetUser S (u_ID u) s' = Ok u')"

lemma ascii_hex: "ascii (hex_encode bs)"
proof -
  have "list_all (\<lambda>n. byte_val (hex_digit n) < 128) [0..<16]" by code_simp
  then have "byte_val (hex_digit n) < 128" if "n < 16" for n using that by (simp add: list_all_iff)
  moreover have "byte_val b div 16 < 16" for b using byte_val_lt [of b] by linarith
  ultimately show ?thesis by (auto simp: ascii_def hex_encode_def list_all_iff)
qed

lemma created_user:
  assumes "user_store S" and "CreateUser S B salt rnd email pw name admin s = (Ok u, s')"
  shows "bc_Generate B salt pw = Ok (u_PasswordBcrypt u)" and "u_ID u = ''usr_'' @ hex_encode rnd"
    and "u_Admin u = admin" and "us_FindUserByEmail S email s' = Ok u" and "us_GetUser S (u_ID u) s' = Ok u"
proof -
  obtain h where h: "bc_Generate B salt pw = Ok h"
    using assms(2) by (auto simp: CreateUser_def hash_and_create_def split: if_splits outcome.splits)
  let ?u0 = "\<lparr>u_ID = ''usr_'' @ hex_encode rnd, u_Name = name, u_Email = email, u_DisplayName = name,
    u_Admin = admin, u_PasswordBcrypt = h\<rparr>"
  have "us_CreateUser S ?u0 s = (Ok u, s')"
    using assms(2) h by (simp add: CreateUser_def hash_and_create_def randID_def split: if_splits)
  then have "u_ID u = u_ID ?u0 \<and> u_Admin u = u_Admin ?u0 \<and> u_PasswordBcrypt u = u_PasswordBcrypt ?u0
      \<and> us_FindUserByEmail S (u_Email ?u0) s' = Ok u \<and> us_GetUser S (u_ID ?u0) s' = Ok u"
    using assms(1) unfolding user_store_def by blast
  with h show "bc_Generate B salt pw = Ok (u_PasswordBcrypt u)" and "u_ID u = ''usr_'' @ hex_encode rnd"
    and "u_Admin u = admin" and "us_FindUserByEmail S email s' = Ok u" and "us_GetUser S (u_ID u) s' = Ok u"
    by simp_all
qed

lemma account_works:
  assumes "bcrypt_spec B" and "user_store S"
    and "CreateUser S B salt rnd email pw name admin s = (Ok u, s')"
    and "0 \<le> time_Unix now" and "is_i64 (time_Unix now + 86400)"
  shows "\<exists>tok. Login S B M now email pw s' = Ok (tok, now + 86400 * second, u)
    \<and> (\<forall>later. VerifyToken S M tok later s' =
          (if time_Unix later \<le> time_Unix now + 86400 then Ok u else Err ErrTokenExpired))"
proof -
  note u = created_user [OF assms(2,3)]
  have "bc_Compare B (u_PasswordBcrypt u) pw" "u_PasswordBcrypt u \<noteq> []"
    using assms(1) u(1) unfolding bcrypt_spec_def by metis+
  then have p: "is_ok (VerifyPassword B u pw)" by (simp add: VerifyPassword_def)
  let ?ex = "now + 86400 * second"
  have ex: "time_Unix ?ex = time_Unix now + 86400" by (simp add: time_Unix_def second_def)
  obtain tok where tok: "signToken M (u_ID u) ?ex = Ok tok" by (simp add: signToken_def Let_def)
  have a: "ascii (u_ID u)" using ascii_hex [of rnd] by (simp add: u(2) ascii_def byte_val_def)
  have "VerifyToken S M tok later s' =
      (if time_Unix later \<le> time_Unix now + 86400 then Ok u else Err ErrTokenExpired)" for later
    using assms(4,5) by (simp add: verify_sign [OF tok a] ex u(5))
  with p tok show ?thesis by (simp add: Login_def u(4))
qed

text \<open>
  An account works: a user who was created can log in with the password, and the token of the
  session is accepted for 24 hours, in whole seconds, and yields that user; afterwards it has expired.
\<close>

theorem account_round_trip:
  assumes "bcrypt_spec B" and "user_store S"
    and "CreateUser S B salt rnd email pw name admin s = (Ok u, s')"
    and "0 \<le> time_Unix now" and "is_i64 (time_Unix now + 86400)"
  shows "\<exists>tok. Login S B M now email pw s' = Ok (tok, now + 86400 * second, u)
    \<and> (\<forall>later. VerifyToken S M tok later s' =
          (if time_Unix later \<le> time_Unix now + 86400 then Ok u else Err ErrTokenExpired))"
  using assms by (rule account_works)


section \<open>API keys\<close>

text \<open>What the service relies on when it stores a key: the fields it set stay, and the key is listed.\<close>

definition key_store :: "'s UserStore \<Rightarrow> bool" where
  "key_store S \<longleftrightarrow>
     (\<forall>k s k' s'. us_CreateAPIKey S k s = (Ok k', s') \<longrightarrow>
        ak_Hash k' = ak_Hash k \<and> ak_Prefix k' = ak_Prefix k \<and> ak_ExpiresAt k' = ak_ExpiresAt k
        \<and> (\<exists>keys. us_ListAPIKeys S s' = Ok keys \<and> k' \<in> set keys))"

lemma auth_keys_finds:
  assumes "k \<in> set keys" and "ak_Prefix k = take 8 secret" and "ak_Hash k = hex_encode (sha256 secret)"
    and "8 \<le> length secret" and "\<And>k'. k' \<in> set keys \<Longrightarrow> ak_Hash k' = ak_Hash k \<Longrightarrow> k' = k"
  shows "auth_keys now secret keys =
    (if ak_ExpiresAt k \<noteq> zero_time \<and> now > ak_ExpiresAt k then Err ErrTokenExpired else Ok k)"
  using assms(1,5)
proof (induction keys)
  case (Cons a keys)
  show ?case
  proof (cases "a = k")
    case True
    with assms(2-4) show ?thesis by simp
  next
    case False
    with Cons.prems have "ak_Hash a \<noteq> hex_encode (sha256 secret)" using assms(3) by auto
    with False Cons assms(4) show ?thesis by simp
  qed
qed simp

lemma issued_key_works:
  assumes "key_store S" and "IssueAPIKey S rs ri now project name ttl s = (Ok (ak, secret), s')"
    and "length rs = 24"
    and "us_ListAPIKeys S s' = Ok keys" and "\<forall>k \<in> set keys. ak_Hash k = ak_Hash ak \<longrightarrow> k = ak"
  shows "AuthAPIKey S later secret s' =
    (if now + ttl \<noteq> zero_time \<and> later > now + ttl then Err ErrTokenExpired else Ok ak)"
proof -
  let ?k = "\<lparr>ak_ID = ''key_'' @ randID ri, ak_Name = name, ak_ProjectID = project,
    ak_Hash = hex_encode (sha256 secret), ak_Prefix = take 8 secret, ak_ExpiresAt = now + ttl\<rparr>"
  have sec: "secret = randSecret rs" and c: "us_CreateAPIKey S ?k s = (Ok ak, s')"
    using assms(2) by (auto simp: IssueAPIKey_def Let_def split: if_splits prod.splits outcome.splits)
  have "ak_Hash ak = ak_Hash ?k \<and> ak_Prefix ak = ak_Prefix ?k \<and> ak_ExpiresAt ak = ak_ExpiresAt ?k
      \<and> (\<exists>keys. us_ListAPIKeys S s' = Ok keys \<and> ak \<in> set keys)"
    using assms(1) c unfolding key_store_def by blast
  then have k: "ak_Hash ak = hex_encode (sha256 secret)" "ak_Prefix ak = take 8 secret"
      "ak_ExpiresAt ak = now + ttl" "ak \<in> set keys"
    using assms(4) by auto
  have "8 \<le> length secret" by (simp add: sec randSecret_def assms(3))
  from auth_keys_finds [OF k(4,2,1) this] assms(5)
  have "auth_keys later secret keys =
      (if now + ttl \<noteq> zero_time \<and> later > now + ttl then Err ErrTokenExpired else Ok ak)" by (simp add: k(3))
  moreover have "HasPrefix secret ''ctlk_''" by (simp add: sec randSecret_def HasPrefix_def)
  ultimately show ?thesis by (simp add: AuthAPIKey_def assms(4))
qed

lemma issued_key_expired:
  assumes "key_store S" and "IssueAPIKey S rs ri now project name ttl s = (Ok (ak, secret), s')"
    and "length rs = 24" and "us_ListAPIKeys S s' = Ok keys" and "inj_on ak_Hash (set keys)"
    and "now + ttl \<noteq> zero_time" and "later > now + ttl"
  shows "AuthAPIKey S later secret s' = Err ErrTokenExpired"
proof -
  have "ak \<in> set keys"
    using assms(1,2,4)
    by (auto simp: IssueAPIKey_def Let_def key_store_def split: if_splits prod.splits outcome.splits) force
  with assms(5) have "\<forall>k \<in> set keys. ak_Hash k = ak_Hash ak \<longrightarrow> k = ak" by (auto dest: inj_onD)
  from issued_key_works [OF assms(1-4) this] assms(6,7) show ?thesis by simp
qed

text \<open>
  The secret of an issued API key authenticates as that key until its expiry, as long as no
  other stored key has the same hash; with a lifetime of 0 it is refused at every later instant.
\<close>

theorem api_key_round_trip:
  assumes "key_store S" and "IssueAPIKey S rs ri now project name ttl s = (Ok (ak, secret), s')"
    and "length rs = 24"
    and "us_ListAPIKeys S s' = Ok keys" and "\<forall>k \<in> set keys. ak_Hash k = ak_Hash ak \<longrightarrow> k = ak"
  shows "AuthAPIKey S later secret s' =
    (if now + ttl \<noteq> zero_time \<and> later > now + ttl then Err ErrTokenExpired else Ok ak)"
  using assms by (rule issued_key_works)

text \<open>
  A presented secret that has the right prefix but fewer than eight bytes is not refused:
  once any key is stored, comparing it slices out of range and panics.
\<close>

theorem short_secret_panics:
  assumes "length x < 3" and "us_ListAPIKeys S s = Ok (k # keys)"
  shows "AuthAPIKey S now (''ctlk_'' @ x) s = Panic ''slice bounds out of range''"
  using assms by (simp add: AuthAPIKey_def HasPrefix_def)

section \<open>A concrete store\<close>

text \<open>A store that keeps the users and the keys in two lists, and a hash that is the password with a mark.\<close>

type_synonym demo_users = "User list \<times> APIKey list"

definition find_user :: "(User \<Rightarrow> bool) \<Rightarrow> demo_users \<Rightarrow> User outcome" where
  "find_user P s = (case find P (fst s) of Some u \<Rightarrow> Ok u | None \<Rightarrow> Err (ErrorString ''not found''))"

definition demo_user_store :: "demo_users UserStore" where
  "demo_user_store =
    \<lparr>us_FindUserByEmail = (\<lambda>email. find_user (\<lambda>u. u_Email u = email)),
     us_GetUser = (\<lambda>i. find_user (\<lambda>u. u_ID u = i)),
     us_CreateUser = (\<lambda>u s. (Ok u, (u # fst s, snd s))),
     us_ListAPIKeys = (\<lambda>s. Ok (snd s)),
     us_CreateAPIKey = (\<lambda>k s. (Ok k, (fst s, snd s @ [k])))\<rparr>"

definition demo_bcrypt :: Bcrypt where
  "demo_bcrypt = \<lparr>bc_Generate = (\<lambda>salt pw. Ok (CHR ''$'' # pw)), bc_Compare = (\<lambda>h pw. h = CHR ''$'' # pw)\<rparr>"

lemma demo_specs: "bcrypt_spec demo_bcrypt" "user_store demo_user_store" "key_store demo_user_store"
  by (simp_all add: bcrypt_spec_def demo_bcrypt_def user_store_def key_store_def demo_user_store_def find_user_def)

theorem account_round_trip_witness:
  "\<exists>u s' tok. CreateUser demo_user_store demo_bcrypt [] [] ''a@b'' ''pw'' ''A'' False ([], []) = (Ok u, s')
    \<and> Login demo_user_store demo_bcrypt (New_Manager ''key'') (62135596800 * second) ''a@b'' ''pw'' s'
        = Ok (tok, 62135596800 * second + 86400 * second, u)
    \<and> VerifyToken demo_user_store (New_Manager ''key'') tok (62135596900 * second) s' = Ok u
    \<and> VerifyToken demo_user_store (New_Manager ''key'') tok (62135700000 * second) s' = Err ErrTokenExpired"
proof -
  have "\<exists>u s'. CreateUser demo_user_store demo_bcrypt [] [] ''a@b'' ''pw'' ''A'' False ([], []) = (Ok u, s')"
    by (simp add: CreateUser_def hash_and_create_def demo_user_store_def demo_bcrypt_def)
  then obtain u s' where c:
      "CreateUser demo_user_store demo_bcrypt [] [] ''a@b'' ''pw'' ''A'' False ([], []) = (Ok u, s')" by blast
  have t: "time_Unix (62135596800 * second) = 0" "time_Unix (62135596900 * second) = 100"
      "time_Unix (62135700000 * second) = 103200" by (simp_all add: time_Unix_def second_def)
  from account_round_trip [OF demo_specs(1,2) c, of "62135596800 * second" "New_Manager ''key''"]
  obtain tok where
      "Login demo_user_store demo_bcrypt (New_Manager ''key'') (62135596800 * second) ''a@b'' ''pw'' s'
        = Ok (tok, 62135596800 * second + 86400 * second, u)"
    and v: "\<And>later. VerifyToken demo_user_store (New_Manager ''key'') tok later s' =
          (if time_Unix later \<le> 86400 then Ok u else Err ErrTokenExpired)"
    unfolding t by (auto simp: is_i64_def)
  with c show ?thesis by (intro exI [of _ u] exI [of _ s'] exI [of _ tok]) (simp add: v t)
qed

theorem api_key_round_trip_witness:
  "\<exists>ak secret s'. IssueAPIKey demo_user_store (replicate 24 CHR ''r'') [] 1000 ''p'' ''ci'' 0 ([], []) = (Ok (ak, secret), s')
    \<and> AuthAPIKey demo_user_store 1000 secret s' = Ok ak
    \<and> AuthAPIKey demo_user_store 1001 secret s' = Err ErrTokenExpired"
proof -
  have "\<exists>ak secret. IssueAPIKey demo_user_store (replicate 24 CHR ''r'') [] 1000 ''p'' ''ci'' 0 ([], [])
      = (Ok (ak, secret), ([], [ak]))"
    by (simp add: IssueAPIKey_def demo_user_store_def randSecret_def Let_def)
  then obtain ak secret where i: "IssueAPIKey demo_user_store (replicate 24 CHR ''r'') [] 1000 ''p'' ''ci'' 0 ([], [])
      = (Ok (ak, secret), ([], [ak]))" by blast
  have l: "us_ListAPIKeys demo_user_store ([], [ak]) = Ok [ak]" by (simp add: demo_user_store_def)
  have "\<forall>k \<in> set [ak]. ak_Hash k = ak_Hash ak \<longrightarrow> k = ak" by simp
  from api_key_round_trip [OF demo_specs(3) i length_replicate l this] i show ?thesis
    by (intro exI [of _ ak] exI [of _ secret] exI [of _ "([], [ak])"]) (simp add: zero_time_def)
qed

theorem short_secret_panics_witness:
  "AuthAPIKey demo_user_store 0 ''ctlk_ab''
     ([], [\<lparr>ak_ID = ''k'', ak_Name = [], ak_ProjectID = [], ak_Hash = [], ak_Prefix = [], ak_ExpiresAt = 0\<rparr>])
   = Panic ''slice bounds out of range''"
  using short_secret_panics [of "''ab''" demo_user_store
      "([], [\<lparr>ak_ID = ''k'', ak_Name = [], ak_ProjectID = [], ak_Hash = [], ak_Prefix = [], ak_ExpiresAt = 0\<rparr>])"]
  by (simp add: demo_user_store_def)

end
