(* ===== verification/GoHttp.thy ===== *)
theory GoHttp
  imports GoUrl
begin

text \<open>
  What the HTTP front ends share of \<^verbatim>\<open>net/http\<close>: the request as the handlers see it, the response as the
  client gets it, and \<^verbatim>\<open>http.Error\<close>.
\<close>

record Request =
  rq_Method :: string
  rq_Path :: string
  rq_Query :: "(string, string list) gomap"
  rq_Header :: "(string, string list) gomap"
  rq_Cookies :: "(string \<times> string) list"
  rq_Body :: bytes

record Response =
  rp_Code :: nat
  rp_Type :: string
  rp_Body :: bytes

definition eol :: char where
  "eol = CHR 0x0A"

definition http_Error :: "string \<Rightarrow> nat \<Rightarrow> Response" where
  "http_Error msg code = \<lparr>rp_Code = code, rp_Type = ''text/plain; charset=utf-8'', rp_Body = msg @ [eol]\<rparr>"

definition http_NotFound :: Response where
  "http_NotFound = http_Error ''404 page not found'' 404"

end
