(* ===== verification/ApiServer.thy ===== *)
theory ApiServer
  imports Identity GoHttp
begin

text \<open>
  The HTTP API, \<^verbatim>\<open>internal/apis/v1/api.go\<close>: authentication, the verb and the resource of a request, every
  handler, and the routes. A request is what \<^verbatim>\<open>net/http\<close> hands to the multiplexer, with its path clean (the
  multiplexer redirects other paths before it looks at the routes) and no escaped slash in a segment. The resources that only the state
  package describes are a type \<^typ>\<open>'x\<close> with their JSON form as an argument; the requests of this file are
  decoded here. A panic ends the request without a response.
\<close>

section \<open>Replies\<close>

definition writeJSON :: "nat \<Rightarrow> json \<Rightarrow> Response" where
  "writeJSON code v = \<lparr>rp_Code = code, rp_Type = ''application/json'', rp_Body = json_print v @ [eol]\<rparr>"

text \<open>What a request reads of the clock (while the token, then the key is checked, then in the handler) and of the random source.\<close>

record Env =
  ev_TokenNow :: time
  ev_KeyNow :: time
  ev_Now :: time
  ev_Salt :: bytes
  ev_ID :: bytes
  ev_Secret :: bytes

type_synonym 's handler = "Request \<Rightarrow> 's \<Rightarrow> Response outcome \<times> 's"

definition respond :: "Response \<Rightarrow> 's \<Rightarrow> Response outcome \<times> 's" where
  "respond r s = (Ok r, s)"

definition not_allowed :: Response where
  "not_allowed = http_Error ''method not allowed'' 405"

section \<open>Authentication\<close>

definition verbFor :: "string \<Rightarrow> string" where
  "verbFor method =
     (if method = ''GET'' then ''get''
      else if method = ''POST'' then ''create''
      else if method = ''PUT'' then ''update''
      else if method = ''DELETE'' then ''delete''
      else ''get'')"

definition Trim_slashes :: "string \<Rightarrow> string" where
  "Trim_slashes p = rev (dropWhile (\<lambda>c. c = CHR ''/'') (rev (dropWhile (\<lambda>c. c = CHR ''/'') p)))"

definition resourceFor :: "Request \<Rightarrow> string" where
  "resourceFor r =
     (let p = rq_Path r; parts = Split (Trim_slashes p) CHR ''/''
      in if length parts < 3 then p else TrimPrefix p ''/v1/'')"

definition bearer :: "Request \<Rightarrow> string" where
  "bearer r =
     (let a = first_value (rq_Header r) ''Authorization'' in
      if HasPrefix a ''Bearer '' then TrimPrefix a ''Bearer ''
      else case map_of (rq_Cookies r) ''cloud_session'' of Some v \<Rightarrow> v | None \<Rightarrow> [])"

text \<open>The user of a session, or of an API key: a user with the key's identifier and nothing else.\<close>

definition key_user :: "APIKey \<Rightarrow> User" where
  "key_user k =
     \<lparr>u_ID = ak_ID k, u_Name = [], u_Email = [], u_DisplayName = [], u_Admin = False, u_PasswordBcrypt = []\<rparr>"

definition authenticate :: "'s UserStore \<Rightarrow> Manager \<Rightarrow> Env \<Rightarrow> string \<Rightarrow> 's \<Rightarrow> User outcome" where
  "authenticate U M ev tok s =
     (case VerifyToken U M tok (ev_TokenNow ev) s of
        Ok u \<Rightarrow> Ok u
      | Panic m \<Rightarrow> Panic m
      | Err e \<Rightarrow>
          (case AuthAPIKey U (ev_KeyNow ev) tok s of
             Err e2 \<Rightarrow> Err e
           | Panic m \<Rightarrow> Panic m
           | Ok k \<Rightarrow> Ok (key_user k)))"

definition authRequired :: "'s UserStore \<Rightarrow> Manager \<Rightarrow> Env \<Rightarrow> 's handler \<Rightarrow> 's handler" where
  "authRequired U M ev h r s =
     (let tok = bearer r in
      if tok = [] then respond (http_Error ''missing token'' 401) s
      else case authenticate U M ev tok s of
             Panic m \<Rightarrow> (Panic m, s)
           | Err e \<Rightarrow> respond (http_Error (error_text e) 401) s
           | Ok u \<Rightarrow>
               if Authorize (Some u) (verbFor (rq_Method r)) (resourceFor r) \<noteq> Ok ()
               then respond (http_Error ''forbidden'' 403) s
               else h r s)"

section \<open>Bodies\<close>

text \<open>
  \<^verbatim>\<open>readJSON\<close>: one value, with members that no field has refused. The text of the error that the decoder
  reports is the argument \<^verbatim>\<open>jerr\<close>.
\<close>

definition readJSON :: "(bytes \<Rightarrow> string) \<Rightarrow> 'a member_reader \<Rightarrow> 'a \<Rightarrow> bytes \<Rightarrow> 'a outcome" where
  "readJSON jerr member zero body =
     (case read_struct member zero (json_read body) of
        Some x \<Rightarrow> Ok x
      | None \<Rightarrow> Err (ErrorString (jerr body)))"

record loginReq =
  lq_Email :: string
  lq_Password :: string

definition login_member :: "loginReq member_reader" where
  "login_member km acc =
     (case km of (k, x) \<Rightarrow>
        if names_field ''email'' k then read_string (\<lambda>v r. r\<lparr>lq_Email := v\<rparr>) x acc
        else if names_field ''password'' k then read_string (\<lambda>v r. r\<lparr>lq_Password := v\<rparr>) x acc
        else (fst acc, False))"

definition read_login :: "(bytes \<Rightarrow> string) \<Rightarrow> bytes \<Rightarrow> loginReq outcome" where
  "read_login jerr = readJSON jerr login_member \<lparr>lq_Email = [], lq_Password = []\<rparr>"

record userReq =
  uq_Email :: string
  uq_DisplayName :: string
  uq_Password :: string
  uq_Admin :: bool

definition user_member :: "userReq member_reader" where
  "user_member km acc =
     (case km of (k, x) \<Rightarrow>
        if names_field ''email'' k then read_string (\<lambda>v r. r\<lparr>uq_Email := v\<rparr>) x acc
        else if names_field ''display_name'' k then read_string (\<lambda>v r. r\<lparr>uq_DisplayName := v\<rparr>) x acc
        else if names_field ''password'' k then read_string (\<lambda>v r. r\<lparr>uq_Password := v\<rparr>) x acc
        else if names_field ''admin'' k then read_bool (\<lambda>v r. r\<lparr>uq_Admin := v\<rparr>) x acc
        else (fst acc, False))"

definition read_user :: "(bytes \<Rightarrow> string) \<Rightarrow> bytes \<Rightarrow> userReq outcome" where
  "read_user jerr =
     readJSON jerr user_member \<lparr>uq_Email = [], uq_DisplayName = [], uq_Password = [], uq_Admin = False\<rparr>"

record apiKeyReq =
  kq_UserID :: string
  kq_ProjectID :: string
  kq_Name :: string

definition key_member :: "apiKeyReq member_reader" where
  "key_member km acc =
     (case km of (k, x) \<Rightarrow>
        if names_field ''user_id'' k then read_string (\<lambda>v r. r\<lparr>kq_UserID := v\<rparr>) x acc
        else if names_field ''project_id'' k then read_string (\<lambda>v r. r\<lparr>kq_ProjectID := v\<rparr>) x acc
        else if names_field ''name'' k then read_string (\<lambda>v r. r\<lparr>kq_Name := v\<rparr>) x acc
        else (fst acc, False))"

definition read_key :: "(bytes \<Rightarrow> string) \<Rightarrow> bytes \<Rightarrow> apiKeyReq outcome" where
  "read_key jerr = readJSON jerr key_member \<lparr>kq_UserID = [], kq_ProjectID = [], kq_Name = []\<rparr>"

record projectReq =
  pq_ID :: string
  pq_Description :: string
  pq_QuotaCPU :: int
  pq_QuotaMem :: int
  pq_QuotaObj :: int

definition project_member :: "projectReq member_reader" where
  "project_member km acc =
     (case km of (k, x) \<Rightarrow>
        if names_field ''id'' k then read_string (\<lambda>v r. r\<lparr>pq_ID := v\<rparr>) x acc
        else if names_field ''description'' k then read_string (\<lambda>v r. r\<lparr>pq_Description := v\<rparr>) x acc
        else if names_field ''quota_cpu_millicores'' k then read_int64 (\<lambda>v r. r\<lparr>pq_QuotaCPU := v\<rparr>) x acc
        else if names_field ''quota_mem_bytes'' k then read_int64 (\<lambda>v r. r\<lparr>pq_QuotaMem := v\<rparr>) x acc
        else if names_field ''quota_object_bytes'' k then read_int64 (\<lambda>v r. r\<lparr>pq_QuotaObj := v\<rparr>) x acc
        else (fst acc, False))"

definition read_project :: "(bytes \<Rightarrow> string) \<Rightarrow> bytes \<Rightarrow> projectReq outcome" where
  "read_project jerr =
     readJSON jerr project_member
       \<lparr>pq_ID = [], pq_Description = [], pq_QuotaCPU = 0, pq_QuotaMem = 0, pq_QuotaObj = 0\<rparr>"

section \<open>The server\<close>

text \<open>
  A kind of resource of the state package: its store operations (a list takes the project, which buckets
  and alerts do not have), how its struct is read from and written to JSON, and the fields that the
  handlers set.
\<close>

record ('x, 's) resource =
  re_List :: "string \<Rightarrow> 's \<Rightarrow> 'x list outcome"
  re_Create :: "'x \<Rightarrow> 's \<Rightarrow> 'x outcome \<times> 's"
  re_Zero :: 'x
  re_Member :: "'x member_reader"
  re_Error :: "bytes \<Rightarrow> string"
  re_ID :: "'x \<Rightarrow> string"
  re_SetProject :: "string \<Rightarrow> 'x \<Rightarrow> 'x"
  re_SetName :: "string \<Rightarrow> 'x \<Rightarrow> 'x"
  re_JSON :: "'x \<Rightarrow> json"
  re_ListJSON :: "'x list \<Rightarrow> json"

record ('x, 's) Server =
  as_idm :: Manager
  as_Bcrypt :: Bcrypt
  as_Users :: "'s UserStore"
  as_ListUsers :: "'s \<Rightarrow> User list outcome"
  as_ListProjects :: "'s \<Rightarrow> Project list outcome"
  as_CreateProject :: "Project \<Rightarrow> 's \<Rightarrow> Project outcome \<times> 's"
  as_ListNodes :: "'s \<Rightarrow> Node list outcome"
  as_ListModels :: "'s \<Rightarrow> 'x list outcome"
  as_GetObject :: "string \<Rightarrow> string \<Rightarrow> 's \<Rightarrow> 'x outcome"
  as_DeleteObject :: "string \<Rightarrow> string \<Rightarrow> 's \<Rightarrow> unit outcome \<times> 's"
  as_Workloads :: "('x, 's) resource"
  as_Services :: "('x, 's) resource"
  as_Deployments :: "('x, 's) resource"
  as_Networks :: "('x, 's) resource"
  as_Volumes :: "('x, 's) resource"
  as_Secrets :: "('x, 's) resource"
  as_ConfigMaps :: "('x, 's) resource"
  as_Buckets :: "('x, 's) resource"
  as_Alerts :: "('x, 's) resource"
  as_UserJSON :: "User \<Rightarrow> json"
  as_UsersJSON :: "User list \<Rightarrow> json"
  as_KeysJSON :: "APIKey list \<Rightarrow> json"
  as_ProjectJSON :: "Project \<Rightarrow> json"
  as_ProjectsJSON :: "Project list \<Rightarrow> json"
  as_NodesJSON :: "Node list \<Rightarrow> json"
  as_ModelsJSON :: "'x list \<Rightarrow> json"
  as_ObjectJSON :: "'x \<Rightarrow> json"
  as_DecodeError :: "string \<Rightarrow> bytes \<Rightarrow> string"

text \<open>The two ways in which the handlers answer with a list: the error is reported, or discarded.\<close>

definition reply_list :: "('a list \<Rightarrow> json) \<Rightarrow> 'a list outcome \<Rightarrow> 's \<Rightarrow> Response outcome \<times> 's" where
  "reply_list enc r s =
     (case r of
        Err e \<Rightarrow> respond (http_Error (error_text e) 500) s
      | Panic m \<Rightarrow> (Panic m, s)
      | Ok xs \<Rightarrow> respond (writeJSON 200 (enc xs)) s)"

definition reply_nil :: "('a list \<Rightarrow> json) \<Rightarrow> 'a list outcome \<Rightarrow> 's \<Rightarrow> Response outcome \<times> 's" where
  "reply_nil enc r s =
     (case r of Panic m \<Rightarrow> (Panic m, s) | _ \<Rightarrow> respond (writeJSON 200 (enc (or_nil r))) s)"

text \<open>The end of a create request: the error with its code, or the resource as the store left it.\<close>

definition reply_created :: "nat \<Rightarrow> ('a \<Rightarrow> json) \<Rightarrow> 'a outcome \<times> 's \<Rightarrow> Response outcome \<times> 's" where
  "reply_created code enc rs =
     (case rs of
        (Err e, s) \<Rightarrow> respond (http_Error (error_text e) code) s
      | (Panic m, s) \<Rightarrow> (Panic m, s)
      | (Ok x, s) \<Rightarrow> respond (writeJSON 201 (enc x)) s)"

text \<open>A body that cannot be read is answered with its error.\<close>

definition with_body :: "'a outcome \<Rightarrow> ('a \<Rightarrow> 's \<Rightarrow> Response outcome \<times> 's) \<Rightarrow> 's \<Rightarrow> Response outcome \<times> 's" where
  "with_body b k s =
     (case b of
        Err e \<Rightarrow> respond (http_Error (error_text e) 400) s
      | Panic m \<Rightarrow> (Panic m, s)
      | Ok x \<Rightarrow> k x s)"

section \<open>Identity handlers\<close>

definition handleLogin :: "('x, 's) Server \<Rightarrow> Env \<Rightarrow> 's handler" where
  "handleLogin A ev r s =
     (if rq_Method r \<noteq> ''POST'' then respond not_allowed s
      else with_body (read_login (as_DecodeError A ''loginReq'') (rq_Body r))
        (\<lambda>body s.
           case Login (as_Users A) (as_Bcrypt A) (as_idm A) (ev_Now ev) (lq_Email body) (lq_Password body) s of
             Err e \<Rightarrow> respond (http_Error (error_text e) 401) s
           | Panic m \<Rightarrow> (Panic m, s)
           | Ok (tok, _, _) \<Rightarrow> respond (writeJSON 200 (JObject [(''token'', JString tok)])) s) s)"

definition handleUsers :: "('x, 's) Server \<Rightarrow> Env \<Rightarrow> 's handler" where
  "handleUsers A ev r s =
     (if rq_Method r = ''GET'' then reply_list (as_UsersJSON A) (as_ListUsers A s) s
      else if rq_Method r = ''POST'' then
        with_body (read_user (as_DecodeError A ''userReq'') (rq_Body r))
          (\<lambda>body s.
             if uq_Email body = [] \<or> uq_Password body = []
             then respond (http_Error ''email/password required'' 400) s
             else reply_created 400 (as_UserJSON A)
                    (CreateUser (as_Users A) (as_Bcrypt A) (ev_Salt ev) (ev_ID ev) (uq_Email body)
                       (uq_Password body) (uq_DisplayName body) (uq_Admin body) s)) s
      else respond not_allowed s)"

definition handleAPIKeys :: "('x, 's) Server \<Rightarrow> Env \<Rightarrow> 's handler" where
  "handleAPIKeys A ev r s =
     (if rq_Method r = ''GET'' then reply_nil (as_KeysJSON A) (us_ListAPIKeys (as_Users A) s) s
      else if rq_Method r = ''POST'' then
        with_body (read_key (as_DecodeError A ''apiKeyReq'') (rq_Body r))
          (\<lambda>body s.
             reply_created 400
               (\<lambda>(k, secret). JObject [(''id'', JString (ak_ID k)), (''secret'', JString secret)])
               (IssueAPIKey (as_Users A) (ev_Secret ev) (ev_ID ev) (ev_Now ev) (kq_ProjectID body)
                  (kq_Name body) 0 s)) s
      else respond not_allowed s)"

definition handleProjects :: "('x, 's) Server \<Rightarrow> 's handler" where
  "handleProjects A r s =
     (if rq_Method r = ''GET'' then reply_nil (as_ProjectsJSON A) (as_ListProjects A s) s
      else if rq_Method r = ''POST'' then
        with_body (read_project (as_DecodeError A ''projectReq'') (rq_Body r))
          (\<lambda>body s.
             if pq_ID body = [] then respond (http_Error ''id required'' 400) s
             else reply_created 409 (as_ProjectJSON A)
                    (as_CreateProject A
                       \<lparr>p_ID = pq_ID body, p_Name = pq_ID body, p_Description = pq_Description body,
                        p_QuotaCPU = pq_QuotaCPU body, p_QuotaMem = pq_QuotaMem body,
                        p_QuotaObj = pq_QuotaObj body\<rparr> s)) s
      else respond not_allowed s)"

section \<open>Resource handlers\<close>

text \<open>
  The handlers of this section in the source repeat the same statements for each kind of resource. Here
  they are written once: the POST branch, and the handler of a resource that belongs to a project.
\<close>

definition create_resource :: "('x, 's) resource \<Rightarrow> ('x \<Rightarrow> 'x) \<Rightarrow> 's handler" where
  "create_resource R place r s =
     with_body (readJSON (re_Error R) (re_Member R) (re_Zero R) (rq_Body r))
       (\<lambda>x0 s.
          let x = place x0 in
          if re_ID R x = [] then respond (http_Error ''id required'' 400) s
          else reply_created 409 (re_JSON R) (re_Create R (re_SetName R (re_ID R x) x) s)) s"

definition in_project ::
  "('x, 's) resource \<Rightarrow> ('x list outcome \<Rightarrow> 's \<Rightarrow> Response outcome \<times> 's) \<Rightarrow> 's handler" where
  "in_project R reply r s =
     (let projectID = first_value (rq_Query r) ''project_id'' in
      if projectID = [] then respond (http_Error ''project_id required'' 400) s
      else if rq_Method r = ''GET'' then reply (re_List R projectID s) s
      else if rq_Method r = ''POST'' then create_resource R (re_SetProject R projectID) r s
      else respond not_allowed s)"

definition handleWorkloads :: "('x, 's) Server \<Rightarrow> 's handler" where
  "handleWorkloads A = in_project (as_Workloads A) (reply_list (re_ListJSON (as_Workloads A)))"

definition handleServices :: "('x, 's) Server \<Rightarrow> 's handler" where
  "handleServices A = in_project (as_Services A) (reply_nil (re_ListJSON (as_Services A)))"

definition handleDeployments :: "('x, 's) Server \<Rightarrow> 's handler" where
  "handleDeployments A = in_project (as_Deployments A) (reply_nil (re_ListJSON (as_Deployments A)))"

definition handleNetworks :: "('x, 's) Server \<Rightarrow> 's handler" where
  "handleNetworks A = in_project (as_Networks A) (reply_nil (re_ListJSON (as_Networks A)))"

definition handleVolumes :: "('x, 's) Server \<Rightarrow> 's handler" where
  "handleVolumes A = in_project (as_Volumes A) (reply_nil (re_ListJSON (as_Volumes A)))"

definition handleSecrets :: "('x, 's) Server \<Rightarrow> 's handler" where
  "handleSecrets A = in_project (as_Secrets A) (reply_nil (re_ListJSON (as_Secrets A)))"

definition handleConfigMaps :: "('x, 's) Server \<Rightarrow> 's handler" where
  "handleConfigMaps A = in_project (as_ConfigMaps A) (reply_nil (re_ListJSON (as_ConfigMaps A)))"

definition handleNodes :: "('x, 's) Server \<Rightarrow> 's handler" where
  "handleNodes A r s =
     (if rq_Method r = ''GET'' then reply_nil (as_NodesJSON A) (as_ListNodes A s) s
      else respond not_allowed s)"

definition handleBuckets :: "('x, 's) Server \<Rightarrow> 's handler" where
  "handleBuckets A r s =
     (if rq_Method r = ''GET'' then reply_nil (re_ListJSON (as_Buckets A)) (re_List (as_Buckets A) [] s) s
      else if rq_Method r = ''POST'' then create_resource (as_Buckets A) id r s
      else respond not_allowed s)"

definition handleObjects :: "('x, 's) Server \<Rightarrow> 's handler" where
  "handleObjects A r s =
     (case SplitN2 (TrimPrefix (rq_Path r) ''/v1/buckets/'') CHR ''/'' of
        [bucket, key] \<Rightarrow>
          (if rq_Method r = ''GET'' then
             (case as_GetObject A bucket key s of
                Err e \<Rightarrow> respond (http_Error (error_text e) 404) s
              | Panic m \<Rightarrow> (Panic m, s)
              | Ok obj \<Rightarrow> respond (writeJSON 200 (as_ObjectJSON A obj)) s)
           else if rq_Method r = ''DELETE'' then
             (case as_DeleteObject A bucket key s of
                (Err e, s') \<Rightarrow> respond (http_Error (error_text e) 500) s'
              | (Panic m, s') \<Rightarrow> (Panic m, s')
              | (Ok _, s') \<Rightarrow> respond \<lparr>rp_Code = 204, rp_Type = [], rp_Body = []\<rparr> s')
           else respond not_allowed s)
      | _ \<Rightarrow> respond (http_Error ''bucket/key required'' 400) s)"

definition handleMetrics :: "'s handler" where
  "handleMetrics r s =
     (if rq_Method r \<noteq> ''GET'' then respond not_allowed s
      else respond \<lparr>rp_Code = 200, rp_Type = ''text/plain; version=0.0.4'',
                     rp_Body = ''# metrics are exposed by /v1/metrics/exposition'' @ [eol]\<rparr> s)"

definition handleLogs :: "'s handler" where
  "handleLogs r s =
     (if rq_Method r \<noteq> ''GET'' then respond not_allowed s
      else respond \<lparr>rp_Code = 200, rp_Type = ''text/plain; charset=utf-8'', rp_Body = ''[]''\<rparr> s)"

definition handleAlerts :: "('x, 's) Server \<Rightarrow> 's handler" where
  "handleAlerts A r s =
     (if rq_Method r = ''GET'' then reply_nil (re_ListJSON (as_Alerts A)) (re_List (as_Alerts A) [] s) s
      else if rq_Method r = ''POST'' then create_resource (as_Alerts A) id r s
      else respond not_allowed s)"

definition handleModels :: "('x, 's) Server \<Rightarrow> 's handler" where
  "handleModels A r s =
     (if rq_Method r \<noteq> ''GET'' then respond not_allowed s
      else reply_nil (as_ModelsJSON A) (as_ListModels A s) s)"

section \<open>Routes\<close>

definition healthz :: "'s handler" where
  "healthz r s = respond \<lparr>rp_Code = 200, rp_Type = ''text/plain; charset=utf-8'', rp_Body = ''ok''\<rparr> s"

definition not_found :: "'s handler" where
  "not_found r s = respond http_NotFound s"

text \<open>The handlers behind authentication, by their pattern.\<close>

definition guarded :: "('x, 's) Server \<Rightarrow> Env \<Rightarrow> (string \<times> 's handler) list" where
  "guarded A ev =
    [(''/v1/users'', handleUsers A ev),
     (''/v1/apikeys'', handleAPIKeys A ev),
     (''/v1/projects'', handleProjects A),
     (''/v1/workloads'', handleWorkloads A),
     (''/v1/services'', handleServices A),
     (''/v1/deployments'', handleDeployments A),
     (''/v1/networks'', handleNetworks A),
     (''/v1/volumes'', handleVolumes A),
     (''/v1/secrets'', handleSecrets A),
     (''/v1/configmaps'', handleConfigMaps A),
     (''/v1/nodes'', handleNodes A),
     (''/v1/buckets'', handleBuckets A),
     (''/v1/logs'', handleLogs),
     (''/v1/alerts'', handleAlerts A),
     (''/v1/models'', handleModels A)]"

definition Routes :: "('x, 's) Server \<Rightarrow> Env \<Rightarrow> 's handler" where
  "Routes A ev r =
     (let auth = authRequired (as_Users A) (as_idm A) ev in
      if rq_Path r = ''/v1/login'' then handleLogin A ev r
      else if rq_Path r = ''/v1/metrics'' then handleMetrics r
      else if rq_Path r = ''/healthz'' then healthz r
      else case map_of (guarded A ev) (rq_Path r) of
             Some h \<Rightarrow> auth h r
           | None \<Rightarrow> if HasPrefix (rq_Path r) ''/v1/buckets/'' then auth (handleObjects A) r else not_found r)"

section \<open>Who changes the state\<close>

lemma snd_respond [simp]: "snd (respond p s) = s"
  by (simp add: respond_def)

lemma snd_reply_list [simp]: "snd (reply_list enc x s) = s"
  by (simp add: reply_list_def split: outcome.split)

lemma snd_reply_nil [simp]: "snd (reply_nil enc x s) = s"
  by (simp add: reply_nil_def split: outcome.split)

text \<open>A handler that leaves the state alone unless the method is POST or DELETE.\<close>

definition writes_on_demand :: "'s handler \<Rightarrow> bool" where
  "writes_on_demand h \<longleftrightarrow> (\<forall>r s. rq_Method r \<notin> {''POST'', ''DELETE''} \<longrightarrow> snd (h r s) = s)"

lemma writes_in_project:
  "(\<And>x s. snd (reply x s) = s) \<Longrightarrow> writes_on_demand (in_project R reply)"
  by (simp add: writes_on_demand_def in_project_def Let_def)

lemma writes_objects: "writes_on_demand (handleObjects A)"
  by (simp add: writes_on_demand_def handleObjects_def split: list.split outcome.split)

lemma writes_guarded: "map_of (guarded A ev) p = Some h \<Longrightarrow> writes_on_demand h"
  by (drule map_of_SomeD)
     (auto simp: guarded_def handleWorkloads_def handleServices_def handleDeployments_def handleNetworks_def
        handleVolumes_def handleSecrets_def handleConfigMaps_def handleUsers_def handleAPIKeys_def
        handleProjects_def handleNodes_def handleBuckets_def handleLogs_def handleAlerts_def handleModels_def
        writes_on_demand_def in_project_def Let_def)

lemma login_reads: "snd (handleLogin A ev r s) = s"
  by (simp add: handleLogin_def with_body_def split: outcome.split prod.split)

lemma may_write: "Authorize (Some u) verb res = Ok () \<longleftrightarrow> u_Admin u \<or> verb = ''get'' \<or> verb = ''list''"
  by (simp add: Authorize_def RulesFor_def viewer_rules rule_all rule_get rule_list)

lemma auth_write:
  assumes "snd (authRequired U M ev h r s) \<noteq> s" and "writes_on_demand h"
  obtains u where "VerifyToken U M (bearer r) (ev_TokenNow ev) s = Ok u" and "u_Admin u"
    and "rq_Method r \<in> {''POST'', ''DELETE''}"
proof -
  let ?a = "authenticate U M ev (bearer r) s"
  from assms(1) obtain u where a: "?a = Ok u" and z: "Authorize (Some u) (verbFor (rq_Method r)) (resourceFor r) = Ok ()"
    and w: "snd (h r s) \<noteq> s"
    by (auto simp: authRequired_def Let_def split: if_splits outcome.splits)
  from w assms(2) have m: "rq_Method r \<in> {''POST'', ''DELETE''}" by (auto simp: writes_on_demand_def)
  then have "u_Admin u" using z by (auto simp: may_write verbFor_def)
  moreover from this a have "VerifyToken U M (bearer r) (ev_TokenNow ev) s = Ok u"
    by (auto simp: authenticate_def key_user_def split: outcome.splits)
  ultimately show ?thesis using m that by blast
qed

text \<open>
  Property C8. A request changes the state of the store only when its method is POST or DELETE and it
  carries the session token of an administrator: no anonymous request, no user without the administrator
  flag and no API key ever changes anything, whatever the store does.
\<close>

theorem only_administrators_change_state:
  assumes "snd (Routes A ev r s) \<noteq> s"
  shows "\<exists>u. VerifyToken (as_Users A) (as_idm A) (bearer r) (ev_TokenNow ev) s = Ok u \<and> u_Admin u
    \<and> rq_Method r \<in> {''POST'', ''DELETE''}"
proof -
  obtain h where "snd (authRequired (as_Users A) (as_idm A) ev h r s) \<noteq> s" and "writes_on_demand h"
    using assms writes_guarded [of A ev "rq_Path r"] writes_objects [of A]
    by (auto simp: Routes_def Let_def login_reads handleMetrics_def healthz_def not_found_def
        split: if_splits option.splits)
  then obtain u where "VerifyToken (as_Users A) (as_idm A) (bearer r) (ev_TokenNow ev) s = Ok u" and "u_Admin u"
    and "rq_Method r \<in> {''POST'', ''DELETE''}" by (rule auth_write)
  then show ?thesis by (intro exI [of _ u] conjI)
qed

section \<open>Accounts and keys over HTTP\<close>

lemma routes_guarded:
  assumes "map_of (guarded A ev) (rq_Path r) = Some h"
  shows "Routes A ev r = authRequired (as_Users A) (as_idm A) ev h r"
proof -
  have "rq_Path r \<in> fst ` set (guarded A ev)" using assms by (metis map_of_eq_None_iff option.distinct(1))
  then have "rq_Path r \<noteq> ''/v1/login'' \<and> rq_Path r \<noteq> ''/v1/metrics'' \<and> rq_Path r \<noteq> ''/healthz''"
    by (auto simp: guarded_def)
  with assms show ?thesis by (simp add: Routes_def Let_def)
qed

lemma auth_passes:
  assumes "authenticate U M ev (bearer r) s = Ok u" and "bearer r \<noteq> []"
    and "u_Admin u \<or> verbFor (rq_Method r) = ''get''"
  shows "authRequired U M ev h r s = h r s"
  using assms by (auto simp: authRequired_def Let_def may_write)

lemma auth_code:
  assumes "authRequired U M ev h r s = (Ok p, s')" and "rp_Code p < 400"
  shows "h r s = (Ok p, s')"
  using assms by (auto simp: authRequired_def Let_def respond_def http_Error_def split: if_splits outcome.splits)

lemma created_code:
  assumes "reply_created code enc x = (Ok p, s')" and "rp_Code p = 201" and "code \<noteq> 201"
  obtains v where "x = (Ok v, s')" and "p = writeJSON 201 (enc v)"
  using assms by (auto simp: reply_created_def respond_def http_Error_def split: prod.splits outcome.splits)

lemma login_tok_ne: "Login S B M now email pw s = Ok (tok, ex, u) \<Longrightarrow> tok \<noteq> []"
  by (auto simp: Login_def signToken_def Let_def split: outcome.splits if_splits)

text \<open>
  Property C19. The life of an account over HTTP: when a POST to the users is answered with 201, a login
  with the same email and password is answered with a token, and for the next 24 hours every request that
  carries this token and that the user may make (any method for an administrator, reads for the others)
  reaches the handler of its route.
\<close>

theorem http_account_round_trip:
  assumes "bcrypt_spec (as_Bcrypt A)" and "user_store (as_Users A)"
    and "Routes A ev r s = (Ok p, s')" and "rp_Code p = 201"
    and "rq_Path r = ''/v1/users''" and "rq_Method r = ''POST''"
    and "read_user (as_DecodeError A ''userReq'') (rq_Body r) = Ok body"
    and "rq_Path r2 = ''/v1/login''" and "rq_Method r2 = ''POST''"
    and "read_login (as_DecodeError A ''loginReq'') (rq_Body r2)
          = Ok \<lparr>lq_Email = uq_Email body, lq_Password = uq_Password body\<rparr>"
    and "0 \<le> time_Unix (ev_Now ev2)" and "is_i64 (time_Unix (ev_Now ev2) + 86400)"
  shows "\<exists>tok. Routes A ev2 r2 s' = (Ok (writeJSON 200 (JObject [(''token'', JString tok)])), s')
    \<and> (\<forall>ev3 r3 h. bearer r3 = tok \<and> time_Unix (ev_TokenNow ev3) \<le> time_Unix (ev_Now ev2) + 86400
        \<and> (uq_Admin body \<or> verbFor (rq_Method r3) = ''get'')
        \<and> map_of (guarded A ev3) (rq_Path r3) = Some h
        \<longrightarrow> Routes A ev3 r3 s' = h r3 s')"
proof -
  have "map_of (guarded A ev) (rq_Path r) = Some (handleUsers A ev)" by (simp add: guarded_def assms(5))
  with assms(3) have "authRequired (as_Users A) (as_idm A) ev (handleUsers A ev) r s = (Ok p, s')"
    by (simp add: routes_guarded)
  then have "handleUsers A ev r s = (Ok p, s')" by (rule auth_code) (simp add: assms(4))
  then have "reply_created 400 (as_UserJSON A) (CreateUser (as_Users A) (as_Bcrypt A) (ev_Salt ev) (ev_ID ev)
      (uq_Email body) (uq_Password body) (uq_DisplayName body) (uq_Admin body) s) = (Ok p, s')"
    using assms(4) by (auto simp: handleUsers_def assms(6,7) with_body_def respond_def http_Error_def split: if_splits)
  from this assms(4) obtain u where c: "CreateUser (as_Users A) (as_Bcrypt A) (ev_Salt ev) (ev_ID ev)
      (uq_Email body) (uq_Password body) (uq_DisplayName body) (uq_Admin body) s = (Ok u, s')"
    by (rule created_code) simp
  from account_works [OF assms(1,2) this assms(11,12), of "as_idm A"]
  obtain tok where l: "Login (as_Users A) (as_Bcrypt A) (as_idm A) (ev_Now ev2) (uq_Email body) (uq_Password body) s'
        = Ok (tok, ev_Now ev2 + 86400 * second, u)"
    and v: "\<And>later. VerifyToken (as_Users A) (as_idm A) tok later s' =
          (if time_Unix later \<le> time_Unix (ev_Now ev2) + 86400 then Ok u else Err ErrTokenExpired)"
    by (elim exE conjE) blast
  have "Routes A ev2 r2 s' = (Ok (writeJSON 200 (JObject [(''token'', JString tok)])), s')"
    by (simp add: Routes_def Let_def assms(8,9,10) handleLogin_def with_body_def l respond_def)
  moreover have "Routes A ev3 r3 s' = h r3 s'"
    if "bearer r3 = tok \<and> time_Unix (ev_TokenNow ev3) \<le> time_Unix (ev_Now ev2) + 86400
        \<and> (uq_Admin body \<or> verbFor (rq_Method r3) = ''get'')
        \<and> map_of (guarded A ev3) (rq_Path r3) = Some h" for ev3 r3 h
    using that created_user(3) [OF assms(2) c] login_tok_ne [OF l]
    by (simp add: routes_guarded auth_passes [of _ _ _ _ _ u] authenticate_def v)
  ultimately show ?thesis by (intro exI [of _ tok] conjI allI impI)
qed

lemma hex_no_dot: "CHR ''.'' \<notin> set (hex_encode bs)"
proof -
  have "list_all (\<lambda>n. hex_digit n \<noteq> CHR ''.'') [0..<16]" by code_simp
  then have "hex_digit n \<noteq> CHR ''.''" if "n < 16" for n using that by (simp add: list_all_iff)
  moreover have "byte_val b div 16 < 16" for b using byte_val_lt [of b] by linarith
  moreover have "byte_val b mod 16 < 16" for b by simp
  ultimately have "hex_digit (byte_val b div 16) \<noteq> CHR ''.''" "hex_digit (byte_val b mod 16) \<noteq> CHR ''.''" for b
    by blast+
  then show ?thesis by (simp add: hex_encode_def not_sym)
qed

lemma hex_nil: "hex_encode [] = []"
  by (simp add: hex_encode_def)

lemma secret_no_token: "VerifyToken S M (randSecret b) now s = Err ErrTokenMalformed"
  using hex_no_dot [of b] by (simp add: VerifyToken_def randSecret_def SplitN2_no_sep)

text \<open>
  Property C21. The API key that a POST to the keys hands out is useless: the handler issues it with the
  lifetime 0, so at every later instant a request that presents its secret is refused, with the message
  that the token is malformed.
\<close>

theorem issued_api_key_is_refused:
  assumes "key_store (as_Users A)" and "length (ev_Secret ev) = 24" and "ev_Now ev \<noteq> zero_time"
    and "rq_Path r = ''/v1/apikeys''" and "rq_Method r = ''POST''"
    and "Routes A ev r s = (Ok p, s')" and "rp_Code p = 201"
    and "us_ListAPIKeys (as_Users A) s' = Ok keys" and "inj_on ak_Hash (set keys)"
    and "bearer r2 = randSecret (ev_Secret ev)" and "ev_KeyNow ev2 > ev_Now ev"
    and "map_of (guarded A ev2) (rq_Path r2) = Some h"
  shows "(\<exists>i. p = writeJSON 201 (JObject [(''id'', JString i), (''secret'', JString (bearer r2))]))
    \<and> Routes A ev2 r2 s' = (Ok (http_Error ''identity: token malformed'' 401), s')"
proof -
  have "map_of (guarded A ev) (rq_Path r) = Some (handleAPIKeys A ev)" by (simp add: guarded_def assms(4))
  with assms(6) have "authRequired (as_Users A) (as_idm A) ev (handleAPIKeys A ev) r s = (Ok p, s')"
    by (simp add: routes_guarded)
  then have h: "handleAPIKeys A ev r s = (Ok p, s')" by (rule auth_code) (simp add: assms(7))
  let ?enc = "\<lambda>(k, secret). JObject [(''id'', JString (ak_ID k)), (''secret'', JString secret)]"
  obtain body where b: "read_key (as_DecodeError A ''apiKeyReq'') (rq_Body r) = Ok body"
    using h assms(7) that
    by (cases "read_key (as_DecodeError A ''apiKeyReq'') (rq_Body r)")
       (auto simp: handleAPIKeys_def assms(5) with_body_def respond_def http_Error_def)
  with h have "reply_created 400 ?enc (IssueAPIKey (as_Users A) (ev_Secret ev) (ev_ID ev) (ev_Now ev)
      (kq_ProjectID body) (kq_Name body) 0 s) = (Ok p, s')"
    by (simp add: handleAPIKeys_def assms(5) with_body_def)
  then obtain v where "IssueAPIKey (as_Users A) (ev_Secret ev) (ev_ID ev) (ev_Now ev)
      (kq_ProjectID body) (kq_Name body) 0 s = (Ok v, s')" and p: "p = writeJSON 201 (?enc v)"
    using assms(7) by (rule created_code) simp
  then obtain ak secret where v: "v = (ak, secret)" and i: "IssueAPIKey (as_Users A) (ev_Secret ev) (ev_ID ev)
      (ev_Now ev) (kq_ProjectID body) (kq_Name body) 0 s = (Ok (ak, secret), s')" by (cases v) simp
  have sec: "secret = randSecret (ev_Secret ev)"
    using i by (auto simp: IssueAPIKey_def Let_def split: if_splits prod.splits outcome.splits)
  have "AuthAPIKey (as_Users A) (ev_KeyNow ev2) secret s' = Err ErrTokenExpired"
    using issued_key_expired [OF assms(1) i assms(2,8,9)] assms(3,11) by simp
  then have "authenticate (as_Users A) (as_idm A) ev2 (bearer r2) s' = Err ErrTokenMalformed"
    by (simp add: authenticate_def assms(10) secret_no_token sec)
  then have "Routes A ev2 r2 s' = (Ok (http_Error ''identity: token malformed'' 401), s')"
    by (simp add: routes_guarded [OF assms(12)] authRequired_def assms(10) randSecret_def respond_def ErrTokenMalformed_def)
  then show ?thesis using p v sec by (intro conjI exI [of _ "ak_ID ak"]) (simp_all add: assms(10))
qed

section \<open>A concrete server\<close>

text \<open>A server over the store of users and keys of the identity service, with no other resources.\<close>

definition demo_resource :: "(unit, 's) resource" where
  "demo_resource =
    \<lparr>re_List = (\<lambda>_ _. Ok []), re_Create = (\<lambda>_ s. (Err (ErrorString ''read only''), s)), re_Zero = (),
     re_Member = (\<lambda>_ acc. acc), re_Error = (\<lambda>_. ''bad body''), re_ID = (\<lambda>_. []), re_SetProject = (\<lambda>_ x. x),
     re_SetName = (\<lambda>_ x. x), re_JSON = (\<lambda>_. JNull), re_ListJSON = (\<lambda>_. JArray [])\<rparr>"

definition demo_server :: "(unit, demo_users) Server" where
  "demo_server =
    \<lparr>as_idm = New_Manager ''key'', as_Bcrypt = demo_bcrypt, as_Users = demo_user_store,
     as_ListUsers = (\<lambda>s. Ok (fst s)), as_ListProjects = (\<lambda>_. Ok []),
     as_CreateProject = (\<lambda>_ s. (Err (ErrorString ''read only''), s)), as_ListNodes = (\<lambda>_. Ok []),
     as_ListModels = (\<lambda>_. Ok []), as_GetObject = (\<lambda>_ _ _. Err (ErrorString ''not found'')),
     as_DeleteObject = (\<lambda>_ _ s. (Ok (), s)), as_Workloads = demo_resource, as_Services = demo_resource,
     as_Deployments = demo_resource, as_Networks = demo_resource, as_Volumes = demo_resource,
     as_Secrets = demo_resource, as_ConfigMaps = demo_resource, as_Buckets = demo_resource,
     as_Alerts = demo_resource, as_UserJSON = (\<lambda>u. JString (u_ID u)),
     as_UsersJSON = (\<lambda>us. JArray (map (\<lambda>u. JString (u_ID u)) us)),
     as_KeysJSON = (\<lambda>ks. JArray (map (\<lambda>k. JString (ak_ID k)) ks)), as_ProjectJSON = (\<lambda>_. JNull),
     as_ProjectsJSON = (\<lambda>_. JArray []), as_NodesJSON = (\<lambda>_. JArray []), as_ModelsJSON = (\<lambda>_. JArray []),
     as_ObjectJSON = (\<lambda>_. JNull), as_DecodeError = (\<lambda>_ _. ''bad body'')\<rparr>"

definition demo_env :: "int \<Rightarrow> Env" where
  "demo_env t =
    \<lparr>ev_TokenNow = (62135596800 + t) * second, ev_KeyNow = (62135596800 + t) * second,
     ev_Now = (62135596800 + t) * second, ev_Salt = [], ev_ID = [], ev_Secret = replicate 24 CHR ''r''\<rparr>"

definition demo_request :: "string \<Rightarrow> string \<Rightarrow> string \<Rightarrow> json \<Rightarrow> Request" where
  "demo_request method path tok body =
    \<lparr>rq_Method = method, rq_Path = path, rq_Query = [], rq_Header = [(''Authorization'', [''Bearer '' @ tok])],
     rq_Cookies = [], rq_Body = json_print body\<rparr>"

definition demo_root :: User where
  "demo_root = \<lparr>u_ID = ''usr_root'', u_Name = [], u_Email = ''root'', u_DisplayName = [], u_Admin = True,
    u_PasswordBcrypt = ''$pw''\<rparr>"

definition root_token :: string where
  "root_token = (case signToken (New_Manager ''key'') ''usr_root'' (62135683200 * second) of Ok tok \<Rightarrow> tok | _ \<Rightarrow> [])"

lemma bearer_demo [simp]: "bearer (demo_request method path tok body) = tok"
  by (simp add: bearer_def demo_request_def first_value_def mget_def HasPrefix_def TrimPrefix_def Let_def)

lemma root_verifies:
  assumes "t \<le> 86400"
  shows "VerifyToken demo_user_store (New_Manager ''key'') root_token (ev_TokenNow (demo_env t)) ([demo_root], ks) = Ok demo_root"
proof -
  have s: "signToken (New_Manager ''key'') ''usr_root'' (62135683200 * second) = Ok root_token"
    by (simp add: root_token_def signToken_def Let_def)
  have x: "time_Unix (62135683200 * second) = 86400" by (simp add: time_Unix_def second_def)
  have n: "time_Unix (ev_TokenNow (demo_env t)) = t" by (simp add: demo_env_def time_Unix_def second_def)
  have "ascii ''usr_root''" by code_simp
  from verify_sign [OF s this, of demo_user_store "ev_TokenNow (demo_env t)" "([demo_root], ks)"] assms show ?thesis
    by (simp add: x n is_i64_def demo_user_store_def find_user_def demo_root_def)
qed

lemma root_token_ne: "root_token \<noteq> []"
  by (simp add: root_token_def signToken_def Let_def)

lemma root_passes:
  "authRequired demo_user_store (New_Manager ''key'') (demo_env 0) h (demo_request method path root_token body) ([demo_root], ks)
   = h (demo_request method path root_token body) ([demo_root], ks)"
  by (rule auth_passes [of _ _ _ _ _ demo_root])
     (simp_all add: authenticate_def root_verifies root_token_ne, simp add: demo_root_def)

definition post_user :: Request where
  "post_user = demo_request ''POST'' ''/v1/users'' root_token
     (JObject [(''email'', JString ''a@b''), (''password'', JString ''pw'')])"

definition post_login :: Request where
  "post_login = demo_request ''POST'' ''/v1/login'' []
     (JObject [(''email'', JString ''a@b''), (''password'', JString ''pw'')])"

definition demo_user :: User where
  "demo_user = \<lparr>u_ID = ''usr_'', u_Name = [], u_Email = ''a@b'', u_DisplayName = [], u_Admin = False,
    u_PasswordBcrypt = ''$pw''\<rparr>"

lemma demo_bodies:
  "read_user e (rq_Body post_user) = Ok \<lparr>uq_Email = ''a@b'', uq_DisplayName = [], uq_Password = ''pw'', uq_Admin = False\<rparr>"
  "read_login e (rq_Body post_login) = Ok \<lparr>lq_Email = ''a@b'', lq_Password = ''pw''\<rparr>"
proof -
  let ?j = "JObject [(''email'', JString ''a@b''), (''password'', JString ''pw'')]"
  have "json_wf ?j" by code_simp
  then have j: "json_read (json_print ?j) = Some ?j" by (intro json_read_parse json_parse_print)
  have n: "names_field ''email'' ''email''" "\<not> names_field ''email'' ''password''"
      "names_field ''password'' ''password''" "\<not> names_field ''display_name'' ''password''" by code_simp+
  show "read_user e (rq_Body post_user) = Ok \<lparr>uq_Email = ''a@b'', uq_DisplayName = [], uq_Password = ''pw'', uq_Admin = False\<rparr>"
    by (simp add: read_user_def readJSON_def post_user_def demo_request_def j read_struct_def user_member_def n read_string_def del: json_print.simps)
  show "read_login e (rq_Body post_login) = Ok \<lparr>lq_Email = ''a@b'', lq_Password = ''pw''\<rparr>"
    by (simp add: read_login_def readJSON_def post_login_def demo_request_def j read_struct_def login_member_def n read_string_def del: json_print.simps)
qed

lemma demo_created:
  "Routes demo_server (demo_env 0) post_user ([demo_root], [])
   = (Ok (writeJSON 201 (JString ''usr_'')), ([demo_user, demo_root], []))"
proof -
  have "map_of (guarded demo_server (demo_env 0)) (rq_Path post_user) = Some (handleUsers demo_server (demo_env 0))"
    by (simp add: guarded_def post_user_def demo_request_def)
  then have "Routes demo_server (demo_env 0) post_user ([demo_root], [])
      = handleUsers demo_server (demo_env 0) post_user ([demo_root], [])"
    by (simp add: routes_guarded demo_server_def root_passes post_user_def)
  moreover have "rq_Method post_user = ''POST''" by (simp add: post_user_def demo_request_def)
  ultimately show ?thesis
    by (simp add: handleUsers_def with_body_def demo_bodies reply_created_def CreateUser_def hash_and_create_def
        demo_server_def demo_bcrypt_def demo_user_store_def demo_env_def randID_def hex_nil respond_def demo_user_def)
qed

theorem only_administrators_change_state_witness:
  "snd (Routes demo_server (demo_env 0) post_user ([demo_root], [])) \<noteq> ([demo_root], [])
   \<and> (\<exists>u. VerifyToken demo_user_store (New_Manager ''key'') root_token (ev_TokenNow (demo_env 0)) ([demo_root], []) = Ok u
        \<and> u_Admin u)"
proof -
  have n: "snd (Routes demo_server (demo_env 0) post_user ([demo_root], [])) \<noteq> ([demo_root], [])"
    by (simp add: demo_created)
  then have "\<exists>u. VerifyToken (as_Users demo_server) (as_idm demo_server) (bearer post_user) (ev_TokenNow (demo_env 0))
      ([demo_root], []) = Ok u \<and> u_Admin u \<and> rq_Method post_user \<in> {''POST'', ''DELETE''}"
    by (rule only_administrators_change_state)
  with n show ?thesis by (auto simp: demo_server_def post_user_def)
qed

theorem http_account_round_trip_witness:
  "\<exists>tok. Routes demo_server (demo_env 60) post_login ([demo_user, demo_root], [])
        = (Ok (writeJSON 200 (JObject [(''token'', JString tok)])), ([demo_user, demo_root], []))
    \<and> Routes demo_server (demo_env 3600) (demo_request ''GET'' ''/v1/models'' tok JNull) ([demo_user, demo_root], [])
        = (Ok (writeJSON 200 (JArray [])), ([demo_user, demo_root], []))"
proof -
  let ?s = "([demo_user, demo_root], [])"
  have t: "time_Unix (ev_Now (demo_env t)) = t" "time_Unix (ev_TokenNow (demo_env t)) = t" for t
    by (simp_all add: demo_env_def time_Unix_def second_def)
  have sp: "bcrypt_spec (as_Bcrypt demo_server)" "user_store (as_Users demo_server)"
    by (simp_all add: demo_server_def demo_specs)
  have q: "rp_Code (writeJSON 201 (JString ''usr_'')) = 201" "rq_Path post_user = ''/v1/users''"
      "rq_Method post_user = ''POST''" "rq_Path post_login = ''/v1/login''" "rq_Method post_login = ''POST''"
    by (simp_all add: writeJSON_def post_user_def post_login_def demo_request_def)
  have m: "0 \<le> time_Unix (ev_Now (demo_env 60))" "is_i64 (time_Unix (ev_Now (demo_env 60)) + 86400)"
    by (simp_all add: t is_i64_def)
  have b: "read_login e (rq_Body post_login)
      = Ok \<lparr>lq_Email = uq_Email \<lparr>uq_Email = ''a@b'', uq_DisplayName = [], uq_Password = ''pw'', uq_Admin = False\<rparr>,
             lq_Password = uq_Password \<lparr>uq_Email = ''a@b'', uq_DisplayName = [], uq_Password = ''pw'', uq_Admin = False\<rparr>\<rparr>" for e
    by (simp add: demo_bodies)
  from http_account_round_trip [OF sp demo_created q(1-3) demo_bodies(1) q(4,5) b m]
  obtain tok where l: "Routes demo_server (demo_env 60) post_login ?s
        = (Ok (writeJSON 200 (JObject [(''token'', JString tok)])), ?s)"
    and k: "\<And>ev3 r3 h. bearer r3 = tok \<and> time_Unix (ev_TokenNow ev3) \<le> 86460
        \<and> verbFor (rq_Method r3) = ''get'' \<and> map_of (guarded demo_server ev3) (rq_Path r3) = Some h
        \<Longrightarrow> Routes demo_server ev3 r3 ?s = h r3 ?s"
    by (elim exE conjE) (simp add: t)
  have "Routes demo_server (demo_env 3600) (demo_request ''GET'' ''/v1/models'' tok JNull) ?s
      = handleModels demo_server (demo_request ''GET'' ''/v1/models'' tok JNull) ?s"
    by (rule k) (simp add: t, simp add: demo_request_def verbFor_def guarded_def)
  also have "\<dots> = (Ok (writeJSON 200 (JArray [])), ?s)"
    by (simp add: handleModels_def demo_request_def demo_server_def reply_nil_def or_nil_def respond_def)
  finally show ?thesis using l by (intro exI [of _ tok] conjI)
qed

definition post_key :: Request where
  "post_key = demo_request ''POST'' ''/v1/apikeys'' root_token JNull"

lemma demo_key:
  "\<exists>ak. Routes demo_server (demo_env 0) post_key ([demo_root], [])
     = (Ok (writeJSON 201 (JObject [(''id'', JString ''key_''), (''secret'', JString (randSecret (replicate 24 CHR ''r'')))])),
        ([demo_root], [ak]))"
proof -
  have "map_of (guarded demo_server (demo_env 0)) (rq_Path post_key) = Some (handleAPIKeys demo_server (demo_env 0))"
    by (simp add: guarded_def post_key_def demo_request_def)
  then have "Routes demo_server (demo_env 0) post_key ([demo_root], [])
      = handleAPIKeys demo_server (demo_env 0) post_key ([demo_root], [])"
    by (simp add: routes_guarded demo_server_def root_passes post_key_def)
  moreover have "json_read (json_print JNull) = Some JNull" by (intro json_read_parse json_parse_print) simp
  then have "json_read (rq_Body post_key) = Some JNull" "rq_Method post_key = ''POST''"
    by (simp_all add: post_key_def demo_request_def)
  then have "handleAPIKeys demo_server (demo_env 0) post_key ([demo_root], [])
     = (Ok (writeJSON 201 (JObject [(''id'', JString ''key_''), (''secret'', JString (randSecret (replicate 24 CHR ''r'')))])),
        ([demo_root], [\<lparr>ak_ID = ''key_'', ak_Name = [], ak_ProjectID = [],
          ak_Hash = hex_encode (sha256 (randSecret (replicate 24 CHR ''r''))),
          ak_Prefix = take 8 (randSecret (replicate 24 CHR ''r'')), ak_ExpiresAt = ev_Now (demo_env 0)\<rparr>]))"
    by (simp add: handleAPIKeys_def with_body_def read_key_def readJSON_def read_struct_def reply_created_def
        IssueAPIKey_def Let_def randID_def demo_server_def demo_user_store_def demo_env_def respond_def)
       (simp add: randSecret_def hex_nil)
  ultimately show ?thesis by simp
qed

theorem issued_api_key_is_refused_witness:
  "\<exists>p s'. Routes demo_server (demo_env 0) post_key ([demo_root], []) = (Ok p, s') \<and> rp_Code p = 201
    \<and> Routes demo_server (demo_env 1)
        (demo_request ''GET'' ''/v1/models'' (randSecret (replicate 24 CHR ''r'')) JNull) s'
      = (Ok (http_Error ''identity: token malformed'' 401), s')"
proof -
  obtain ak p where c: "Routes demo_server (demo_env 0) post_key ([demo_root], []) = (Ok p, ([demo_root], [ak]))"
    and p: "rp_Code p = 201"
    using demo_key by (auto simp: writeJSON_def)
  let ?r = "demo_request ''GET'' ''/v1/models'' (randSecret (replicate 24 CHR ''r'')) JNull"
  have sp: "key_store (as_Users demo_server)" by (simp add: demo_server_def demo_specs)
  have l: "us_ListAPIKeys (as_Users demo_server) ([demo_root], [ak]) = Ok [ak]"
    by (simp add: demo_server_def demo_user_store_def)
  have e: "length (ev_Secret (demo_env 0)) = 24" "ev_Now (demo_env 0) \<noteq> zero_time"
      "ev_KeyNow (demo_env 1) > ev_Now (demo_env 0)"
    by (simp_all add: demo_env_def second_def zero_time_def)
  have q: "rq_Path post_key = ''/v1/apikeys''" "rq_Method post_key = ''POST''"
    by (simp_all add: post_key_def demo_request_def)
  have b: "bearer ?r = randSecret (ev_Secret (demo_env 0))" by (simp add: demo_env_def)
  have g: "map_of (guarded demo_server (demo_env 1)) (rq_Path ?r) = Some (handleModels demo_server)"
    by (simp add: guarded_def demo_request_def)
  have "inj_on ak_Hash (set [ak])" by simp
  from issued_api_key_is_refused [OF sp e(1,2) q c p l this b e(3) g]
  have "Routes demo_server (demo_env 1) ?r ([demo_root], [ak])
      = (Ok (http_Error ''identity: token malformed'' 401), ([demo_root], [ak]))" by (rule conjunct2)
  with c p show ?thesis by (intro exI [of _ p] exI [of _ "([demo_root], [ak])"] conjI)
qed

end
