(* ===== verification/Sdk.thy ===== *)
theory Sdk
  imports ApiServer
begin

text \<open>
  The Go client, \<^verbatim>\<open>pkg/sdk/go/client.go\<close>. The HTTP transport (building a request for a URL and sending it) is
  an argument that gets the method, the URL, the headers and the body; the caller's target of a decoded
  reply is a decoder. The last section connects the client to the API server.
\<close>

section \<open>The client\<close>

record Client =
  cl_BaseURL :: string
  cl_Token :: string

type_synonym headers = "(string, string list) gomap"
type_synonym 's transport = "string \<Rightarrow> string \<Rightarrow> headers \<Rightarrow> bytes \<Rightarrow> 's \<Rightarrow> Response outcome \<times> 's"

definition New_Client :: "string \<Rightarrow> Client" where
  "New_Client baseURL = \<lparr>cl_BaseURL = baseURL, cl_Token = []\<rparr>"

definition json_content :: headers where
  "json_content = [(''Content-Type'', [''application/json''])]"

text \<open>A Go map as JSON: the members in the order of their names.\<close>

definition map_object :: "(string, json) gomap \<Rightarrow> json" where
  "map_object m = JObject (sort_key fst m)"

definition token_of :: "bytes \<Rightarrow> string option" where
  "token_of body =
     map_option (\<lambda>m. case mget m ''token'' of Some t \<Rightarrow> t | None \<Rightarrow> []) (read_struct map_member [] (json_read body))"

definition Login_client ::
  "'s transport \<Rightarrow> (bytes \<Rightarrow> string) \<Rightarrow> string \<Rightarrow> string \<Rightarrow> Client \<Rightarrow> 's \<Rightarrow> string outcome \<times> Client \<times> 's" where
  "Login_client http jerr email password c s =
     (let body = json_print (map_object [(''email'', JString email), (''password'', JString password)])
      in case http ''POST'' (cl_BaseURL c @ ''/v1/login'') json_content body s of
           (Err e, s') \<Rightarrow> (Err e, c, s')
         | (Panic p, s') \<Rightarrow> (Panic p, c, s')
         | (Ok resp, s') \<Rightarrow>
             if rp_Code resp \<noteq> 200 then (Err (ErrorString (''login: '' @ rp_Body resp)), c, s')
             else case token_of (rp_Body resp) of
                    None \<Rightarrow> (Err (ErrorString (jerr (rp_Body resp))), c, s')
                  | Some t \<Rightarrow> (Ok t, c\<lparr>cl_Token := t\<rparr>, s'))"

text \<open>What \<^verbatim>\<open>do\<close> makes of the reply; without a target for the reply the decoder is absent.\<close>

definition finish_do :: "string \<Rightarrow> string \<Rightarrow> (bytes \<Rightarrow> 'o outcome) option \<Rightarrow> Response outcome \<times> 's \<Rightarrow> 'o option outcome \<times> 's" where
  "finish_do verb path dec rs =
     (case rs of
        (Err e, s) \<Rightarrow> (Err e, s)
      | (Panic p, s) \<Rightarrow> (Panic p, s)
      | (Ok resp, s) \<Rightarrow>
          if rp_Code resp \<ge> 400
          then (Err (ErrorString (verb @ '' '' @ path @ '': '' @ digits (rp_Code resp) @ '' '' @ rp_Body resp)), s)
          else case dec of
                 None \<Rightarrow> (Ok None, s)
               | Some d \<Rightarrow>
                   (case d (rp_Body resp) of Ok x \<Rightarrow> (Ok (Some x), s) | Err e \<Rightarrow> (Err e, s) | Panic p \<Rightarrow> (Panic p, s)))"

definition do_headers :: "Client \<Rightarrow> json option \<Rightarrow> headers" where
  "do_headers c body =
     (if cl_Token c \<noteq> [] then [(''Authorization'', [''Bearer '' @ cl_Token c])] else [])
     @ (if body \<noteq> None then json_content else [])"

definition client_do ::
  "'s transport \<Rightarrow> Client \<Rightarrow> string \<Rightarrow> string \<Rightarrow> json option \<Rightarrow> (bytes \<Rightarrow> 'o outcome) option \<Rightarrow> 's \<Rightarrow> 'o option outcome \<times> 's" where
  "client_do http c verb path body dec s =
     finish_do verb path dec
       (http verb (cl_BaseURL c @ path) (do_headers c body) (case body of Some j \<Rightarrow> json_print j | None \<Rightarrow> []) s)"

definition CreateProject :: "'s transport \<Rightarrow> Client \<Rightarrow> string \<Rightarrow> string \<Rightarrow> 's \<Rightarrow> unit option outcome \<times> 's" where
  "CreateProject http c i desc =
     client_do http c ''POST'' ''/v1/projects'' (Some (map_object [(''id'', JString i), (''description'', JString desc)])) None"

definition CreateWorkload :: "'s transport \<Rightarrow> Client \<Rightarrow> string \<Rightarrow> (string, json) gomap \<Rightarrow> 's \<Rightarrow> unit option outcome \<times> 's" where
  "CreateWorkload http c projectID w s =
     (case mget w ''id'' of
        None \<Rightarrow> (Err (ErrorString ''sdk: workload id required''), s)
      | Some JNull \<Rightarrow> (Err (ErrorString ''sdk: workload id required''), s)
      | Some _ \<Rightarrow> client_do http c ''POST'' (''/v1/workloads?project_id='' @ projectID) (Some (map_object w)) None s)"

definition ListWorkloads :: "'s transport \<Rightarrow> Client \<Rightarrow> string \<Rightarrow> (bytes \<Rightarrow> 'o outcome) \<Rightarrow> 's \<Rightarrow> 'o option outcome \<times> 's" where
  "ListWorkloads http c projectID dec = client_do http c ''GET'' (''/v1/workloads?project_id='' @ projectID) None (Some dec)"

definition CreateBucket :: "'s transport \<Rightarrow> Client \<Rightarrow> string \<Rightarrow> 's \<Rightarrow> unit option outcome \<times> 's" where
  "CreateBucket http c i = client_do http c ''POST'' ''/v1/buckets'' (Some (map_object [(''id'', JString i)])) None"

text \<open>Chat sends no token and does not look at the status of the reply.\<close>

definition Chat :: "'s transport \<Rightarrow> Client \<Rightarrow> string \<Rightarrow> string \<Rightarrow> (bytes \<Rightarrow> 'o outcome) option \<Rightarrow> 's \<Rightarrow> 'o option outcome \<times> 's" where
  "Chat http c model prompt dec s =
     (let body = map_object
            [(''model'', JString model),
             (''messages'', JArray [map_object [(''role'', JString ''user''), (''content'', JString prompt)]])]
      in case http ''POST'' (cl_BaseURL c @ ''/v1/chat/completions'') json_content (json_print body) s of
           (Err e, s') \<Rightarrow> (Err e, s')
         | (Panic p, s') \<Rightarrow> (Panic p, s')
         | (Ok resp, s') \<Rightarrow>
             (case dec of
                None \<Rightarrow> (Ok None, s')
              | Some d \<Rightarrow>
                  (case d (rp_Body resp) of Ok x \<Rightarrow> (Ok (Some x), s') | Err e \<Rightarrow> (Err e, s') | Panic p \<Rightarrow> (Panic p, s'))))"

section \<open>Client and server\<close>

text \<open>
  The connection of a client to the API server at a base URL: the rest of the URL is the path and the query;
  a handler that panics closes the connection.
\<close>

definition received :: "string \<Rightarrow> string \<Rightarrow> string \<Rightarrow> headers \<Rightarrow> bytes \<Rightarrow> Request" where
  "received base verb url hs body =
     (let pq = SplitN2 (TrimPrefix url base) CHR ''?''
      in \<lparr>rq_Method = verb, rq_Path = hd pq, rq_Query = (if length pq = 2 then fst (ParseQuery (pq ! 1)) else []),
          rq_Header = hs, rq_Cookies = [], rq_Body = body\<rparr>)"

definition hang_up :: "Response outcome \<times> 's \<Rightarrow> Response outcome \<times> 's" where
  "hang_up rs = (case rs of (Panic p, s) \<Rightarrow> (Err (ErrorString ''EOF''), s) | _ \<Rightarrow> rs)"

definition connect :: "('x, 's) Server \<Rightarrow> Env \<Rightarrow> string \<Rightarrow> 's transport" where
  "connect A ev base verb url hs body s = hang_up (Routes A ev (received base verb url hs body) s)"

lemma received_plain:
  assumes "CHR ''?'' \<notin> set path"
  shows "received base verb (base @ path) hs body
    = \<lparr>rq_Method = verb, rq_Path = path, rq_Query = [], rq_Header = hs, rq_Cookies = [], rq_Body = body\<rparr>"
  using assms by (simp add: received_def TrimPrefix_def HasPrefix_def SplitN2_no_sep)

lemma bearer_do:
  assumes "cl_Token c \<noteq> []"
  shows "bearer (received base verb url (do_headers c body) b) = cl_Token c"
  using assms
  by (simp add: bearer_def received_def do_headers_def first_value_def mget_def HasPrefix_def TrimPrefix_def Let_def)

lemma login_read:
  assumes "ascii email" and "ascii password"
  shows "read_login e (json_print (map_object [(''email'', JString email), (''password'', JString password)]))
    = Ok \<lparr>lq_Email = email, lq_Password = password\<rparr>"
proof -
  let ?j = "JObject [(''email'', JString email), (''password'', JString password)]"
  have o: "map_object [(''email'', JString email), (''password'', JString password)] = ?j" by (simp add: map_object_def)
  have "ascii ''email''" "ascii ''password''" by (simp_all add: ascii_def byte_val_def)
  then have "json_wf ?j" using assms by simp
  then have j: "json_read (json_print ?j) = Some ?j" by (intro json_read_parse json_parse_print)
  have n: "names_field ''email'' ''email''" "\<not> names_field ''email'' ''password''" "names_field ''password'' ''password''"
    by code_simp+
  show ?thesis
    by (simp add: o read_login_def readJSON_def j read_struct_def login_member_def n read_string_def del: json_print.simps)
qed

lemma token_reply:
  assumes "ascii tok"
  shows "token_of (rp_Body (writeJSON 200 (JObject [(''token'', JString tok)]))) = Some tok"
proof -
  let ?j = "JObject [(''token'', JString tok)]"
  have "ascii ''token''" by (simp add: ascii_def byte_val_def)
  then have "json_read (json_print ?j @ [CHR 0x0A]) = Some ?j" using assms by (intro json_read_line) simp
  then show ?thesis
    by (simp add: token_of_def writeJSON_def eol_def read_struct_def map_member_def del: json_print.simps)
qed

lemma ascii_b64: "ascii (b64_encode bs)"
proof -
  have "byte_val (b64_char n) < 128" if "n < 64" for n using that by (auto simp: b64_char_def)
  with b64_sextets_lt [OF byte_vals_lt [of bs]] show ?thesis by (simp add: ascii_def b64_encode_def list_all_iff)
qed

lemma ascii_login: "Login S B M now email pw s = Ok (tok, ex, u) \<Longrightarrow> ascii tok"
  using ascii_b64
  by (auto simp: Login_def signToken_def Let_def ascii_def byte_val_def split: outcome.splits if_splits)

text \<open>
  A session of the client with the API server: for an account that exists, the client's login
  returns the token of the server and keeps it, and for the next 24 hours every call of the client on a
  guarded path reaches the handler of that path and returns what it answers (an answer of 400 or more as an
  error), for an administrator with every method and for other users with the reading ones.
\<close>

theorem sdk_session:
  assumes "bcrypt_spec (as_Bcrypt A)" and "user_store (as_Users A)"
    and "CreateUser (as_Users A) (as_Bcrypt A) salt rnd email pw name admin s0 = (Ok u, s)"
    and "ascii email" and "ascii pw"
    and "0 \<le> time_Unix (ev_Now ev)" and "is_i64 (time_Unix (ev_Now ev) + 86400)"
  shows "\<exists>tok c. Login_client (connect A ev base) jerr email pw (New_Client base) s = (Ok tok, c, s) \<and> cl_Token c = tok
    \<and> (\<forall>ev2 verb path body h (dec :: (bytes \<Rightarrow> 'o outcome) option).
         CHR ''?'' \<notin> set path \<and> time_Unix (ev_TokenNow ev2) \<le> time_Unix (ev_Now ev) + 86400
         \<and> (admin \<or> verbFor verb = ''get'') \<and> map_of (guarded A ev2) path = Some h
         \<longrightarrow> client_do (connect A ev2 base) c verb path body dec s
             = finish_do verb path dec (hang_up (h (received base verb (base @ path) (do_headers c body)
                 (case body of Some j \<Rightarrow> json_print j | None \<Rightarrow> [])) s)))"
proof -
  from account_works [OF assms(1-3,6,7), of "as_idm A"]
  obtain tok where l: "Login (as_Users A) (as_Bcrypt A) (as_idm A) (ev_Now ev) email pw s
        = Ok (tok, ev_Now ev + 86400 * second, u)"
    and v: "\<And>later. VerifyToken (as_Users A) (as_idm A) tok later s =
          (if time_Unix later \<le> time_Unix (ev_Now ev) + 86400 then Ok u else Err ErrTokenExpired)"
    by (elim exE conjE) blast
  define c where "c = \<lparr>cl_BaseURL = base, cl_Token = tok\<rparr>"
  let ?body = "json_print (map_object [(''email'', JString email), (''password'', JString pw)])"
  have "connect A ev base ''POST'' (base @ ''/v1/login'') json_content ?body s
      = (Ok (writeJSON 200 (JObject [(''token'', JString tok)])), s)"
    by (simp add: connect_def received_plain Routes_def Let_def handleLogin_def with_body_def
        login_read [OF assms(4,5)] l respond_def hang_up_def)
  then have "Login_client (connect A ev base) jerr email pw (New_Client base) s = (Ok tok, c, s)"
    using token_reply [OF ascii_login [OF l]]
    by (simp add: Login_client_def New_Client_def c_def Let_def) (simp add: writeJSON_def)
  moreover have "Routes A ev2 (received base verb (base @ path) (do_headers c body) b) s
      = h (received base verb (base @ path) (do_headers c body) b) s"
    if "CHR ''?'' \<notin> set path \<and> time_Unix (ev_TokenNow ev2) \<le> time_Unix (ev_Now ev) + 86400
         \<and> (admin \<or> verbFor verb = ''get'') \<and> map_of (guarded A ev2) path = Some h" for ev2 verb path body b h
  proof -
    let ?r = "received base verb (base @ path) (do_headers c body) b"
    have r: "rq_Path ?r = path" "rq_Method ?r = verb" using that by (simp_all add: received_plain)
    have t: "bearer ?r = tok" using login_tok_ne [OF l] by (simp add: bearer_do c_def)
    from that created_user(3) [OF assms(2,3)] login_tok_ne [OF l] show ?thesis
      by (simp add: routes_guarded r t auth_passes [of _ _ _ _ _ u] authenticate_def v)
  qed
  moreover have "cl_Token c = tok" "cl_BaseURL c = base" by (simp_all add: c_def)
  ultimately show ?thesis
    by (intro exI [of _ tok] exI [of _ c] conjI allI impI) (simp_all add: client_do_def connect_def)
qed

theorem sdk_session_witness:
  "\<exists>tok c. Login_client (connect demo_server (demo_env 60) ''http://api'') (\<lambda>_. []) ''a@b'' ''pw''
        (New_Client ''http://api'') ([demo_user, demo_root], []) = (Ok tok, c, ([demo_user, demo_root], []))
    \<and> client_do (connect demo_server (demo_env 3600) ''http://api'') c ''GET'' ''/v1/models'' None (Some Ok)
        ([demo_user, demo_root], []) = (Ok (Some (''[]'' @ [eol])), ([demo_user, demo_root], []))"
proof -
  let ?s = "([demo_user, demo_root], [])" and ?e = "demo_env 3600"
  have t: "time_Unix (ev_Now (demo_env t)) = t" "time_Unix (ev_TokenNow (demo_env t)) = t" for t
    by (simp_all add: demo_env_def time_Unix_def second_def)
  have sp: "bcrypt_spec (as_Bcrypt demo_server)" "user_store (as_Users demo_server)"
    by (simp_all add: demo_server_def demo_specs)
  have cu: "CreateUser (as_Users demo_server) (as_Bcrypt demo_server) [] [] ''a@b'' ''pw'' [] False ([demo_root], [])
      = (Ok demo_user, ?s)"
    by (simp add: CreateUser_def hash_and_create_def demo_server_def demo_bcrypt_def demo_user_store_def randID_def
        hex_nil demo_user_def)
  have a: "ascii ''a@b''" "ascii ''pw''" by (simp_all add: ascii_def byte_val_def)
  have m: "0 \<le> time_Unix (ev_Now (demo_env 60))" "is_i64 (time_Unix (ev_Now (demo_env 60)) + 86400)"
    by (simp_all add: t is_i64_def)
  from sdk_session [OF sp cu a m, of "''http://api''" "\<lambda>_. []"] obtain tok c where
    l: "Login_client (connect demo_server (demo_env 60) ''http://api'') (\<lambda>_. []) ''a@b'' ''pw'' (New_Client ''http://api'') ?s
        = (Ok tok, c, ?s)"
    and k: "\<And>h (dec :: (bytes \<Rightarrow> bytes outcome) option). CHR ''?'' \<notin> set ''/v1/models'' \<and> time_Unix (ev_TokenNow ?e) \<le> time_Unix (ev_Now (demo_env 60)) + 86400
         \<and> (False \<or> verbFor ''GET'' = ''get'') \<and> map_of (guarded demo_server ?e) ''/v1/models'' = Some h
         \<Longrightarrow> client_do (connect demo_server ?e ''http://api'') c ''GET'' ''/v1/models'' None dec ?s
             = finish_do ''GET'' ''/v1/models'' dec (hang_up (h (received ''http://api'' ''GET'' (''http://api'' @ ''/v1/models'')
                 (do_headers c None) (case None of Some j \<Rightarrow> json_print j | None \<Rightarrow> [])) ?s))"
    by (elim exE conjE) blast
  have g: "map_of (guarded demo_server ?e) ''/v1/models'' = Some (handleModels demo_server)" by (simp add: guarded_def)
  have h: "handleModels demo_server r ?s = (Ok (writeJSON 200 (JArray [])), ?s)" if "rq_Method r = ''GET''" for r
    using that by (simp add: handleModels_def demo_server_def reply_nil_def or_nil_def respond_def)
  have "client_do (connect demo_server ?e ''http://api'') c ''GET'' ''/v1/models'' None (Some Ok) ?s
      = (Ok (Some (''[]'' @ [eol])), ?s)"
    by (subst k [of "handleModels demo_server"])
       (simp_all add: t verbFor_def g received_def Let_def h finish_do_def hang_up_def writeJSON_def)
  with l show ?thesis by blast
qed

end
