(* ===== verification/GoFlag.thy ===== *)
theory GoFlag
  imports GoScan
begin

text \<open>
  The package \<^verbatim>\<open>flag\<close>: a flag set with its flags and their values, and \<^verbatim>\<open>Parse\<close>, which reads flags up to the
  first argument that is none. The messages that the package prints are not part of the model.
\<close>

datatype flag_value = FString string | FBool bool | FInt int

record FlagSet =
  fs_formal :: "(string, flag_value) gomap"
  fs_args :: "string list"

definition NewFlagSet :: "(string, flag_value) gomap \<Rightarrow> FlagSet" where
  "NewFlagSet formal = \<lparr>fs_formal = formal, fs_args = []\<rparr>"

text \<open>\<^verbatim>\<open>strconv.ParseInt\<close> for 64 bits with a base taken from the prefix, and \<^verbatim>\<open>strconv.ParseBool\<close>.\<close>

definition base_prefix :: "string \<Rightarrow> nat option" where
  "base_prefix r =
     (case r of
        a # b # _ \<Rightarrow>
          if a \<noteq> CHR ''0'' then None
          else if b = CHR ''b'' then Some 2 else if b = CHR ''o'' then Some 8 else if b = CHR ''x'' then Some 16 else None
      | _ \<Rightarrow> None)"

definition ParseInt0 :: "string \<Rightarrow> int option" where
  "ParseInt0 s =
     (case signed_part s of (neg, r0) \<Rightarrow>
        let r = map to_lower r0;
            (base, ds) =
              (case base_prefix r of
                 Some b \<Rightarrow> if 3 \<le> length r then (b, drop 2 r) else (8, drop 1 r)
               | None \<Rightarrow> if take 1 r = ''0'' then (8, drop 1 r) else (10, r));
            underscores =
              (case base_prefix r of
                 Some b \<Rightarrow> underscores_ok (b = 16) CHR ''0'' (drop 2 r)
               | None \<Rightarrow> underscores_ok False CHR ''^'' r);
            n = int (digits_in base (filter (\<lambda>c. c \<noteq> CHR ''_'') ds));
            i = (if neg then - n else n)
        in if r = [] \<or> \<not> list_all (\<lambda>c. is_base_digit base c \<or> c = CHR ''_'') ds then None
           else if CHR ''_'' \<in> set r \<and> \<not> underscores then None
           else if is_i64 i then Some i else None)"

definition ParseBool :: "string \<Rightarrow> bool option" where
  "ParseBool s =
     (if s \<in> set [''1'', ''t'', ''T'', ''true'', ''TRUE'', ''True''] then Some True
      else if s \<in> set [''0'', ''f'', ''F'', ''false'', ''FALSE'', ''False''] then Some False
      else None)"

fun set_value :: "flag_value \<Rightarrow> string \<Rightarrow> flag_value option" where
  "set_value (FString _) v = Some (FString v)"
| "set_value (FBool _) v = map_option FBool (ParseBool v)"
| "set_value (FInt _) v = map_option FInt (ParseInt0 v)"

datatype parsed = Parsed FlagSet | BadFlag | HelpFlag

text \<open>
  An argument: not a flag, the end of the flags, a malformed flag, or a flag with its value if it has one.
\<close>

datatype flag_arg = Plain | Terminator | Malformed | Flag string "string option"

definition flag_arg :: "string \<Rightarrow> flag_arg" where
  "flag_arg s =
     (if length s < 2 \<or> hd s \<noteq> CHR ''-'' then Plain
      else if s = ''--'' then Terminator
      else
        let name = (if s ! 1 = CHR ''-'' then drop 2 s else drop 1 s)
        in if hd name = CHR ''-'' \<or> hd name = CHR ''='' then Malformed
           else case SplitN2 name CHR ''='' of [n, v] \<Rightarrow> Flag n (Some v) | _ \<Rightarrow> Flag name None)"

fun Parse :: "FlagSet \<Rightarrow> string list \<Rightarrow> parsed" where
  "Parse f [] = Parsed (f\<lparr>fs_args := []\<rparr>)"
| "Parse f (s # r) =
     (case flag_arg s of
        Plain \<Rightarrow> Parsed (f\<lparr>fs_args := s # r\<rparr>)
      | Terminator \<Rightarrow> Parsed (f\<lparr>fs_args := r\<rparr>)
      | Malformed \<Rightarrow> BadFlag
      | Flag name val \<Rightarrow>
          (case mget (fs_formal f) name of
             None \<Rightarrow> if name = ''help'' \<or> name = ''h'' then HelpFlag else BadFlag
           | Some old \<Rightarrow>
               let update = (\<lambda>v. map_option (\<lambda>x. f\<lparr>fs_formal := mput name x (fs_formal f)\<rparr>) (set_value old v))
               in case (old, val, r) of
                    (FBool _, None, _) \<Rightarrow> (case update ''true'' of Some f' \<Rightarrow> Parse f' r | None \<Rightarrow> BadFlag)
                  | (_, Some v, _) \<Rightarrow> (case update v of Some f' \<Rightarrow> Parse f' r | None \<Rightarrow> BadFlag)
                  | (_, None, v # t) \<Rightarrow> (case update v of Some f' \<Rightarrow> Parse f' t | None \<Rightarrow> BadFlag)
                  | (_, None, []) \<Rightarrow> BadFlag))"

definition string_flag :: "FlagSet \<Rightarrow> string \<Rightarrow> string" where
  "string_flag f name = (case mget (fs_formal f) name of Some (FString v) \<Rightarrow> v | _ \<Rightarrow> [])"

definition bool_flag :: "FlagSet \<Rightarrow> string \<Rightarrow> bool" where
  "bool_flag f name = (case mget (fs_formal f) name of Some (FBool v) \<Rightarrow> v | _ \<Rightarrow> False)"

definition int_flag :: "FlagSet \<Rightarrow> string \<Rightarrow> int" where
  "int_flag f name = (case mget (fs_formal f) name of Some (FInt v) \<Rightarrow> v | _ \<Rightarrow> 0)"

text \<open>Parsing ends at the first argument that is not a flag: what follows it stays as it is.\<close>

lemma Parse_plain: "flag_arg s = Plain \<Longrightarrow> Parse f (s # r) = Parsed (f\<lparr>fs_args := s # r\<rparr>)"
  by simp

lemma Parse_flags:
  assumes "flag_arg s = Flag name (Some v)" and "mget (fs_formal f) name = Some (FString d)"
  shows "Parse f (s # r) = Parse (f\<lparr>fs_formal := mput name (FString v) (fs_formal f)\<rparr>) r"
  using assms by simp

end
