(* ===== verification/Cloudctl.thy ===== *)
theory Cloudctl
  imports Sdk GoAny GoFlag
begin

text \<open>
  The command line tool, \<^verbatim>\<open>cmd/cloudctl/main.go\<close>: every command as a function of the two global flags, the
  arguments and the HTTP transport. A run ends with a return, an exit code or a panic, and leaves the lines it
  wrote.
\<close>

section \<open>Runs\<close>

datatype line = Stdout string | Stderr string | FlagMessage
datatype finish = Returns | Exits nat | Crashes string

type_synonym 's run = "'s \<Rightarrow> finish \<times> line list \<times> 's"

record Ctl =
  ct_apiURL :: string
  ct_token :: string

definition prints :: "line \<Rightarrow> 's run" where
  "prints l s = (Returns, [l], s)"

definition after_line :: "line \<Rightarrow> 's run \<Rightarrow> 's run" where
  "after_line l r s = (case r s of (f, ls, s') \<Rightarrow> (f, l # ls, s'))"

definition quits :: "line \<Rightarrow> nat \<Rightarrow> 's run" where
  "quits l code s = (Exits code, [l], s)"

definition index_panic :: "nat \<Rightarrow> nat \<Rightarrow> 's run" where
  "index_panic i n s =
     (Crashes (''runtime error: index out of range ['' @ digits i @ ''] with length '' @ digits n), [], s)"

definition usage_text :: string where
  "usage_text =
     Join
      [''cloudctl '' @ map byte_of [226, 128, 148] @ '' Mini Cloud Platform CLI'',
       [],
       ''Usage:'',
       ''  cloudctl [-api URL] [-token TOKEN] <command> [args]'',
       [],
       ''Commands:'',
       ''  login <email> <password>'',
       ''  user create <email> <password> [--display NAME] [--admin]'',
       ''  project list | create <id>'',
       ''  workload list --project_id=P | create --project_id=P --id=I --image=IMG'',
       ''  service list | create (json) --project_id=P'',
       ''  deployment list | create (json) --project_id=P'',
       ''  network list | create (json) --project_id=P'',
       ''  volume list | create (json) --project_id=P'',
       ''  secret list | create (json) --project_id=P'',
       ''  configmap list | create (json) --project_id=P'',
       ''  bucket list | create <id>'',
       ''  object put <bucket> <key> <file>'',
       ''  object get <bucket> <key>'',
       ''  node list'',
       ''  model list'',
       ''  chat --model=M '' @ [CHR 0x27] @ ''hello world'' @ [CHR 0x27]] [eol]"

definition usage :: line where
  "usage = Stderr usage_text"

text \<open>A flag set of a command: the package ends the program on a bad flag and on a request for help.\<close>

definition with_flags :: "(string, flag_value) gomap \<Rightarrow> string list \<Rightarrow> (FlagSet \<Rightarrow> 's run) \<Rightarrow> 's run" where
  "with_flags formal args k =
     (case Parse (NewFlagSet formal) args of
        Parsed f \<Rightarrow> k f
      | BadFlag \<Rightarrow> quits FlagMessage 2
      | HelpFlag \<Rightarrow> quits FlagMessage 0)"

section \<open>Requests\<close>

definition bearer_header :: "Ctl \<Rightarrow> headers" where
  "bearer_header c = (if ct_token c \<noteq> [] then [(''Authorization'', [''Bearer '' @ ct_token c])] else [])"

text \<open>A request, and what to do with the reply; the handler for errors gets the text of the error.\<close>

definition request ::
  "'s transport \<Rightarrow> string \<Rightarrow> string \<Rightarrow> headers \<Rightarrow> bytes \<Rightarrow> (string \<Rightarrow> 's run) \<Rightarrow> (nat \<Rightarrow> bytes \<Rightarrow> 's run) \<Rightarrow> 's run" where
  "request http verb url hs body failed k s =
     (case http verb url hs body s of
        (Panic p, s') \<Rightarrow> (Crashes p, [], s')
      | (Err e, s') \<Rightarrow> failed (error_text e) s'
      | (Ok r, s') \<Rightarrow> k (rp_Code r) (rp_Body r) s')"

text \<open>A request that fails has status 0 and no body.\<close>

definition call ::
  "'s transport \<Rightarrow> Ctl \<Rightarrow> string \<Rightarrow> string \<Rightarrow> json option \<Rightarrow> (nat \<Rightarrow> bytes \<Rightarrow> 's run) \<Rightarrow> 's run" where
  "call http c verb path body k =
     request http verb (ct_apiURL c @ path)
       (bearer_header c @ (if body \<noteq> None then json_content else []))
       (case body of Some j \<Rightarrow> json_print j | None \<Rightarrow> [])
       (\<lambda>e. after_line (Stderr (''ERR '' @ e)) (k 0 [])) k"

definition status_line :: "nat \<Rightarrow> bytes \<Rightarrow> string" where
  "status_line status b = digits status @ '' '' @ b"

definition show_status :: "nat \<Rightarrow> bytes \<Rightarrow> 's run" where
  "show_status status b = prints (Stdout (status_line status b))"

definition pretty_text :: "bytes \<Rightarrow> string" where
  "pretty_text b = (case unmarshal_any b of None \<Rightarrow> b | Some v \<Rightarrow> json_indent 0 v)"

definition check_ok :: "nat \<Rightarrow> bool" where
  "check_ok status \<longleftrightarrow> status = 200 \<or> status = 201"

definition check_pretty :: "nat \<Rightarrow> bytes \<Rightarrow> 's run" where
  "check_pretty status b =
     (if check_ok status then prints (Stdout (pretty_text b)) else quits (Stderr (status_line status b)) 1)"

section \<open>Commands\<close>

definition loginCmd :: "'s transport \<Rightarrow> Ctl \<Rightarrow> string list \<Rightarrow> 's run" where
  "loginCmd http c args =
     (case args of
        email # password # _ \<Rightarrow>
          request http ''POST'' (ct_apiURL c @ ''/v1/login'') json_content
            (json_print (map_object [(''email'', JString email), (''password'', JString password)]))
            (\<lambda>e. quits (Stderr (''ERR '' @ e)) 1)
            (\<lambda>status b.
               if status \<noteq> 200 then quits (Stderr (''login failed: '' @ b)) 1
               else prints (Stdout (case json_read b of
                      Some (JObject ms) \<Rightarrow>
                        (case mget (fst (fold map_member ms ([], True))) ''token'' of Some t \<Rightarrow> t | None \<Rightarrow> [])
                    | _ \<Rightarrow> [])))
      | _ \<Rightarrow> quits (Stderr ''usage: cloudctl login <email> <password>'') 2)"

definition userCmd :: "'s transport \<Rightarrow> Ctl \<Rightarrow> string list \<Rightarrow> 's run" where
  "userCmd http c args =
     (case args of
        [] \<Rightarrow> quits usage 2
      | a # r \<Rightarrow>
          if a = ''create'' then
            with_flags [(''display'', FString []), (''admin'', FBool False)] r
              (\<lambda>f. case fs_args f of
                 email # password # _ \<Rightarrow>
                   call http c ''POST'' ''/v1/users''
                     (Some (map_object
                        [(''email'', JString email), (''password'', JString password),
                         (''display_name'', JString (string_flag f ''display'')), (''admin'', JBool (bool_flag f ''admin''))]))
                     show_status
               | _ \<Rightarrow> quits (Stderr ''usage: cloudctl user create <email> <password>'') 2)
          else prints usage)"

definition projectCmd :: "'s transport \<Rightarrow> Ctl \<Rightarrow> string list \<Rightarrow> 's run" where
  "projectCmd http c args =
     (case args of
        [] \<Rightarrow> index_panic 0 0
      | a # r \<Rightarrow>
          if a = ''list'' then call http c ''GET'' ''/v1/projects'' None check_pretty
          else if a = ''create'' then
            (case r of
               [] \<Rightarrow> quits usage 2
             | i # _ \<Rightarrow>
                 call http c ''POST'' ''/v1/projects''
                   (Some (map_object [(''id'', JString i), (''description'', JString i)])) show_status)
          else (\<lambda>s. (Returns, [], s)))"

definition workload_flags :: "(string, flag_value) gomap" where
  "workload_flags =
     [(''project_id'', FString []), (''id'', FString []), (''image'', FString ''nginx:latest''), (''replicas'', FInt 1),
      (''cpu'', FInt 100), (''mem'', FInt (128 * 1024 * 1024)), (''port'', FInt 80), (''model'', FString [])]"

definition workloadCmd :: "'s transport \<Rightarrow> Ctl \<Rightarrow> string list \<Rightarrow> 's run" where
  "workloadCmd http c args =
     with_flags workload_flags args
       (\<lambda>f. let path = ''/v1/workloads?project_id='' @ string_flag f ''project_id'';
                int = (\<lambda>name. JNumber (FormatInt (int_flag f name)))
            in case fs_args f of
                 [] \<Rightarrow> quits usage 2
               | a # _ \<Rightarrow>
                   if a = ''list'' then call http c ''GET'' path None check_pretty
                   else if a = ''create'' then
                     call http c ''POST'' path
                       (Some (map_object
                          [(''id'', JString (string_flag f ''id'')), (''kind'', JString ''ai''),
                           (''image'', JString (string_flag f ''image'')), (''replicas'', int ''replicas''),
                           (''cpu_millicores'', int ''cpu''), (''memory_bytes'', int ''mem''), (''port'', int ''port''),
                           (''ai_model'', JString (string_flag f ''model''))]))
                       show_status
                   else prints usage)"

text \<open>The six commands on the resources of a project differ in the path and in what they post for a new resource.\<close>

definition resource_cmd :: "string \<Rightarrow> (string \<Rightarrow> (string, json) gomap) \<Rightarrow> 's transport \<Rightarrow> Ctl \<Rightarrow> string list \<Rightarrow> 's run" where
  "resource_cmd kind fresh http c args =
     with_flags [(''project_id'', FString [])] args
       (\<lambda>f. let path = ''/v1/'' @ kind @ ''?project_id='' @ string_flag f ''project_id''
            in case fs_args f of
                 [] \<Rightarrow> quits usage 2
               | a # r \<Rightarrow>
                   if a = ''list'' then call http c ''GET'' path None check_pretty
                   else if a = ''create'' then
                     (case r of
                        [] \<Rightarrow> index_panic 1 1
                      | i # _ \<Rightarrow> call http c ''POST'' path (Some (map_object (fresh i))) show_status)
                   else (\<lambda>s. (Returns, [], s)))"

definition serviceCmd :: "'s transport \<Rightarrow> Ctl \<Rightarrow> string list \<Rightarrow> 's run" where
  "serviceCmd =
     resource_cmd ''services'' (\<lambda>i. [(''id'', JString i), (''port'', JNumber ''80''), (''workload_id'', JString [])])"

definition deploymentCmd :: "'s transport \<Rightarrow> Ctl \<Rightarrow> string list \<Rightarrow> 's run" where
  "deploymentCmd = resource_cmd ''deployments'' (\<lambda>i. [(''id'', JString i)])"

definition networkCmd :: "'s transport \<Rightarrow> Ctl \<Rightarrow> string list \<Rightarrow> 's run" where
  "networkCmd = resource_cmd ''networks'' (\<lambda>i. [(''id'', JString i), (''cidr'', JString ''10.0.0.0/24'')])"

definition volumeCmd :: "'s transport \<Rightarrow> Ctl \<Rightarrow> string list \<Rightarrow> 's run" where
  "volumeCmd = resource_cmd ''volumes'' (\<lambda>i. [(''id'', JString i), (''size_bytes'', JNumber (FormatInt (2 ^ 30)))])"

definition secretCmd :: "'s transport \<Rightarrow> Ctl \<Rightarrow> string list \<Rightarrow> 's run" where
  "secretCmd = resource_cmd ''secrets'' (\<lambda>i. [(''id'', JString i)])"

definition configmapCmd :: "'s transport \<Rightarrow> Ctl \<Rightarrow> string list \<Rightarrow> 's run" where
  "configmapCmd = resource_cmd ''configmaps'' (\<lambda>i. [(''id'', JString i), (''data'', JObject [])])"

definition bucketCmd :: "'s transport \<Rightarrow> Ctl \<Rightarrow> string list \<Rightarrow> 's run" where
  "bucketCmd http c args =
     (case args of
        [] \<Rightarrow> index_panic 0 0
      | a # r \<Rightarrow>
          if a = ''list'' then call http c ''GET'' ''/v1/buckets'' None check_pretty
          else if a = ''create'' then
            (case r of
               [] \<Rightarrow> index_panic 1 1
             | i # _ \<Rightarrow> call http c ''POST'' ''/v1/buckets'' (Some (map_object [(''id'', JString i)])) show_status)
          else (\<lambda>s. (Returns, [], s)))"

definition nodeCmd :: "'s transport \<Rightarrow> Ctl \<Rightarrow> string list \<Rightarrow> 's run" where
  "nodeCmd http c args =
     (case args of
        [] \<Rightarrow> index_panic 0 0
      | a # _ \<Rightarrow> if a = ''list'' then call http c ''GET'' ''/v1/nodes'' None check_pretty else (\<lambda>s. (Returns, [], s)))"

text \<open>The models of a reply: errors of the decoder are ignored, and what it had read before them is used.\<close>

definition models_member :: "((string, json) gomap list \<times> nat) member_reader" where
  "models_member km acc =
     (case km of (k, x) \<Rightarrow> if names_field ''data'' k then read_slice read_any_map [] x acc else acc)"

definition reply_models :: "bytes \<Rightarrow> (string, json) gomap list" where
  "reply_models b =
     (case json_parse b of
        Some j \<Rightarrow> slice_list (fst (read_object models_member j (([], 0), True)))
      | None \<Rightarrow> [])"

definition modelCmd :: "'s transport \<Rightarrow> Ctl \<Rightarrow> string list \<Rightarrow> 's run" where
  "modelCmd http c args =
     (case args of
        [] \<Rightarrow> index_panic 0 0
      | a # _ \<Rightarrow>
          if a = ''list'' then
            request http ''GET'' (ct_apiURL c @ ''/v1/models'') (bearer_header c) []
              (\<lambda>e. prints (Stderr e))
              (\<lambda>status b s.
                 (Returns,
                  map (\<lambda>m. Stdout (''- '' @ any_text (case mget m ''id'' of Some v \<Rightarrow> v | None \<Rightarrow> JNull))) (reply_models b), s))
          else (\<lambda>s. (Returns, [], s)))"

definition content_member :: "string member_reader" where
  "content_member km acc =
     (case km of (k, x) \<Rightarrow> if names_field ''content'' k then read_string (\<lambda>v _. v) x acc else acc)"

definition choice_member :: "string member_reader" where
  "choice_member km acc =
     (case km of (k, x) \<Rightarrow> if names_field ''message'' k then read_object content_member x acc else acc)"

definition choices_member :: "(string list \<times> nat) member_reader" where
  "choices_member km acc =
     (case km of (k, x) \<Rightarrow> if names_field ''choices'' k then read_slice (read_object choice_member) [] x acc else acc)"

definition reply_choices :: "bytes \<Rightarrow> string list option" where
  "reply_choices b = map_option slice_list (read_struct choices_member ([], 0) (json_parse b))"

definition chatCmd :: "'s transport \<Rightarrow> Ctl \<Rightarrow> string list \<Rightarrow> 's run" where
  "chatCmd http c args =
     with_flags [(''model'', FString ''echo'')] args
       (\<lambda>f. let prompt = Join (fs_args f) '' ''
            in if prompt = [] then quits usage 2
               else
                 request http ''POST'' (ct_apiURL c @ ''/v1/chat/completions'') (bearer_header c @ json_content)
                   (json_print (map_object
                      [(''model'', JString (string_flag f ''model'')),
                       (''messages'', JArray [map_object [(''role'', JString ''user''), (''content'', JString prompt)]])]))
                   (\<lambda>e. prints (Stderr e))
                   (\<lambda>status b s.
                      (Returns, (case reply_choices b of None \<Rightarrow> [Stdout b] | Some cs \<Rightarrow> map Stdout cs), s)))"

section \<open>The program\<close>

definition run_command :: "'s transport \<Rightarrow> Ctl \<Rightarrow> string \<Rightarrow> string list \<Rightarrow> 's run" where
  "run_command http c cmd rest =
     (if cmd = ''user'' then userCmd http c rest
      else if cmd = ''project'' then projectCmd http c rest
      else if cmd \<in> {''workload'', ''run''} then workloadCmd http c rest
      else if cmd = ''service'' then serviceCmd http c rest
      else if cmd = ''deployment'' then deploymentCmd http c rest
      else if cmd = ''network'' then networkCmd http c rest
      else if cmd = ''volume'' then volumeCmd http c rest
      else if cmd = ''secret'' then secretCmd http c rest
      else if cmd \<in> {''configmap'', ''cm''} then configmapCmd http c rest
      else if cmd = ''bucket'' then bucketCmd http c rest
      else if cmd = ''node'' then nodeCmd http c rest
      else if cmd = ''model'' then modelCmd http c rest
      else if cmd = ''chat'' then chatCmd http c rest
      else if cmd = ''login'' then loginCmd http c rest
      else quits usage 1)"

text \<open>
  The global flags. \<^verbatim>\<open>main\<close> asks for the arguments that are left after the flags; \<^verbatim>\<open>flag.Parse\<close>, which would read
  the command line, is not called anywhere.
\<close>

definition CommandLine :: FlagSet where
  "CommandLine = NewFlagSet [(''api'', FString ''http://127.0.0.1:8080''), (''token'', FString [])]"

definition main_with :: "FlagSet \<Rightarrow> 's transport \<Rightarrow> string \<Rightarrow> 's run" where
  "main_with f http environ_token =
     (let token = string_flag f ''token'';
          c = \<lparr>ct_apiURL = string_flag f ''api'',
               ct_token = (if environ_token \<noteq> [] \<and> token = [] then environ_token else token)\<rparr>
      in case fs_args f of
           [] \<Rightarrow> quits usage 1
         | cmd # rest \<Rightarrow> run_command http c cmd rest)"

definition main_ctl :: "'s transport \<Rightarrow> string \<Rightarrow> string list \<Rightarrow> 's run" where
  "main_ctl http environ_token os_args = main_with CommandLine http environ_token"

section \<open>What a command does\<close>
















text \<open>
  The tool as it is does nothing: whatever the command line and the environment are, it prints the
  usage and exits with 1, because nothing parses the command line. With a parsed command line it would run the
  command that follows the flags, against the URL that they give.
\<close>

theorem cloudctl_never_runs_a_command:
  "main_ctl http env os_args s = (Exits 1, [Stderr usage_text], s)
   \<and> (flag_arg cmd = Plain \<longrightarrow>
       (\<exists>f. Parse CommandLine ((''-api='' @ url) # cmd # rest) = Parsed f
          \<and> main_with f http env = run_command http \<lparr>ct_apiURL = url, ct_token = env\<rparr> cmd rest))"
proof -
  have a: "flag_arg (''-api='' @ url) = Flag ''api'' (Some url)"
    by (simp add: flag_arg_def SplitN2_def)
  show ?thesis
    by (auto simp: main_ctl_def main_with_def CommandLine_def NewFlagSet_def quits_def usage_def Let_def a
        string_flag_def mget_def mput_def simp del: append.simps)
qed

theorem cloudctl_never_runs_a_command_witness:
  "main_ctl (\<lambda>_ _ _ _ s. (Err (ErrorString ''refused''), s)) ''tok'' [''node'', ''list''] (0 :: nat) = (Exits 1, [Stderr usage_text], 0)
   \<and> (\<exists>f. Parse CommandLine [''-api=http://api'', ''node'', ''list''] = Parsed f
        \<and> main_with f (\<lambda>_ _ _ _ s. (Err (ErrorString ''refused''), s)) ''tok'' (0 :: nat)
          = (Exits 1, [Stderr ''ERR refused'', Stderr ''0 ''], 0))"
proof -
  let ?http = "\<lambda>_ _ _ _ s. (Err (ErrorString ''refused''), s)"
  have p: "flag_arg ''node'' = Plain" by (simp add: flag_arg_def)
  have z: "digits 0 = ''0''" by code_simp
  note m = cloudctl_never_runs_a_command [of ?http "''tok''" "[''node'', ''list'']" "0 :: nat" "''node''" "''http://api''" "[''list'']"]
  then obtain f where f: "Parse CommandLine [''-api=http://api'', ''node'', ''list''] = Parsed f"
    "main_with f ?http ''tok'' = (run_command ?http \<lparr>ct_apiURL = ''http://api'', ct_token = ''tok''\<rparr> ''node'' [''list''] :: nat run)"
    using p by auto
  have "main_with f ?http ''tok'' (0 :: nat) = (Exits 1, [Stderr ''ERR refused'', Stderr ''0 ''], 0)"
    by (simp add: f(2) run_command_def nodeCmd_def call_def request_def check_pretty_def check_ok_def after_line_def quits_def
        status_line_def z)
  with m f(1) show ?thesis by blast
qed

text \<open>
  The flags of a project's resource count only in front of the subcommand: the arguments
  \<^verbatim>\<open>--project_id=P list\<close> ask for the resources of the project P, while everything behind \<^verbatim>\<open>list\<close>, as in the usage that the tool
  prints, is ignored, and the request has an empty project identifier.
\<close>

theorem flags_behind_subcommand_ignored:
  "resource_cmd kind fresh http c ((''--project_id='' @ p) # ''list'' # r)
     = call http c ''GET'' (''/v1/'' @ kind @ ''?project_id='' @ p) None check_pretty
   \<and> resource_cmd kind fresh http c (''list'' # r)
     = call http c ''GET'' (''/v1/'' @ kind @ ''?project_id='') None check_pretty"
proof -
  have a: "flag_arg (''--project_id='' @ p) = Flag ''project_id'' (Some p)" "flag_arg ''list'' = Plain"
    by (simp_all add: flag_arg_def SplitN2_def)
  let ?f = "NewFlagSet [(''project_id'', FString [])]"
  have m: "mget (fs_formal ?f) ''project_id'' = Some (FString [])" by (simp add: NewFlagSet_def mget_def)
  have "Parse ?f ((''--project_id='' @ p) # ''list'' # r)
      = Parsed \<lparr>fs_formal = [(''project_id'', FString p)], fs_args = ''list'' # r\<rparr>"
    by (simp only: Parse_flags [OF a(1) m] Parse_plain [OF a(2)]) (simp add: NewFlagSet_def mput_def)
  moreover have "Parse ?f (''list'' # r) = Parsed \<lparr>fs_formal = [(''project_id'', FString [])], fs_args = ''list'' # r\<rparr>"
    by (simp only: Parse_plain [OF a(2)]) (simp add: NewFlagSet_def)
  ultimately show ?thesis
    unfolding resource_cmd_def with_flags_def by (simp add: Let_def string_flag_def mget_def)
qed

text \<open>\<^verbatim>\<open>model list\<close> expects an object with the member \<^verbatim>\<open>data\<close>; for an array it prints nothing.\<close>

lemma model_list_of_array:
  assumes "json_parse (rp_Body p) = Some (JArray xs)" and "http ''GET'' (ct_apiURL c @ ''/v1/models'') (bearer_header c) [] s
    = (Ok p, s')"
  shows "modelCmd http c [''list''] s = (Returns, [], s')"
  using assms by (simp add: modelCmd_def request_def reply_models_def read_object_def slice_list_def)

end
