(* ===== verification/Llm.thy ===== *)
theory Llm
  imports GoScan
begin

unbundle bit_operations_syntax

text \<open>
  The language model engine and the registry of models, \<^verbatim>\<open>internal/primitives/llm\<close>: the engine's vocabulary,
  its random numbers (FNV-1a and the permuted congruential generator of \<^verbatim>\<open>math/rand/v2\<close>, both computed), chat
  completions, streaming, and the registry. The error of the context before a token, the clock and the
  letters of an identifier are arguments. What the router relies on is a locale that the engine satisfies.
\<close>

section \<open>Random numbers\<close>

definition fnv1a :: "bytes \<Rightarrow> u64" where
  "fnv1a bs = foldl (\<lambda>h b. (h XOR word_of_nat (byte_val b)) * 1099511628211) 14695981039346656037 bs"

record PCG =
  pg_hi :: u64
  pg_lo :: u64

definition pcg_step :: "PCG \<Rightarrow> PCG" where
  "pcg_step p =
     (let st = (push_bit 64 (ucast (pg_hi p)) OR ucast (pg_lo p) :: 128 word);
          st' = st * 0x2360ED051FC65DA44385DF649FCCF645 + 0x5851F42D4C957F2D14057B7EF767814F
      in \<lparr>pg_hi = ucast (drop_bit 64 st'), pg_lo = ucast st'\<rparr>)"

definition pcg_Uint64 :: "PCG \<Rightarrow> u64 \<times> PCG" where
  "pcg_Uint64 p =
     (let p' = pcg_step p;
          h1 = pg_hi p' XOR drop_bit 32 (pg_hi p');
          h2 = h1 * 0xda942042e4dd58b5;
          h3 = h2 XOR drop_bit 48 h2
      in (h3 * (pg_lo p' OR 1), p'))"

definition newRand :: "string \<Rightarrow> PCG" where
  "newRand seed = (let h = fnv1a seed in \<lparr>pg_hi = h, pg_lo = h\<rparr>)"

section \<open>Requests and responses\<close>

record Message =
  mg_Role :: string
  mg_Content :: string

record ChatRequest =
  cq_Model :: string
  cq_Messages :: "Message list"
  cq_Temperature :: float64
  cq_MaxTokens :: int
  cq_Stream :: bool

record Choice =
  ch_Index :: int
  ch_Message :: Message
  ch_FinishReason :: string

record Usage =
  us_PromptTokens :: int
  us_CompletionTokens :: int
  us_TotalTokens :: int

record ChatResponse =
  cr_ID :: string
  cr_Model :: string
  cr_Created :: time
  cr_Choices :: "Choice list"
  cr_Usage :: Usage

text \<open>What the surroundings do during a call: the context before each token and while one is sent, the clock, random letters.\<close>

record World =
  wd_ctx :: "nat \<Rightarrow> go_error option"
  wd_send :: "nat \<Rightarrow> go_error option"
  wd_now :: time
  wd_letters :: "nat list"

record Engine =
  en_Chat :: "World \<Rightarrow> ChatRequest \<Rightarrow> ChatResponse outcome"
  en_Stream :: "World \<Rightarrow> ChatRequest \<Rightarrow> string list outcome"

section \<open>The tiny engine\<close>

record TinyEngine =
  te_seed :: u64
  te_vocab :: "string list"

definition tiny_vocab :: "string list" where
  "tiny_vocab =
    [''the'', ''a'', ''an'', ''of'', ''to'', ''and'', ''in'', ''on'', ''for'', ''with'',
     ''cloud'', ''model'', ''workload'', ''node'', ''service'', ''deployment'',
     ''hello'', ''world'', ''this'', ''that'', ''is'', ''are'', ''be'', ''or'', ''not'',
     ''yes'', ''no'', ''ok'', ''ack'', ''running'', ''scheduled'', ''ready'', ''complete'',
     ''data'', ''compute'', ''storage'', ''network'', ''policy'', ''role'', ''key'',
     ''happy'', ''thanks'', ''welcome'']"

definition NewTinyEngine :: "time \<Rightarrow> TinyEngine" where
  "NewTinyEngine now = \<lparr>te_seed = word_of_int (now - 62135596800 * second), te_vocab = tiny_vocab\<rparr>"

definition shouldStop :: "string \<Rightarrow> bool" where
  "shouldStop s \<longleftrightarrow> Contains s ''ack'' \<or> Contains s ''complete'' \<or> Contains s ''ready'' \<or> Contains s ''thanks''"

definition randID :: "nat list \<Rightarrow> string" where
  "randID ls = map (\<lambda>n. byte_of (97 + n)) ls"

definition max_tokens :: "ChatRequest \<Rightarrow> int" where
  "max_tokens req = (if cq_MaxTokens req \<le> 0 then 64 else cq_MaxTokens req)"

text \<open>The loop of a completion: the tokens that are left, the number of the token, the generator, the text.\<close>

fun generate :: "(nat \<Rightarrow> go_error option) \<Rightarrow> string list \<Rightarrow> nat \<Rightarrow> nat \<Rightarrow> PCG \<Rightarrow> string \<Rightarrow> string outcome" where
  "generate ctx vocab 0 i g out = Ok out"
| "generate ctx vocab (Suc left) i g out =
     (case ctx i of
        Some e \<Rightarrow> Err e
      | None \<Rightarrow>
          if vocab = [] then Panic ''integer divide by zero''
          else case pcg_Uint64 g of
                 (u, g') \<Rightarrow>
                   let out' = out @ vocab ! (unat u mod length vocab) @ '' ''
                   in if shouldStop out' then Ok out' else generate ctx vocab left (Suc i) g' out')"

definition chat_prompt :: "Message list \<Rightarrow> string" where
  "chat_prompt ms =
     (if length ms > 1 then concat (map (\<lambda>m. mg_Role m @ '':'' @ mg_Content m @ [CHR 0x0A]) ms)
      else mg_Content (last ms))"

definition TinyEngine_Chat :: "TinyEngine \<Rightarrow> World \<Rightarrow> ChatRequest \<Rightarrow> ChatResponse outcome" where
  "TinyEngine_Chat e W req =
     (if cq_Model req = [] then Err (ErrorString ''llm: model required'')
      else if cq_Messages req = [] then Panic ''index out of range''
      else
        let prompt = chat_prompt (cq_Messages req);
            promptTokens = int (length (Fields prompt));
            maxTokens = max_tokens req
        in case generate (wd_ctx W) (te_vocab e) (nat maxTokens) 0 (newRand (cq_Model req @ '':'' @ prompt)) [] of
             Err x \<Rightarrow> Err x
           | Panic p \<Rightarrow> Panic p
           | Ok out \<Rightarrow>
               let finish = (if int (length out) < i64 (maxTokens * 5) then ''length'' else ''stop'');
                   content = TrimSpace out;
                   completionTokens = int (length (Fields content))
               in Ok \<lparr>cr_ID = ''chatcmpl-'' @ randID (wd_letters W), cr_Model = cq_Model req, cr_Created = wd_now W,
                       cr_Choices =
                         [\<lparr>ch_Index = 0, ch_Message = \<lparr>mg_Role = ''assistant'', mg_Content = content\<rparr>,
                           ch_FinishReason = finish\<rparr>],
                       cr_Usage =
                         \<lparr>us_PromptTokens = promptTokens, us_CompletionTokens = completionTokens,
                          us_TotalTokens = i64 (promptTokens + completionTokens)\<rparr>\<rparr>)"

text \<open>The tokens that the goroutine of a stream delivers.\<close>

fun stream_tokens ::
  "(nat \<Rightarrow> go_error option) \<Rightarrow> (nat \<Rightarrow> go_error option) \<Rightarrow> string list \<Rightarrow> nat \<Rightarrow> nat \<Rightarrow> PCG \<Rightarrow> string \<Rightarrow> string list outcome" where
  "stream_tokens ctx send vocab 0 i g out = Ok []"
| "stream_tokens ctx send vocab (Suc left) i g out =
     (case ctx i of
        Some e \<Rightarrow> Ok []
      | None \<Rightarrow>
          if vocab = [] then Panic ''integer divide by zero''
          else case pcg_Uint64 g of
                 (u, g') \<Rightarrow>
                   let tok = vocab ! (unat u mod length vocab); out' = out @ tok @ '' ''
                   in case send i of
                        Some e \<Rightarrow> Ok []
                      | None \<Rightarrow>
                          if shouldStop out' then Ok [tok]
                          else case stream_tokens ctx send vocab left (Suc i) g' out' of
                                 Ok toks \<Rightarrow> Ok (tok # toks)
                               | Err x \<Rightarrow> Err x
                               | Panic p \<Rightarrow> Panic p)"

definition TinyEngine_Stream :: "TinyEngine \<Rightarrow> World \<Rightarrow> ChatRequest \<Rightarrow> string list outcome" where
  "TinyEngine_Stream e W req =
     (if cq_Model req = [] then Err (ErrorString ''llm: model required'')
      else if cq_Messages req = [] then Panic ''index out of range''
      else stream_tokens (wd_ctx W) (wd_send W) (te_vocab e) (nat (max_tokens req)) 0
             (newRand (cq_Model req @ '':'' @ mg_Content (last (cq_Messages req)))) [])"

definition tiny_engine :: "time \<Rightarrow> Engine" where
  "tiny_engine now =
     (let e = NewTinyEngine now in \<lparr>en_Chat = TinyEngine_Chat e, en_Stream = TinyEngine_Stream e\<rparr>)"

section \<open>The registry\<close>

record Model =
  mo_Name :: string
  mo_Revision :: string
  mo_Backend :: string
  mo_CreatedAt :: time

record Registry =
  rg_models :: "(string, Model) gomap"
  rg_engines :: "(string, Engine) gomap"

definition NewRegistry :: Registry where
  "NewRegistry = \<lparr>rg_models = [], rg_engines = []\<rparr>"

definition Register :: "time \<Rightarrow> Model \<Rightarrow> Engine option \<Rightarrow> Registry \<Rightarrow> unit outcome \<times> Registry" where
  "Register now m eng r =
     (if mo_Name m = [] then (Err (ErrorString ''llm: model name required''), r)
      else (Ok (),
            r\<lparr>rg_models := mput (mo_Name m) (m\<lparr>mo_CreatedAt := now\<rparr>) (rg_models r),
              rg_engines := (case eng of Some e \<Rightarrow> mput (mo_Name m) e (rg_engines r) | None \<Rightarrow> rg_engines r)\<rparr>))"

definition Resolve :: "time \<Rightarrow> string \<Rightarrow> Registry \<Rightarrow> Engine" where
  "Resolve now name r = (case mget (rg_engines r) name of Some e \<Rightarrow> e | None \<Rightarrow> tiny_engine now)"

definition List_models :: "Registry \<Rightarrow> Model list" where
  "List_models r = map snd (rg_models r)"

definition Names :: "Registry \<Rightarrow> string list" where
  "Names r = sort (mkeys (rg_models r))"

definition Get_model :: "string \<Rightarrow> Registry \<Rightarrow> Model option" where
  "Get_model name r = mget (rg_models r) name"

definition Registry_Chat :: "time \<Rightarrow> World \<Rightarrow> ChatRequest \<Rightarrow> Registry \<Rightarrow> ChatResponse outcome" where
  "Registry_Chat now W req r = en_Chat (Resolve now (cq_Model req) r) W req"

section \<open>What the engine says\<close>

text \<open>The specification: tokens are drawn one after the other until a stop word was drawn or the limit is reached.\<close>

definition stop_word :: "string \<Rightarrow> bool" where
  "stop_word t \<longleftrightarrow> t \<in> {''ack'', ''complete'', ''ready'', ''thanks''}"

fun answer :: "nat \<Rightarrow> PCG \<Rightarrow> string list" where
  "answer 0 g = []"
| "answer (Suc n) g =
     (case pcg_Uint64 g of
        (u, g') \<Rightarrow>
          let t = tiny_vocab ! (unat u mod length tiny_vocab) in if stop_word t then [t] else t # answer n g')"

definition spaced :: "string list \<Rightarrow> string" where
  "spaced ts = concat (map (\<lambda>t. t @ '' '') ts)"

lemma vocab_words: "t \<in> set tiny_vocab \<Longrightarrow> word t \<and> length t \<le> 10 \<and> (shouldStop t \<longleftrightarrow> stop_word t)"
proof -
  have "list_all (\<lambda>t. word t \<and> length t \<le> 10 \<and> (shouldStop t \<longleftrightarrow> stop_word t)) tiny_vocab" by code_simp
  then show "t \<in> set tiny_vocab \<Longrightarrow> word t \<and> length t \<le> 10 \<and> (shouldStop t \<longleftrightarrow> stop_word t)"
    unfolding list_all_iff by blast
qed

lemma vocab_nth: "tiny_vocab ! (n mod length tiny_vocab) \<in> set tiny_vocab"
  by (rule nth_mem) (simp add: tiny_vocab_def)

lemma Contains_blank:
  assumes "CHR '' '' \<notin> set p" and "p \<noteq> []"
  shows "Contains (a @ CHR '' '' # b) p \<longleftrightarrow> Contains a p \<or> Contains b p"
proof
  assume "Contains (a @ CHR '' '' # b) p"
  then obtain x y where e: "a @ CHR '' '' # b = x @ p @ y" by (auto simp: Contains_iff)
  then consider us where "a = x @ us" "us @ CHR '' '' # b = p @ y" | us where "x = a @ us" "CHR '' '' # b = us @ p @ y"
    by (auto simp: append_eq_append_conv2)
  then show "Contains a p \<or> Contains b p"
  proof cases
    case 1
    then consider vs where "us = p @ vs" | vs where "p = us @ vs" "CHR '' '' # b = vs @ y"
      by (auto simp: append_eq_append_conv2)
    then show ?thesis
    proof cases
      case 1
      with \<open>a = x @ us\<close> show ?thesis by (auto simp: Contains_iff)
    next
      case 2
      with assms(1) have "vs = []" by (cases vs) auto
      with 2 \<open>a = x @ us\<close> have "a = x @ p @ []" by simp
      then show ?thesis unfolding Contains_iff by blast
    qed
  next
    case 2
    with assms have "us \<noteq> []" by (cases p) auto
    then obtain us' where "b = us' @ p @ y" using 2(2) by (cases us) auto
    then show ?thesis by (auto simp: Contains_iff)
  qed
next
  assume "Contains a p \<or> Contains b p"
  then consider x y where "a = x @ p @ y" | x y where "b = x @ p @ y" by (auto simp: Contains_iff)
  then show "Contains (a @ CHR '' '' # b) p"
  proof cases
    case 1
    then have "a @ CHR '' '' # b = x @ p @ (y @ CHR '' '' # b)" by simp
    then show ?thesis unfolding Contains_iff by blast
  next
    case 2
    then have "a @ CHR '' '' # b = (a @ CHR '' '' # x) @ p @ y" by simp
    then show ?thesis unfolding Contains_iff by blast
  qed
qed

lemma shouldStop_blank: "shouldStop (a @ CHR '' '' # b) \<longleftrightarrow> shouldStop a \<or> shouldStop b"
  by (auto simp: shouldStop_def Contains_blank)

lemma shouldStop_nil [simp]: "\<not> shouldStop []"
  by (simp add: shouldStop_def)

lemma shouldStop_spaced: "shouldStop (spaced ts) \<longleftrightarrow> list_ex shouldStop ts"
  by (induction ts) (simp_all add: spaced_def shouldStop_blank)

lemma spaced_snoc: "spaced (ts @ [t]) = spaced ts @ t @ '' ''"
  by (simp add: spaced_def)

lemma generate_answer:
  assumes "\<And>i. ctx i = None" and "\<not> list_ex shouldStop ts"
  shows "generate ctx tiny_vocab n i g (spaced ts) = Ok (spaced (ts @ answer n g))"
  using assms(2)
proof (induction n arbitrary: i g ts)
  case (Suc n)
  obtain u g' where u: "pcg_Uint64 g = (u, g')" by (cases "pcg_Uint64 g")
  let ?t = "tiny_vocab ! (unat u mod length tiny_vocab)"
  have v: "shouldStop ?t \<longleftrightarrow> stop_word ?t" using vocab_words [OF vocab_nth] by blast
  have "tiny_vocab \<noteq> []" by (simp add: tiny_vocab_def)
  moreover have "shouldStop (spaced ts @ ?t @ '' '') \<longleftrightarrow> stop_word ?t"
    using Suc.prems v by (simp add: shouldStop_spaced flip: spaced_snoc)
  ultimately show ?case
    using Suc.IH [of "ts @ [?t]"] Suc.prems v assms(1) by (simp add: u Let_def flip: spaced_snoc)
qed simp

lemma stream_answer:
  assumes "\<And>i. ctx i = None" and "\<And>i. send i = None" and "\<not> list_ex shouldStop ts"
  shows "stream_tokens ctx send tiny_vocab n i g (spaced ts) = Ok (answer n g)"
  using assms(3)
proof (induction n arbitrary: i g ts)
  case (Suc n)
  obtain u g' where u: "pcg_Uint64 g = (u, g')" by (cases "pcg_Uint64 g")
  let ?t = "tiny_vocab ! (unat u mod length tiny_vocab)"
  have v: "shouldStop ?t \<longleftrightarrow> stop_word ?t" using vocab_words [OF vocab_nth] by blast
  have "tiny_vocab \<noteq> []" by (simp add: tiny_vocab_def)
  moreover have "shouldStop (spaced ts @ ?t @ '' '') \<longleftrightarrow> stop_word ?t"
    using Suc.prems v by (simp add: shouldStop_spaced flip: spaced_snoc)
  ultimately show ?case
    using Suc.IH [of "ts @ [?t]"] Suc.prems v assms(1,2) by (simp add: u Let_def flip: spaced_snoc)
qed simp

lemma answer_props:
  "set (answer n g) \<subseteq> set tiny_vocab" "length (answer n g) \<le> n" "0 < n \<Longrightarrow> answer n g \<noteq> []"
  "length (answer n g) < n \<Longrightarrow> stop_word (last (answer n g))" "\<forall>t \<in> set (butlast (answer n g)). \<not> stop_word t"
proof -
  show "set (answer n g) \<subseteq> set tiny_vocab"
    by (induction n arbitrary: g) (auto simp: Let_def vocab_nth split: prod.splits)
  show "length (answer n g) \<le> n" by (induction n arbitrary: g) (auto simp: Let_def split: prod.splits)
  show ne: "0 < n \<Longrightarrow> answer n g \<noteq> []" for n g by (cases n) (auto simp: Let_def split: prod.splits)
  show "length (answer n g) < n \<Longrightarrow> stop_word (last (answer n g))"
  proof (induction n arbitrary: g)
    case (Suc n)
    obtain u g' where u: "pcg_Uint64 g = (u, g')" by (cases "pcg_Uint64 g")
    let ?t = "tiny_vocab ! (unat u mod length tiny_vocab)"
    show ?case
    proof (cases "stop_word ?t")
      case False
      with Suc.prems have l: "length (answer n g') < n" by (simp add: u)
      then have "answer n g' \<noteq> []" by (intro ne) simp
      with Suc.IH [OF l] False show ?thesis by (simp add: u)
    qed (simp add: u)
  qed simp
  show "\<forall>t \<in> set (butlast (answer n g)). \<not> stop_word t"
    by (induction n arbitrary: g) (auto simp: Let_def split: prod.splits if_splits)
qed

lemma spaced_Join: "ts \<noteq> [] \<Longrightarrow> spaced ts = Join ts '' '' @ '' ''"
  by (induction ts rule: induct_list012) (simp_all add: spaced_def)

lemma Join_ends:
  "ts \<noteq> [] \<Longrightarrow> list_all word ts \<Longrightarrow> Join ts '' '' \<noteq> [] \<and> graphic (hd (Join ts '' '')) \<and> graphic (last (Join ts '' ''))"
proof (induction ts rule: induct_list012)
  case (2 t)
  then show ?case by (auto simp: word_def list_all_iff)
next
  case (3 t t' ts)
  then have "t \<noteq> [] \<and> graphic (hd t)" by (auto simp: word_def list_all_iff)
  with 3 show ?case by simp
qed simp

lemma length_spaced: "list_all (\<lambda>t. length t \<le> 10) ts \<Longrightarrow> length (spaced ts) \<le> 11 * length ts"
  by (induction ts) (auto simp: spaced_def)

definition engine_answer :: "ChatRequest \<Rightarrow> string \<Rightarrow> string list" where
  "engine_answer req prompt = answer (nat (max_tokens req)) (newRand (cq_Model req @ '':'' @ prompt))"

lemma engine_words:
  "list_all word (engine_answer req prompt)" "list_all (\<lambda>t. length t \<le> 10) (engine_answer req prompt)"
  "engine_answer req prompt \<noteq> []"
proof -
  show "list_all word (engine_answer req prompt)" "list_all (\<lambda>t. length t \<le> 10) (engine_answer req prompt)"
    using answer_props(1) vocab_words unfolding engine_answer_def list_all_iff by blast+
  have "0 < nat (max_tokens req)" by (simp add: max_tokens_def)
  then show "engine_answer req prompt \<noteq> []" unfolding engine_answer_def by (rule answer_props(3))
qed

text \<open>The response of the engine to a request that is not cancelled.\<close>

lemma chat_response:
  assumes "cq_Model req \<noteq> []" and "cq_Messages req \<noteq> []" and "\<And>i. wd_ctx W i = None"
  defines "prompt \<equiv> chat_prompt (cq_Messages req)"
  defines "toks \<equiv> engine_answer req prompt"
  shows "TinyEngine_Chat (NewTinyEngine t) W req =
    Ok \<lparr>cr_ID = ''chatcmpl-'' @ randID (wd_letters W), cr_Model = cq_Model req, cr_Created = wd_now W,
        cr_Choices = [\<lparr>ch_Index = 0, ch_Message = \<lparr>mg_Role = ''assistant'', mg_Content = Join toks '' ''\<rparr>,
          ch_FinishReason = (if int (length (spaced toks)) < i64 (max_tokens req * 5) then ''length'' else ''stop'')\<rparr>],
        cr_Usage = \<lparr>us_PromptTokens = int (length (Fields prompt)), us_CompletionTokens = int (length toks),
          us_TotalTokens = i64 (int (length (Fields prompt)) + int (length toks))\<rparr>\<rparr>"
proof -
  have "generate (wd_ctx W) tiny_vocab (nat (max_tokens req)) 0 (newRand (cq_Model req @ '':'' @ prompt)) (spaced [])
      = Ok (spaced ([] @ answer (nat (max_tokens req)) (newRand (cq_Model req @ '':'' @ prompt))))"
    by (rule generate_answer) (simp_all add: assms(3))
  then have g: "generate (wd_ctx W) tiny_vocab (nat (max_tokens req)) 0 (newRand (cq_Model req @ '':'' @ prompt)) [] = Ok (spaced toks)"
    by (simp add: spaced_def [of "[]"] toks_def engine_answer_def)
  note w = engine_words [of req prompt, folded toks_def]
  have "TrimSpace (spaced toks) = Join toks '' ''"
    using Join_ends [OF w(3,1)] by (simp add: spaced_Join [OF w(3)] TrimSpace_blank)
  moreover have "Fields (Join toks '' '') = toks" using w(1) by (rule Fields_Join)
  ultimately show ?thesis
    using assms(1,2) g by (simp add: TinyEngine_Chat_def NewTinyEngine_def Let_def prompt_def)
qed

section \<open>What a caller may rely on\<close>

text \<open>
  The contract of a backend towards the router: a request with a model and messages that is not cancelled
  gets a response with a choice, and the totals add up.
\<close>

locale chat_backend =
  fixes chat :: "World \<Rightarrow> ChatRequest \<Rightarrow> ChatResponse outcome"
  assumes answers: "cq_Model req \<noteq> [] \<Longrightarrow> cq_Messages req \<noteq> [] \<Longrightarrow> (\<And>i. wd_ctx W i = None) \<Longrightarrow>
      \<exists>resp. chat W req = Ok resp \<and> cr_Choices resp \<noteq> []
        \<and> us_TotalTokens (cr_Usage resp) = i64 (us_PromptTokens (cr_Usage resp) + us_CompletionTokens (cr_Usage resp))"

interpretation tiny: chat_backend "TinyEngine_Chat (NewTinyEngine t)" for t
proof unfold_locales
  fix req :: ChatRequest and W :: World
  assume "cq_Model req \<noteq> []" "cq_Messages req \<noteq> []" "\<And>i. wd_ctx W i = None"
  from chat_response [OF this, of t]
  show "\<exists>resp. TinyEngine_Chat (NewTinyEngine t) W req = Ok resp \<and> cr_Choices resp \<noteq> []
      \<and> us_TotalTokens (cr_Usage resp) = i64 (us_PromptTokens (cr_Usage resp) + us_CompletionTokens (cr_Usage resp))"
    by simp
qed

text \<open>
  Property C33. What a completion is: whenever the engine was built and whatever its clock, a request with a model
  and messages that is not cancelled is answered with between one word and the limit of tokens, all from the
  vocabulary and separated by one blank; no word but the last is a stop word, and an answer below the limit
  ends with one. The usage counts exactly these words. The finish reason is the wrong way round: an answer
  that stopped well before the limit is reported as cut off by its length.
\<close>

theorem completion_spec:
  assumes "cq_Model req \<noteq> []" and "cq_Messages req \<noteq> []" and "\<forall>i. wd_ctx W i = None"
    and "max_tokens req < 2 ^ 59"
  shows "\<exists>resp toks c. TinyEngine_Chat (NewTinyEngine t) W req = Ok resp \<and> cr_Choices resp = [c]
    \<and> mg_Content (ch_Message c) = Join toks '' '' \<and> us_CompletionTokens (cr_Usage resp) = int (length toks)
    \<and> 1 \<le> length toks \<and> int (length toks) \<le> max_tokens req
    \<and> set toks \<subseteq> set tiny_vocab \<and> (\<forall>x \<in> set (butlast toks). \<not> stop_word x)
    \<and> (int (length toks) < max_tokens req \<longrightarrow> stop_word (last toks))
    \<and> (11 * int (length toks) < 5 * max_tokens req \<longrightarrow> ch_FinishReason c = ''length'')"
proof -
  let ?toks = "engine_answer req (chat_prompt (cq_Messages req))"
  have m: "0 < max_tokens req" by (simp add: max_tokens_def)
  note a = answer_props [of "nat (max_tokens req)" "newRand (cq_Model req @ '':'' @ chat_prompt (cq_Messages req))", folded engine_answer_def]
  have "int (length (spaced ?toks)) \<le> 11 * int (length ?toks)" using length_spaced [OF engine_words(2)] by (metis of_nat_le_iff of_nat_mult of_nat_numeral)
  moreover have "i64 (max_tokens req * 5) = max_tokens req * 5" using m assms(4) by (intro i64_small) simp_all
  moreover have "1 \<le> length ?toks" using engine_words(3) by (cases ?toks) simp_all
  moreover have "int (length ?toks) \<le> max_tokens req" using a(2) m by linarith
  moreover have "int (length ?toks) < max_tokens req \<Longrightarrow> stop_word (last ?toks)" using a(4) m by (simp add: nat_less_iff)
  moreover obtain resp c where "TinyEngine_Chat (NewTinyEngine t) W req = Ok resp" "cr_Choices resp = [c]"
      "mg_Content (ch_Message c) = Join ?toks '' ''" "us_CompletionTokens (cr_Usage resp) = int (length ?toks)"
      "ch_FinishReason c = (if int (length (spaced ?toks)) < i64 (max_tokens req * 5) then ''length'' else ''stop'')"
    using chat_response [OF assms(1,2), of W t] assms(3) by simp
  ultimately show ?thesis
    using a(1,5) by (intro exI [of _ resp] exI [of _ ?toks] exI [of _ c] conjI) simp_all
qed

text \<open>The tokens of a stream that is not cancelled.\<close>

lemma stream_response:
  assumes "cq_Model req \<noteq> []" and "cq_Messages req \<noteq> []"
    and "\<And>i. wd_ctx W i = None" and "\<And>i. wd_send W i = None"
  shows "TinyEngine_Stream (NewTinyEngine t) W req = Ok (engine_answer req (mg_Content (last (cq_Messages req))))"
proof -
  let ?c = "mg_Content (last (cq_Messages req))"
  have "stream_tokens (wd_ctx W) (wd_send W) tiny_vocab (nat (max_tokens req)) 0 (newRand (cq_Model req @ '':'' @ ?c)) (spaced [])
      = Ok (engine_answer req ?c)"
    unfolding engine_answer_def using assms(3,4) by (intro stream_answer) simp_all
  then show ?thesis using assms(1,2) by (simp add: TinyEngine_Stream_def NewTinyEngine_def spaced_def)
qed

section \<open>A concrete request\<close>

definition demo_chat :: ChatRequest where
  "demo_chat = \<lparr>cq_Model = ''echo'', cq_Messages = [\<lparr>mg_Role = ''user'', mg_Content = ''hello''\<rparr>], cq_Temperature = Fin 0,
    cq_MaxTokens = 16, cq_Stream = False\<rparr>"

definition demo_world :: World where
  "demo_world = \<lparr>wd_ctx = (\<lambda>_. None), wd_send = (\<lambda>_. None), wd_now = 0, wd_letters = replicate 12 0\<rparr>"

lemma demo_chat_ok:
  "cq_Model demo_chat \<noteq> []" "cq_Messages demo_chat \<noteq> []" "cq_Messages demo_chat = [\<lparr>mg_Role = ''user'', mg_Content = ''hello''\<rparr>]"
  "\<forall>i. wd_ctx demo_world i = None" "\<forall>i. wd_send demo_world i = None" "max_tokens demo_chat < 2 ^ 59"
  by (simp_all add: demo_chat_def demo_world_def max_tokens_def)

theorem completion_spec_witness:
  "\<exists>resp toks. TinyEngine_Chat (NewTinyEngine 0) demo_world demo_chat = Ok resp
    \<and> us_CompletionTokens (cr_Usage resp) = int (length toks) \<and> 1 \<le> length toks \<and> length toks \<le> 16 \<and> set toks \<subseteq> set tiny_vocab"
proof -
  have "max_tokens demo_chat = 16" by (simp add: demo_chat_def max_tokens_def)
  with completion_spec [OF demo_chat_ok(1,2,4,6), of 0] show ?thesis by auto
qed

end
