(* ===== verification/Inference.thy ===== *)
theory Inference
  imports Llm GoHttp GoJson
begin

text \<open>
  The inference front end, \<^verbatim>\<open>internal/inference/inference.go\<close>: its routes, the decoding of chat requests (a
  message list that is given twice counts as given last), the reply of a completion, server-sent events, and
  the list of models. The clock, the cancellation of the request and whether the connection can flush are
  arguments, and so are the texts of decoding errors and of quoted errors.
\<close>

section \<open>Requests\<close>

record ChatRequestBody =
  cb_Model :: string
  cb_Messages :: "Message list"
  cb_Temperature :: float64
  cb_MaxTokens :: int
  cb_Stream :: bool

definition zero_body :: ChatRequestBody where
  "zero_body = \<lparr>cb_Model = [], cb_Messages = [], cb_Temperature = Fin 0, cb_MaxTokens = 0, cb_Stream = False\<rparr>"

definition zero_message :: Message where
  "zero_message = \<lparr>mg_Role = [], mg_Content = []\<rparr>"

definition message_member :: "Message member_reader" where
  "message_member km acc =
     (case km of (k, x) \<Rightarrow>
        if names_field ''role'' k then read_string (\<lambda>v m. m\<lparr>mg_Role := v\<rparr>) x acc
        else if names_field ''content'' k then read_string (\<lambda>v m. m\<lparr>mg_Content := v\<rparr>) x acc
        else acc)"

definition read_float :: "(float64 \<Rightarrow> 'a \<Rightarrow> 'a) \<Rightarrow> json \<Rightarrow> 'a \<times> bool \<Rightarrow> 'a \<times> bool" where
  "read_float upd x acc =
     (case x of
        JNumber n \<Rightarrow> (case ParseFloat n of Some f \<Rightarrow> (upd f (fst acc), snd acc) | None \<Rightarrow> (fst acc, False))
      | JNull \<Rightarrow> acc
      | _ \<Rightarrow> (fst acc, False))"

text \<open>
  The reader of the body keeps the memory of the slice of messages: a second list of messages is read into it.
\<close>

definition body_member :: "(ChatRequestBody \<times> Message list) member_reader" where
  "body_member km acc =
     (case km of (k, x) \<Rightarrow>
        if names_field ''model'' k then read_string (\<lambda>v. apfst (\<lambda>b. b\<lparr>cb_Model := v\<rparr>)) x acc
        else if names_field ''messages'' k then
          (case read_slice (read_object message_member) zero_message x ((snd (fst acc), 0), snd acc) of
             ((mem, n), good) \<Rightarrow> (((fst (fst acc))\<lparr>cb_Messages := take n mem\<rparr>, mem), good))
        else if names_field ''temperature'' k then read_float (\<lambda>v. apfst (\<lambda>b. b\<lparr>cb_Temperature := v\<rparr>)) x acc
        else if names_field ''max_tokens'' k then read_int64 (\<lambda>v. apfst (\<lambda>b. b\<lparr>cb_MaxTokens := v\<rparr>)) x acc
        else if names_field ''stream'' k then read_bool (\<lambda>v. apfst (\<lambda>b. b\<lparr>cb_Stream := v\<rparr>)) x acc
        else acc)"

definition decode_body :: "bytes \<Rightarrow> ChatRequestBody option" where
  "decode_body b = map_option fst (read_struct body_member (zero_body, []) (json_read b))"

section \<open>Replies\<close>

definition json_int :: "int \<Rightarrow> json" where
  "json_int i = JNumber (FormatInt i)"

definition json_reply :: "json \<Rightarrow> Response" where
  "json_reply j = \<lparr>rp_Code = 200, rp_Type = ''application/json'', rp_Body = json_print j @ [eol]\<rparr>"

definition usage_json :: "Usage \<Rightarrow> json" where
  "usage_json u =
     JObject [(''prompt_tokens'', json_int (us_PromptTokens u)), (''completion_tokens'', json_int (us_CompletionTokens u)),
              (''total_tokens'', json_int (us_TotalTokens u))]"

definition choice_json :: "Choice \<Rightarrow> json" where
  "choice_json c =
     JObject [(''index'', json_int 0),
              (''message'', JObject [(''role'', JString (mg_Role (ch_Message c))), (''content'', JString (mg_Content (ch_Message c)))]),
              (''finish_reason'', JString (ch_FinishReason c))]"

definition chat_json :: "string \<Rightarrow> int \<Rightarrow> string \<Rightarrow> Choice \<Rightarrow> Usage \<Rightarrow> json" where
  "chat_json i created model c u =
     JObject [(''id'', JString i), (''object'', JString ''chat.completion''), (''created'', json_int created),
              (''model'', JString model), (''choices'', JArray [choice_json c]), (''usage'', usage_json u)]"

text \<open>One chunk of a stream; the members of a Go map are written in the order of their names.\<close>

definition chunk_json :: "time \<Rightarrow> time \<Rightarrow> string \<Rightarrow> string \<Rightarrow> json" where
  "chunk_json nano now model tok =
     JObject
       [(''choices'', JArray [JObject [(''delta'', JObject [(''content'', JString tok)]), (''index'', json_int 0)]]),
        (''created'', json_int (time_Unix now)),
        (''id'', JString (''chatcmpl-'' @ FormatInt (i64 (nano - 62135596800 * second)))),
        (''model'', JString model),
        (''object'', JString ''chat.completion.chunk'')]"

record Surroundings =
  sr_World :: World
  sr_now :: time
  sr_nano :: "nat \<Rightarrow> time"
  sr_unix :: "nat \<Rightarrow> time"
  sr_gone :: "nat \<Rightarrow> bool"
  sr_flush :: bool
  sr_DecodeError :: "bytes \<Rightarrow> string"
  sr_quote :: "string \<Rightarrow> string"

definition sse :: "string \<Rightarrow> string" where
  "sse d = ''data: '' @ d @ [eol, eol]"

definition event_stream :: "bytes \<Rightarrow> Response" where
  "event_stream b = \<lparr>rp_Code = 200, rp_Type = ''text/event-stream'', rp_Body = b\<rparr>"

text \<open>The events of the tokens from number \<^verbatim>\<open>i\<close> on; the end mark is not written when the client is gone.\<close>

fun events :: "Surroundings \<Rightarrow> string \<Rightarrow> nat \<Rightarrow> string list \<Rightarrow> bytes" where
  "events S model i [] = sse ''[DONE]''"
| "events S model i (tok # toks) =
     (if sr_gone S i then []
      else sse (json_print (chunk_json (sr_nano S i) (sr_unix S i) model tok)) @ events S model (Suc i) toks)"

section \<open>Handlers\<close>

definition streamChat :: "Surroundings \<Rightarrow> Engine \<Rightarrow> ChatRequest \<Rightarrow> Response outcome" where
  "streamChat S eng req =
     (if \<not> sr_flush S then Ok (http_Error ''streaming unsupported'' 500)
      else case en_Stream eng (sr_World S) req of
             Err e \<Rightarrow>
               Ok (event_stream (''event: error'' @ [eol] @ ''data: '' @ sr_quote S (error_text e) @ [eol, eol]))
           | Panic p \<Rightarrow> Panic p
           | Ok toks \<Rightarrow> Ok (event_stream (events S (cq_Model req) 0 toks)))"

definition llm_request :: "ChatRequestBody \<Rightarrow> ChatRequest" where
  "llm_request body =
     \<lparr>cq_Model = cb_Model body, cq_Messages = cb_Messages body, cq_Temperature = cb_Temperature body,
      cq_MaxTokens = cb_MaxTokens body, cq_Stream = False\<rparr>"

definition handleChat :: "Surroundings \<Rightarrow> Registry \<Rightarrow> Request \<Rightarrow> Response outcome" where
  "handleChat S reg req =
     (case decode_body (rq_Body req) of
        None \<Rightarrow> Ok (http_Error (sr_DecodeError S (rq_Body req)) 400)
      | Some body \<Rightarrow>
          if cb_Model body = [] \<or> cb_Messages body = [] then Ok (http_Error ''model and messages required'' 400)
          else
            let eng = Resolve (sr_now S) (cb_Model body) reg; llmReq = llm_request body
            in if cb_Stream body then streamChat S eng llmReq
               else case en_Chat eng (sr_World S) llmReq of
                      Err e \<Rightarrow> Ok (http_Error (error_text e) 500)
                    | Panic p \<Rightarrow> Panic p
                    | Ok resp \<Rightarrow>
                        (case cr_Choices resp of
                           [] \<Rightarrow> Panic ''index out of range''
                         | c # _ \<Rightarrow>
                             let i0 = ''chatcmpl-'' @ first_value (rq_Header req) ''X-Request-Id'';
                                 i = (if i0 = ''chatcmpl-''
                                      then ''chatcmpl-'' @ FormatInt (i64 (sr_nano S 0 - 62135596800 * second)) else i0)
                             in Ok (json_reply (chat_json i (time_Unix (sr_unix S 0)) (cb_Model body) c (cr_Usage resp)))))"

definition model_json :: "time \<Rightarrow> string \<Rightarrow> json" where
  "model_json now n =
     JObject [(''id'', JString n), (''object'', JString ''model''), (''created'', json_int (time_Unix now)),
              (''owned_by'', JString ''minicloud'')]"

definition handleModels :: "Surroundings \<Rightarrow> Registry \<Rightarrow> Response outcome" where
  "handleModels S reg =
     Ok (json_reply (JObject [(''object'', JString ''list''),
           (''data'', JArray (map (\<lambda>(i, n). model_json (sr_unix S i) n) (List.enumerate 0 (Names reg))))]))"

definition ServeHTTP :: "Surroundings \<Rightarrow> Registry \<Rightarrow> Request \<Rightarrow> Response outcome" where
  "ServeHTTP S reg req =
     (if rq_Path req = ''/v1/models'' \<and> rq_Method req = ''GET'' then handleModels S reg
      else if HasSuffix (rq_Path req) ''/chat/completions'' \<and> rq_Method req = ''POST'' then handleChat S reg req
      else Ok http_NotFound)"

section \<open>Every model is served\<close>

context chat_backend
begin

lemma serves_completion:
  assumes "decode_body (rq_Body req) = Some body" and "cb_Model body \<noteq> []" and "cb_Messages body \<noteq> []"
    and "\<not> cb_Stream body" and "\<And>i. wd_ctx (sr_World S) i = None"
    and "en_Chat (Resolve (sr_now S) (cb_Model body) reg) = chat"
  shows "\<exists>i c u. handleChat S reg req = Ok (json_reply (chat_json i (time_Unix (sr_unix S 0)) (cb_Model body) c u))
    \<and> us_TotalTokens u = i64 (us_PromptTokens u + us_CompletionTokens u)"
proof -
  have "cq_Model (llm_request body) \<noteq> []" "cq_Messages (llm_request body) \<noteq> []" by (simp_all add: llm_request_def assms(2,3))
  from answers [OF this, of "sr_World S"] assms(5) obtain resp where
      r: "chat (sr_World S) (llm_request body) = Ok resp" "cr_Choices resp \<noteq> []"
    and u: "us_TotalTokens (cr_Usage resp) = i64 (us_PromptTokens (cr_Usage resp) + us_CompletionTokens (cr_Usage resp))"
    by blast
  then obtain c cs where "cr_Choices resp = c # cs" by (cases "cr_Choices resp") auto
  with r show ?thesis
    using assms(1-4,6) u by (simp add: handleChat_def Let_def) blast
qed

end

lemma tiny_engine_chat: "en_Chat (tiny_engine now) = TinyEngine_Chat (NewTinyEngine now)"
  by (simp add: tiny_engine_def Let_def)

text \<open>
  Property C34. Every model is served: when the registered engines keep the contract of a backend, a well-formed
  chat request that is not cancelled is answered with 200 and a completion for the model it names, registered
  or not, and the token counts of the reply add up. So the reply that a model was not found never happens.
\<close>

theorem every_model_is_served:
  assumes "\<forall>ne \<in> set (rg_engines reg). chat_backend (en_Chat (snd ne))"
    and "HasSuffix (rq_Path req) ''/chat/completions''" and "rq_Method req = ''POST''"
    and "decode_body (rq_Body req) = Some body" and "cb_Model body \<noteq> []" and "cb_Messages body \<noteq> []"
    and "\<not> cb_Stream body" and "\<forall>i. wd_ctx (sr_World S) i = None"
  shows "\<exists>i c u. ServeHTTP S reg req = Ok (json_reply (chat_json i (time_Unix (sr_unix S 0)) (cb_Model body) c u))
    \<and> us_TotalTokens u = i64 (us_PromptTokens u + us_CompletionTokens u)"
proof -
  have "chat_backend (en_Chat (Resolve (sr_now S) (cb_Model body) reg))"
  proof (cases "mget (rg_engines reg) (cb_Model body)")
    case None
    then show ?thesis by (simp add: Resolve_def tiny_engine_chat tiny.chat_backend_axioms)
  next
    case (Some e)
    from assms(1) mget_Some_in [OF Some] have "chat_backend (en_Chat (snd (cb_Model body, e)))" by (rule bspec)
    with Some show ?thesis by (simp add: Resolve_def)
  qed
  from chat_backend.serves_completion [OF this assms(4-7)] assms(8)
  have "\<exists>i c u. handleChat S reg req = Ok (json_reply (chat_json i (time_Unix (sr_unix S 0)) (cb_Model body) c u))
      \<and> us_TotalTokens u = i64 (us_PromptTokens u + us_CompletionTokens u)" by blast
  then show ?thesis by (simp add: ServeHTTP_def assms(2,3))
qed

section \<open>Streams\<close>



section \<open>A concrete router\<close>

definition demo_registry :: Registry where
  "demo_registry = snd (Register 0 \<lparr>mo_Name = ''echo'', mo_Revision = [], mo_Backend = [], mo_CreatedAt = 0\<rparr> (Some (tiny_engine 0)) NewRegistry)"

definition demo_body :: "bool \<Rightarrow> json" where
  "demo_body b =
     JObject [(''model'', JString ''echo''),
              (''messages'', JArray [JObject [(''role'', JString ''user''), (''content'', JString ''hi'')]]),
              (''stream'', JBool b)]"

definition demo_post :: "bool \<Rightarrow> Request" where
  "demo_post b =
    \<lparr>rq_Method = ''POST'', rq_Path = ''/v1/chat/completions'', rq_Query = [], rq_Header = [], rq_Cookies = [],
     rq_Body = json_print (demo_body b)\<rparr>"

definition demo_surroundings :: Surroundings where
  "demo_surroundings =
    \<lparr>sr_World = demo_world, sr_now = 0, sr_nano = (\<lambda>_. 0), sr_unix = (\<lambda>_. 0), sr_gone = (\<lambda>_. False), sr_flush = True,
     sr_DecodeError = (\<lambda>_. ''bad body''), sr_quote = (\<lambda>s. s)\<rparr>"

definition demo_decoded :: ChatRequestBody where
  "demo_decoded = \<lparr>cb_Model = ''echo'', cb_Messages = [\<lparr>mg_Role = ''user'', mg_Content = ''hi''\<rparr>], cb_Temperature = Fin 0,
    cb_MaxTokens = 0, cb_Stream = False\<rparr>"

lemma demo_decode: "decode_body (rq_Body (demo_post b)) = Some (demo_decoded\<lparr>cb_Stream := b\<rparr>)"
proof -
  have "json_wf (demo_body True)" "json_wf (demo_body False)" by code_simp+
  then have "json_wf (demo_body b)" by (cases b) simp_all
  then have j: "json_read (json_print (demo_body b)) = Some (demo_body b)" by (intro json_read_parse json_parse_print)
  have n: "names_field ''model'' ''model''" "\<not> names_field ''model'' ''messages''" "\<not> names_field ''model'' ''stream''"
      "names_field ''messages'' ''messages''" "\<not> names_field ''messages'' ''stream''" "\<not> names_field ''temperature'' ''stream''"
      "\<not> names_field ''max_tokens'' ''stream''" "names_field ''stream'' ''stream''" "names_field ''role'' ''role''"
      "\<not> names_field ''role'' ''content''" "names_field ''content'' ''content''" by code_simp+
  have "decode_body (rq_Body (demo_post b)) = map_option fst (read_struct body_member (zero_body, []) (Some (demo_body b)))"
    by (simp add: decode_body_def demo_post_def j del: json_print.simps)
  also have "\<dots> = Some (demo_decoded\<lparr>cb_Stream := b\<rparr>)"
    by (simp add: demo_body_def read_struct_def body_member_def n read_string_def read_bool_def read_slice_def read_object_def
        message_member_def zero_message_def zero_body_def demo_decoded_def)
  finally show ?thesis .
qed

lemma demo_routes:
  "HasSuffix (rq_Path (demo_post b)) ''/chat/completions''" "rq_Method (demo_post b) = ''POST''"
  "rq_Path (demo_post b) = rq_Path (demo_post b')"
  by (simp_all add: demo_post_def HasSuffix_def)

lemma demo_engines: "rg_engines demo_registry = [(''echo'', tiny_engine 0)]"
  by (simp add: demo_registry_def Register_def NewRegistry_def mput_def)

theorem every_model_is_served_witness:
  "\<exists>i c u. ServeHTTP demo_surroundings demo_registry (demo_post False)
      = Ok (json_reply (chat_json i (time_Unix 0) ''echo'' c u))
    \<and> us_TotalTokens u = i64 (us_PromptTokens u + us_CompletionTokens u)"
proof -
  have e: "\<forall>ne \<in> set (rg_engines demo_registry). chat_backend (en_Chat (snd ne))"
    by (simp add: demo_engines tiny_engine_chat tiny.chat_backend_axioms)
  have b: "cb_Model (demo_decoded\<lparr>cb_Stream := False\<rparr>) \<noteq> []" "cb_Messages (demo_decoded\<lparr>cb_Stream := False\<rparr>) \<noteq> []"
      "\<not> cb_Stream (demo_decoded\<lparr>cb_Stream := False\<rparr>)" "\<forall>i. wd_ctx (sr_World demo_surroundings) i = None"
    by (simp_all add: demo_decoded_def demo_surroundings_def demo_world_def)
  from every_model_is_served [OF e demo_routes(1,2) demo_decode b] show ?thesis
    by (simp add: demo_decoded_def demo_surroundings_def)
qed


end
