(* ===== verification/CloudApi.thy ===== *)
theory CloudApi
  imports Cloudctl Inference
begin

text \<open>
  The control plane program, \<^verbatim>\<open>cmd/cloudapi/main.go\<close>: the API server and the inference router behind one
  multiplexer, with the two models it registers. \<^verbatim>\<open>cmd/cloudllm\<close> serves the router alone and \<^verbatim>\<open>cmd/cloudinit\<close> has
  the same two front ends. The chat command of the tool is followed through all of them.
\<close>

section \<open>The program\<close>

text \<open>The models, each with its own engine; the two instants of the calls are arguments.\<close>

definition named_model :: "string \<Rightarrow> Model" where
  "named_model n = \<lparr>mo_Name = n, mo_Revision = [], mo_Backend = [], mo_CreatedAt = zero_time\<rparr>"

definition cloudapi_registry :: "time \<Rightarrow> time \<Rightarrow> Registry" where
  "cloudapi_registry t1 t2 =
     snd (Register t2 (named_model ''minicloud'') (Some (tiny_engine t2))
       (snd (Register t1 (named_model ''echo'') (Some (tiny_engine t1)) NewRegistry)))"


definition cloudapi_mux :: "('x, 's) Server \<Rightarrow> Env \<Rightarrow> Surroundings \<Rightarrow> Registry \<Rightarrow> 's handler" where
  "cloudapi_mux A ev S reg r s =
     (if rq_Path r \<in> {''/v1/models'', ''/v1/chat/completions''} then (ServeHTTP S reg r, s) else Routes A ev r s)"

definition serve :: "('x, 's) Server \<Rightarrow> Env \<Rightarrow> Surroundings \<Rightarrow> Registry \<Rightarrow> string \<Rightarrow> 's transport" where
  "serve A ev S reg base verb url hs body s = hang_up (cloudapi_mux A ev S reg (received base verb url hs body) s)"

section \<open>The first session\<close>





section \<open>The messages of a chat\<close>

lemma chat_request_decodes:
  assumes "ascii model" and "ascii prompt"
  shows "decode_body (json_print (map_object
      [(''model'', JString model),
       (''messages'', JArray [map_object [(''role'', JString ''user''), (''content'', JString prompt)]])]))
    = Some \<lparr>cb_Model = model, cb_Messages = [\<lparr>mg_Role = ''user'', mg_Content = prompt\<rparr>], cb_Temperature = Fin 0,
        cb_MaxTokens = 0, cb_Stream = False\<rparr>"
proof -
  let ?j = "JObject [(''messages'', JArray [JObject [(''content'', JString prompt), (''role'', JString ''user'')]]),
    (''model'', JString model)]"
  have o: "map_object [(''model'', JString model),
       (''messages'', JArray [map_object [(''role'', JString ''user''), (''content'', JString prompt)]])] = ?j"
    by (simp add: map_object_def)
  have "ascii ''messages''" "ascii ''content''" "ascii ''role''" "ascii ''user''" "ascii ''model''"
    by (simp_all add: ascii_def byte_val_def)
  then have "json_wf ?j" using assms by simp
  then have j: "json_read (json_print ?j) = Some ?j" by (intro json_read_parse json_parse_print)
  have n: "names_field ''model'' ''model''" "\<not> names_field ''model'' ''messages''" "names_field ''messages'' ''messages''"
      "names_field ''role'' ''role''" "\<not> names_field ''role'' ''content''" "names_field ''content'' ''content''" by code_simp+
  show ?thesis
    by (simp add: o decode_body_def j read_struct_def body_member_def n read_string_def read_slice_def read_object_def
        message_member_def zero_message_def zero_body_def del: json_print.simps)
qed

lemma json_int_wf [simp]: "json_wf (json_int i)"
  using plain_int_digits by (simp add: json_int_def FormatInt_def)

lemma ascii_FormatInt: "ascii (FormatInt i)"
proof -
  have "list_all is_digit (digits n)" for n using plain_int_digits [of n] by (simp add: plain_int_def)
  moreover have "is_digit c \<Longrightarrow> byte_val c < 128" for c by (auto simp: is_digit_def byte_val_def)
  ultimately have "ascii (digits n)" for n by (auto simp: ascii_def list_all_iff)
  then show ?thesis by (simp add: FormatInt_def ascii_def byte_val_def)
qed

lemma chat_reply_read:
  assumes "ascii i" and "ascii model" and "ascii (mg_Role (ch_Message c))" and "ascii (mg_Content (ch_Message c))"
    and "ascii (ch_FinishReason c)"
  shows "reply_choices (rp_Body (json_reply (chat_json i created model c u))) = Some [mg_Content (ch_Message c)]"
proof -
  have "ascii ''id''" "ascii ''object''" "ascii ''chat.completion''" "ascii ''created''" "ascii ''model''" "ascii ''choices''"
      "ascii ''usage''" "ascii ''index''" "ascii ''message''" "ascii ''role''" "ascii ''content''" "ascii ''finish_reason''"
      "ascii ''prompt_tokens''" "ascii ''completion_tokens''" "ascii ''total_tokens''"
    by (simp_all add: ascii_def byte_val_def)
  then have "json_wf (chat_json i created model c u)" using assms by (simp add: chat_json_def choice_json_def usage_json_def)
  then have "json_parse (rp_Body (json_reply (chat_json i created model c u))) = Some (chat_json i created model c u)"
    by (simp add: json_reply_def eol_def json_parse_line)
  moreover have "\<not> names_field ''choices'' ''id''" "\<not> names_field ''choices'' ''object''" "\<not> names_field ''choices'' ''created''"
      "\<not> names_field ''choices'' ''model''" "names_field ''choices'' ''choices''" "\<not> names_field ''choices'' ''usage''"
      "\<not> names_field ''message'' ''index''" "names_field ''message'' ''message''" "\<not> names_field ''message'' ''finish_reason''"
      "\<not> names_field ''content'' ''role''" "names_field ''content'' ''content''" by code_simp+
  ultimately show ?thesis
    by (simp add: reply_choices_def read_struct_def choices_member_def chat_json_def choice_json_def read_slice_def read_object_def
        choice_member_def content_member_def read_string_def slice_list_def)
qed

lemma ascii_answer: "ascii (Join (engine_answer req prompt) '' '')"
proof -
  have "ascii w" if "word w" for w
    using that by (auto simp: word_def graphic_def ascii_def list_all_iff byte_val_def)
  then have "list_all ascii (engine_answer req prompt)"
    using engine_words(1) [of req prompt] by (auto simp: list_all_iff)
  moreover have "list_all ascii ws \<Longrightarrow> ascii (Join ws '' '')" for ws
    by (induction ws "'' '' :: string" rule: Join.induct) (simp_all add: ascii_def byte_val_def)
  ultimately show ?thesis by blast
qed

lemma cloudapi_engines:
  "\<exists>t. Resolve now model (cloudapi_registry t1 t2) = tiny_engine t"
  by (auto simp: Resolve_def cloudapi_registry_def Register_def named_model_def NewRegistry_def mget_def mput_def)

definition chat_body :: "string \<Rightarrow> string \<Rightarrow> ChatRequestBody" where
  "chat_body model prompt =
     \<lparr>cb_Model = model, cb_Messages = [\<lparr>mg_Role = ''user'', mg_Content = prompt\<rparr>], cb_Temperature = Fin 0,
      cb_MaxTokens = 0, cb_Stream = False\<rparr>"

text \<open>What the router answers to the chat request of the tool, over the connection.\<close>

lemma serve_chat:
  assumes "ascii model" and "model \<noteq> []" and "ascii prompt" and "\<And>i. wd_ctx (sr_World S) i = None"
    and "first_value hs ''X-Request-Id'' = []"
  shows "\<exists>r. serve A ev S (cloudapi_registry t1 t2) base ''POST'' (base @ ''/v1/chat/completions'') hs
        (json_print (map_object
           [(''model'', JString model),
            (''messages'', JArray [map_object [(''role'', JString ''user''), (''content'', JString prompt)]])])) s = (Ok r, s)
    \<and> reply_choices (rp_Body r) = Some [Join (engine_answer (llm_request (chat_body model prompt)) prompt) '' '']"
    (is "\<exists>r. serve _ _ _ _ _ _ _ _ ?j s = _ \<and> _")
proof -
  let ?q = "llm_request (chat_body model prompt)" and ?W = "sr_World S" and ?reg = "cloudapi_registry t1 t2"
  let ?r = "received base ''POST'' (base @ ''/v1/chat/completions'') hs ?j"
  have r: "?r = \<lparr>rq_Method = ''POST'', rq_Path = ''/v1/chat/completions'', rq_Query = [], rq_Header = hs, rq_Cookies = [], rq_Body = ?j\<rparr>"
    by (rule received_plain) simp
  have d: "decode_body ?j = Some (chat_body model prompt)"
    unfolding chat_body_def by (rule chat_request_decodes [OF assms(1,3)])
  obtain t where e: "Resolve (sr_now S) model ?reg = tiny_engine t" using cloudapi_engines by blast
  have n: "cq_Model ?q \<noteq> []" "cq_Messages ?q \<noteq> []" "chat_prompt (cq_Messages ?q) = prompt"
    using assms(2) by (simp_all add: llm_request_def chat_body_def chat_prompt_def)
  obtain resp c where c: "TinyEngine_Chat (NewTinyEngine t) ?W ?q = Ok resp" "cr_Choices resp = [c]"
      "ch_Message c = \<lparr>mg_Role = ''assistant'', mg_Content = Join (engine_answer ?q prompt) '' ''\<rparr>"
      "ch_FinishReason c \<in> {''length'', ''stop''}"
    using chat_response [OF n(1,2) assms(4), of t] by (auto simp: n(3))
  define i where "i = ''chatcmpl-'' @ FormatInt (i64 (sr_nano S 0 - 62135596800 * second))"
  have "handleChat S ?reg ?r = Ok (json_reply (chat_json i (time_Unix (sr_unix S 0)) model c (cr_Usage resp)))"
    using assms(2) by (simp add: r handleChat_def d chat_body_def [of model prompt] e tiny_engine_chat assms(5) i_def Let_def
        c(1,2) [unfolded chat_body_def] del: json_print.simps)
  then have "serve A ev S ?reg base ''POST'' (base @ ''/v1/chat/completions'') hs ?j s
      = (Ok (json_reply (chat_json i (time_Unix (sr_unix S 0)) model c (cr_Usage resp))), s)"
    by (simp add: serve_def cloudapi_mux_def r ServeHTTP_def HasSuffix_def hang_up_def del: json_print.simps)
  moreover have "ascii ''chatcmpl-''" "ascii ''assistant''" "ascii ''length''" "ascii ''stop''"
    by (simp_all add: ascii_def byte_val_def)
  then have "ascii i" "ascii (mg_Role (ch_Message c))" "ascii (mg_Content (ch_Message c))" "ascii (ch_FinishReason c)"
    using ascii_FormatInt c(3,4) ascii_answer by (auto simp: i_def ascii_def)
  from chat_reply_read [OF this(1) assms(1) this(2-4)]
  have "reply_choices (rp_Body (json_reply (chat_json i (time_Unix (sr_unix S 0)) model c (cr_Usage resp))))
      = Some [Join (engine_answer ?q prompt) '' '']" by (simp add: c(3))
  ultimately show ?thesis by (intro exI conjI)
qed

section \<open>A chat from end to end\<close>

lemma chat_arguments:
  assumes "flag_arg prompt = Plain"
  shows "Parse (NewFlagSet [(''model'', FString ''echo'')]) [''--model='' @ model, prompt]
    = Parsed \<lparr>fs_formal = [(''model'', FString model)], fs_args = [prompt]\<rparr>"
proof -
  let ?f = "NewFlagSet [(''model'', FString ''echo'')]"
  have a: "flag_arg (''--model='' @ model) = Flag ''model'' (Some model)" by (simp add: flag_arg_def SplitN2_def)
  have m: "mget (fs_formal ?f) ''model'' = Some (FString ''echo'')" by (simp add: NewFlagSet_def mget_def)
  show ?thesis
    by (simp only: Parse_flags [OF a m] Parse_plain [OF assms]) (simp add: NewFlagSet_def mput_def)
qed

lemma no_request_id: "first_value (bearer_header c @ json_content) ''X-Request-Id'' = []"
  by (simp add: bearer_header_def json_content_def first_value_def mget_def)

end
