(* ===== verification/Programs.thy ===== *)
theory Programs
  imports CloudApi Controller NodeAgent LeaderElection
begin

text \<open>
  The programs around the controller and the node agent, \<^verbatim>\<open>cmd/cloudcontroller\<close>, \<^verbatim>\<open>cmd/cloudnode\<close> and
  \<^verbatim>\<open>cmd/cloudinit\<close>: how they configure the components and what they pass to them. Opening the store, reading the
  command line and the waits between two rounds are not part of the model; the store is the argument that the
  components have, so the programs share it here.
\<close>

section \<open>The controller\<close>

definition cloudcontroller_election :: "string \<Rightarrow> Election" where
  "cloudcontroller_election nodeID =
     NewElection \<lparr>lc_NodeID = nodeID, lc_Group = ''controller'', lc_TTL = 5 * second, lc_Heartbeat = 1500 * millisecond\<rparr>"

text \<open>A round of the controller: it has no notifier, and an election.\<close>

definition cloudcontroller_wake :: "'s ClusterStore \<Rightarrow> Election \<Rightarrow> 's \<Rightarrow> 's" where
  "cloudcontroller_wake S e s = controller_wake S None (Some (IsLeader e)) s"

section \<open>The node\<close>

text \<open>The agent has no function that applies a placement, and its collector reports nothing but zeros.\<close>

definition cloudnode_agent :: "string \<Rightarrow> string \<Rightarrow> Agent" where
  "cloudnode_agent nodeID ad = \<lparr>ag_NodeID = nodeID, ag_Address = ad, ag_draining = False\<rparr>"

definition cloudnode_collector :: StaticCollector where
  "cloudnode_collector = \<lparr>st_NodeID = [], st_Address = [], st_CPU = 0, st_Mem = 0, st_Disk = 0, st_GPU = 0\<rparr>"

definition cloudnode_tick ::
  "'s ClusterStore \<Rightarrow> string \<Rightarrow> string \<Rightarrow> time \<Rightarrow> 's \<times> Fake \<Rightarrow> unit outcome \<times> 's \<times> Fake" where
  "cloudnode_tick S nodeID ad now st =
     agent_tick S (fake_runtime now) None (cloudnode_agent nodeID ad) (Collect now cloudnode_collector) st"

section \<open>The single node program\<close>

definition cloudinit_election :: Election where
  "cloudinit_election =
     NewElection \<lparr>lc_NodeID = ''init-1'', lc_Group = ''controller'', lc_TTL = 5 * second, lc_Heartbeat = 1500 * millisecond\<rparr>"

text \<open>The dashboard, a file server over embedded pages, is an argument.\<close>

definition cloudinit_mux ::
  "('x, 's) Server \<Rightarrow> Env \<Rightarrow> Surroundings \<Rightarrow> Registry \<Rightarrow> (Request \<Rightarrow> Response) \<Rightarrow> 's handler" where
  "cloudinit_mux A ev S reg dashboard r s =
     (if rq_Path r \<in> {''/v1/models'', ''/v1/chat/completions''} then (ServeHTTP S reg r, s)
      else if rq_Path r = ''/dashboard'' \<or> HasPrefix (rq_Path r) ''/dashboard/'' then (Ok (dashboard r), s)
      else Routes A ev r s)"

section \<open>The platform at work\<close>

text \<open>
  A store, and the container runtime of one node. Controllers, nodes and clients take turns in any order; what
  a client or another node does to the store is arbitrary. A node that stops starts again with an empty
  runtime.
\<close>

inductive platform_step :: "'s ClusterStore \<Rightarrow> 's \<times> Fake \<Rightarrow> 's \<times> Fake \<Rightarrow> bool" for S where
  controller: "platform_step S (s, r) (cloudcontroller_wake S e s, r)"
| node: "cloudnode_tick S nodeID ad now (s, r) = (res, st') \<Longrightarrow> platform_step S (s, r) st'"
| clients: "platform_step S (s, r) (s', r)"
| restart: "platform_step S (s, r) (s, New_Fake)"

inductive platform_reach :: "'s ClusterStore \<Rightarrow> 's \<times> Fake \<Rightarrow> bool" for S where
  start: "platform_reach S (s, New_Fake)"
| step: "platform_reach S st \<Longrightarrow> platform_step S st st' \<Longrightarrow> platform_reach S st'"

text \<open>Without a function that applies placements an agent only collects what it wants.\<close>

lemma want_placements_None: "\<exists>want'. want_placements node None w pls (want, st) = (Ok (), want', st)"
  by (induction pls arbitrary: want) simp_all

lemma want_workloads_None: "\<exists>res want'. want_workloads S node None ws (want, st) = (res, want', st)"
proof (induction ws arbitrary: want)
  case (Cons w ws)
  show ?case
  proof (cases "cs_GetPlacements S (w_ID w) (fst st)")
    case (Ok pls)
    obtain want1 where "want_placements node None w pls (want, st) = (Ok (), want1, st)"
      using want_placements_None by blast
    with Cons [of want1] Ok show ?thesis by simp
  qed (use Cons in simp_all)
qed simp

lemma want_projects_None: "\<exists>res want'. want_projects S node None ps (want, st) = (res, want', st)"
proof (induction ps arbitrary: want)
  case (Cons p ps)
  obtain res want1 where w: "want_workloads S node None (or_nil (cs_ListWorkloads S (p_ID p) (fst st))) (want, st) = (res, want1, st)"
    using want_workloads_None by blast
  with Cons [of want1] show ?case
    by (cases "cs_ListWorkloads S (p_ID p) (fst st)"; cases res) simp_all
qed simp

lemma reconcile_empty:
  "\<exists>res. reconcileOnce S (fake_runtime now) None a (s, New_Fake) = (res, (s, New_Fake))"
proof (cases "cs_ListProjects S s")
  case (Ok ps)
  obtain res want where "want_projects S (ag_NodeID a) None ps ([], (s, New_Fake)) = (res, want, (s, New_Fake))"
    using want_projects_None by blast
  with Ok show ?thesis
    by (cases res) (simp_all add: reconcileOnce_def fake_runtime_def fake_List_def New_Fake_def or_nil_def)
qed (simp_all add: reconcileOnce_def)

lemma tick_empty: "cloudnode_tick S nodeID ad now (s, New_Fake) = (res, st') \<Longrightarrow> snd st' = New_Fake"
proof -
  assume "cloudnode_tick S nodeID ad now (s, New_Fake) = (res, st')"
  moreover have "snd (snd (reconcileOnce S (fake_runtime now) None a (s', New_Fake))) = New_Fake" for a s'
    using reconcile_empty [of S now a s'] by (metis snd_conv)
  ultimately show ?thesis
    by (auto simp: cloudnode_tick_def agent_tick_def split: prod.splits outcome.splits) (metis snd_conv)
qed

text \<open>
  Property C17. The platform as its programs put it together never runs a container: whatever the controllers, the
  nodes and the clients do and in whatever order, the runtime of a node stays empty. The controller has
  no notifier and the agent no function that applies a placement, so stored placements are never acted upon.
\<close>

theorem no_container_is_ever_created:
  assumes "platform_reach S (s, r)"
  shows "rt_List (fake_runtime now) True r = Ok [] \<and> (\<forall>i. rt_Get (fake_runtime now) i r = Err RtErrNotFound)"
proof -
  have "snd st = New_Fake" if "platform_reach S st" for st
    using that
  proof (induction rule: platform_reach.induct)
    case (step st st')
    from step.hyps(2) step.IH show ?case
      by (cases rule: platform_step.cases) (auto dest: tick_empty)
  qed simp
  from this [OF assms] show ?thesis
    by (simp add: fake_runtime_def fake_List_def fake_Get_def New_Fake_def)
qed

text \<open>
  And a workload that wants replicas is never reported as available: without a notifier no replica counts as
  ready.
\<close>

lemma notify_None: "notify_all None w ps k s = (k, s)"
  by (induction ps) simp_all

lemma never_available:
  assumes "0 < w_Replicas w"
  shows "(\<exists>ps. snd (reconcileWorkload S None w s) \<in> {s, snd (cs_SetPlacements S (w_ID w) ps s)})
    \<or> (\<exists>w' s1. \<not> ws_Available (w_Status w') \<and> snd (reconcileWorkload S None w s) = snd (cs_UpdateWorkload S w' s1))"
proof -
  have u: "\<not> ws_Available (w_Status (update_ready w 0))" "\<not> ws_Available (w_Status (update_unscheduled w d))" for d
    using assms by (simp_all add: update_ready_def update_unscheduled_def i32_def)
  show ?thesis
  proof (cases "Plan S w s")
    case (Ok d)
    show ?thesis
    proof (cases "d_Unscheduled d \<noteq> [] \<and> d_Placements d = []")
      case True
      then have "snd (reconcileWorkload S None w s) = snd (cs_UpdateWorkload S (update_unscheduled w d) s)"
        using Ok by (simp add: reconcileWorkload_def)
      with u(2) show ?thesis by blast
    next
      case False
      let ?ps = "map (controller_placement w) (d_Placements d)"
      obtain r1 s1 where p: "cs_SetPlacements S (w_ID w) ?ps s = (r1, s1)" by fastforce
      show ?thesis
      proof (cases r1)
        case (Ok _)
        with \<open>Plan S w s = Ok d\<close> False p have "reconcileWorkload S None w s = cs_UpdateWorkload S (update_ready w 0) s1"
          by (auto simp: reconcileWorkload_def notify_None Let_def)
        with u(1) show ?thesis by metis
      next
        case (Err e)
        with \<open>Plan S w s = Ok d\<close> False p have "snd (reconcileWorkload S None w s) = snd (cs_SetPlacements S (w_ID w) ?ps s)"
          by (auto simp: reconcileWorkload_def Let_def)
        then show ?thesis by blast
      next
        case (Panic e)
        with \<open>Plan S w s = Ok d\<close> False p have "snd (reconcileWorkload S None w s) = snd (cs_SetPlacements S (w_ID w) ?ps s)"
          by (auto simp: reconcileWorkload_def Let_def)
        then show ?thesis by blast
      qed
    qed
  qed (simp_all add: reconcileWorkload_def)
qed

section \<open>A concrete platform\<close>

definition demo_platform :: "demo_state ClusterStore" where
  "demo_platform =
     (demo_cluster [demo_node ''n1'' 3500 1024])
       \<lparr>cs_ListProjects := (\<lambda>_. Ok [\<lparr>p_ID = ''p'', p_Name = [], p_Description = [], p_QuotaCPU = 0, p_QuotaMem = 0, p_QuotaObj = 0\<rparr>]),
        cs_ListWorkloads := (\<lambda>_ _. Ok [demo_workload 2 1000 512 []])\<rparr>"

theorem no_container_is_ever_created_witness:
  "\<exists>s ps. platform_reach demo_platform (s, New_Fake) \<and> cs_GetPlacements demo_platform ''web'' s = Ok ps \<and> ps \<noteq> []
    \<and> rt_List (fake_runtime 0) True New_Fake = Ok []"
proof -
  let ?w = "demo_workload 2 1000 512 []" and ?e = "cloudinit_election\<lparr>el_state := Leader\<rparr>"
  have pl: "Plan demo_platform w s = Plan (demo_cluster [demo_node ''n1'' 3500 1024]) w s" for w s
    by (simp add: Plan_def demo_platform_def)
  from demo_plan [of "[]"] obtain d where d: "Plan demo_platform ?w [] = Ok d" "map pc_NodeID (d_Placements d) = [''n1'', ''n1'']"
    unfolding pl by (elim exE conjE)
  then have ne: "d_Placements d \<noteq> []" by auto
  have ps: "placement_store demo_platform None"
    using demo_placement_store by (simp add: placement_store_def demo_platform_def demo_cluster_def)
  let ?s = "cloudcontroller_wake demo_platform ?e []"
  have "?s = snd (reconcileWorkload demo_platform None ?w [])"
    by (simp add: cloudcontroller_wake_def controller_wake_def IsLeader_def reconcileAll_def)
       (simp add: demo_platform_def)
  with reconcile_stores [OF ps d(1)] ne have "\<exists>pls. cs_GetPlacements demo_platform (w_ID ?w) ?s = Ok pls \<and> pls \<noteq> []" by auto
  moreover have "w_ID ?w = ''web''" by (simp add: demo_workload_def)
  ultimately obtain pls where p: "cs_GetPlacements demo_platform ''web'' ?s = Ok pls" "pls \<noteq> []" by auto
  have r: "platform_reach demo_platform (?s, New_Fake)"
    by (rule platform_reach.step [OF platform_reach.start platform_step.controller])
  from no_container_is_ever_created [OF r, of 0] p r show ?thesis by blast
qed

end
