(* ===== verification/Spec2Isabelle.thy ===== *)
theory Spec2Isabelle
  imports RaftSteps LeaderRaft MessageQueue Controller Dns LoadBalancer Autoscale NodeAgent ObjectStore VolumeManager
    EnvResolver Retry Alerts Cni DnsServe Exposition Programs
begin

text \<open>
  Verification of the minicloud platform, a small container platform written in Go (the module under
  \<^verbatim>\<open>src/\<close>).

  \<^bold>\<open>The program.\<close> Desired state (users, projects, workloads, nodes, placements, DNS records) lives in a
  replicated key-value store. One controller, chosen by leader election over that store, plans each
  workload with the scheduler and stores its placements; a node agent on every node reports its
  resources, compares its containers with the placements and drives the container runtime. The
  autoscaler changes replica counts from the metrics registry, alert rules watch the same metrics. A load
  balancer and a DNS server read services, placements and records from the store. Objects, volumes and
  secrets are kept in files and in the store. The control plane program serves the HTTP API, which
  authenticates every call with the identity service, and a chat interface to a small language model; the
  Go client and the command line tool are its users. A message queue connects producers and consumer groups.

  \<^bold>\<open>Conventions.\<close> Go functions are HOL functions of the same name where the name is free. A result is an
  \<^verbatim>\<open>outcome\<close>: a value, an error or a panic; an operation that changes state returns the new state beside it.
  Readings of the clock, random bytes and the outcome of I/O are arguments. Maps are association lists
  whose order is the order of iteration. \<^verbatim>\<open>internal/state\<close> is not part of the repository: its resources are
  records (\<^verbatim>\<open>StateTypes\<close>) and its store is a record of operations; what a property needs of it is a
  named predicate (\<^verbatim>\<open>placement_store\<close>, \<^verbatim>\<open>user_store\<close>, \<^verbatim>\<open>key_store\<close>, \<^verbatim>\<open>dns_store\<close>, \<^verbatim>\<open>node_store\<close>, \<^verbatim>\<open>meta_store\<close>,
  \<^verbatim>\<open>volume_store\<close>), shown to hold of a concrete store in the property's witness. bcrypt is treated in the same way
  (\<^verbatim>\<open>bcrypt_spec\<close>).

  \<^bold>\<open>The library.\<close>
  \<^item> \<^verbatim>\<open>GoPrelude\<close>, \<^verbatim>\<open>GoText\<close>, \<^verbatim>\<open>GoScan\<close>, \<^verbatim>\<open>GoJson\<close>, \<^verbatim>\<open>GoAny\<close>, \<^verbatim>\<open>GoTime\<close>, \<^verbatim>\<open>GoFloat\<close>, \<^verbatim>\<open>GoCrypto\<close>, \<^verbatim>\<open>GoAes\<close>, \<^verbatim>\<open>GoNet\<close>, \<^verbatim>\<open>GoUrl\<close>,
    \<^verbatim>\<open>GoHttp\<close>, \<^verbatim>\<open>GoFile\<close>, \<^verbatim>\<open>GoFlag\<close>: the parts of the language and of its standard library that the code uses, computed:
    integers with wrap-around, maps, string functions, decimal, hexadecimal and base64 text, JSON, RFC 3339
    times, float64 arithmetic and its decimal text, SHA-256, HMAC and AES-GCM, IP addresses, query strings,
    HTTP messages, a tree of files and the flag parser. The encodings come with their round trips.
  \<^item> \<^verbatim>\<open>KvApi\<close>, \<^verbatim>\<open>RaftKv\<close>, \<^verbatim>\<open>RaftSteps\<close>: \<^verbatim>\<open>internal/primitives/db\<close>. The interface \<^verbatim>\<open>KV\<close> is a record of operations and
    its contract the locale \<^verbatim>\<open>kv_contract\<close>; the Raft-like store is interpreted as one. The properties are the
    refinement of a versioned map, recovery from journal and snapshot, quorums, watches and listings,
    the invariant of every reachable state, and what overlapping calls can do.
  \<^item> \<^verbatim>\<open>LeaderElection\<close>, \<^verbatim>\<open>LeaderRaft\<close>: \<^verbatim>\<open>internal/util/leader\<close>. The election is proved over the contract (the locale
    \<^verbatim>\<open>election_store\<close>) and instantiated on the store of \<^verbatim>\<open>RaftKv\<close>.
  \<^item> \<^verbatim>\<open>MessageQueue\<close>: \<^verbatim>\<open>internal/primitives/mq\<close>. Delivery, retries and dead letters of the broker: draining, the
    accounting invariant under every interleaving, and publishing.
  \<^item> \<^verbatim>\<open>Scheduler\<close>, \<^verbatim>\<open>Controller\<close>: \<^verbatim>\<open>internal/scheduler\<close>, \<^verbatim>\<open>internal/controller\<close>. The placement loop equals a closed form,
    plans respect the filters and limits, reconciling is idempotent.
  \<^item> \<^verbatim>\<open>ContainerRuntime\<close>, \<^verbatim>\<open>NodeAgent\<close>: \<^verbatim>\<open>internal/primitives/runtime\<close>, \<^verbatim>\<open>internal/nodeagent\<close>. The runtime's laws are the
    locale \<^verbatim>\<open>container_runtime\<close>, interpreted on the in-memory runtime; the agent's pass converges over it, and a
    drained node gets no replica from the scheduler.
  \<^item> \<^verbatim>\<open>Observability\<close>, \<^verbatim>\<open>Exposition\<close>, \<^verbatim>\<open>Alerts\<close>, \<^verbatim>\<open>Autoscale\<close>: \<^verbatim>\<open>internal/primitives/obs\<close>, \<^verbatim>\<open>internal/autoscale\<close>. The log ring equals a list,
    metrics read as last set and a histogram is written out with the counts of its observations; an alert fires exactly when its condition has held for its time; replica counts
    stay in their bounds and reach the maximum under load.
  \<^item> \<^verbatim>\<open>Identity\<close>, \<^verbatim>\<open>ApiServer\<close>: \<^verbatim>\<open>internal/identity\<close>, \<^verbatim>\<open>internal/apis/v1\<close>. Accounts, signed tokens, API keys and permissions;
    every handler and the routing. Only administrators change the state, an account works over HTTP, and an
    API key does not.
  \<^item> \<^verbatim>\<open>ObjectStore\<close>, \<^verbatim>\<open>VolumeManager\<close>, \<^verbatim>\<open>SecretCipher\<close>, \<^verbatim>\<open>EnvResolver\<close>: \<^verbatim>\<open>internal/storage\<close>, \<^verbatim>\<open>internal/secret\<close>, \<^verbatim>\<open>internal/config\<close>.
    Objects refine a map from bucket and key to bytes (the locale \<^verbatim>\<open>named_files\<close>, interpreted on both stores),
    signed URLs, snapshots, sealed secrets and the layers of an environment.
  \<^item> \<^verbatim>\<open>Llm\<close>, \<^verbatim>\<open>Inference\<close>: \<^verbatim>\<open>internal/primitives/llm\<close>, \<^verbatim>\<open>internal/inference\<close>. What the engine says, that every model is
    served (over the locale \<^verbatim>\<open>chat_backend\<close>), and that a stream says what the completion says.
  \<^item> \<^verbatim>\<open>Dns\<close>, \<^verbatim>\<open>DnsServe\<close>, \<^verbatim>\<open>LoadBalancer\<close>, \<^verbatim>\<open>Cni\<close>, \<^verbatim>\<open>Retry\<close>: \<^verbatim>\<open>internal/dns\<close>, \<^verbatim>\<open>internal/lb\<close>, \<^verbatim>\<open>internal/network/cni\<close>, \<^verbatim>\<open>internal/util/retry\<close>. Names on
    the wire, the zone, answers, and the running server as a step relation over datagrams, connections,
    refreshes of the zone and changes of the store; selection, health checks and connection counting over an explicit heap of
    backend arrays; the commands of the network plugin; attempts and delays of a retry.
  \<^item> \<^verbatim>\<open>Sdk\<close>, \<^verbatim>\<open>Cloudctl\<close>, \<^verbatim>\<open>CloudApi\<close>: \<^verbatim>\<open>pkg/sdk/go\<close>, \<^verbatim>\<open>cmd/cloudctl\<close>, \<^verbatim>\<open>cmd/cloudapi\<close>. The first session
    of the bootstrapped administrator with the started control plane, what a command of the tool sends, and that the
    tool as it is never runs one; below, a chat from the command line through the control plane and back.
  \<^item> \<^verbatim>\<open>Programs\<close>: \<^verbatim>\<open>cmd/cloudcontroller\<close>, \<^verbatim>\<open>cmd/cloudnode\<close>, \<^verbatim>\<open>cmd/cloudinit\<close>. What each program starts with and does at a
    tick, and the platform they make up as a step relation; no step of it creates a container.

  \<^bold>\<open>Termination and bounds.\<close> Every function is total except \<^verbatim>\<open>read_name\<close> in \<^verbatim>\<open>Dns\<close>, which is a
  \<^verbatim>\<open>partial_function\<close> because the code recurses without a bound; that it returns is proved for messages without
  pointers, that it does not for a pointer loop. Two functions have fuel: the JSON scanner, whose fuel is
  the length of its input and is enough for everything it reads back, and the count of zeros behind the
  decimal point of a number, for which 400 is more than any float64 has.

  \<^bold>\<open>Not modelled.\<close> Sockets and tickers themselves (their events are the steps of the relations) and the accept loop
  of the load balancer; the other programs under \<^verbatim>\<open>cmd/\<close> and those under \<^verbatim>\<open>examples/\<close>, which only parse flags and
  wire components; the table of printable Unicode characters, an argument of \<^verbatim>\<open>Quote\<close>; the generated protobuf code; the
  embedded dashboard page; the messages that the flag package prints. Strings that are compared or written as
  JSON outside ASCII follow the UTF-8 rules, but the round trips are stated for ASCII. The sign of a
  floating-point zero is not kept.
\<close>

section \<open>A chat from end to end\<close>

text \<open>
  Property C36. A chat from end to end: the chat command of the tool, with a model and a prompt of ASCII characters,
  against the control plane prints one line, the answer of the engine to the prompt, with or without a token and
  for every name of a model; the request is encoded, routed, decoded and answered, the reply is read, and
  the state stays as it is.
\<close>

theorem chat_end_to_end:
  assumes "ascii model" and "model \<noteq> []" and "ascii prompt" and "prompt \<noteq> []" and "flag_arg prompt = Plain"
    and "\<forall>i. wd_ctx (sr_World S) i = None"
  shows "run_command (serve A ev S (cloudapi_registry t1 t2) base) \<lparr>ct_apiURL = base, ct_token = tok\<rparr>
      ''chat'' [''--model='' @ model, prompt] s
    = (Returns, [Stdout (Join (engine_answer (llm_request (chat_body model prompt)) prompt) '' '')], s)"
proof -
  let ?c = "\<lparr>ct_apiURL = base, ct_token = tok\<rparr>" and ?http = "serve A ev S (cloudapi_registry t1 t2) base"
  have "run_command ?http ?c ''chat'' [''--model='' @ model, prompt] = chatCmd ?http ?c [''--model='' @ model, prompt]"
    by (simp add: run_command_def)
  also have "\<dots> = request ?http ''POST'' (base @ ''/v1/chat/completions'') (bearer_header ?c @ json_content)
      (json_print (map_object
         [(''model'', JString model),
          (''messages'', JArray [map_object [(''role'', JString ''user''), (''content'', JString prompt)]])]))
      (\<lambda>e. prints (Stderr e))
      (\<lambda>status b s. (Returns, (case reply_choices b of None \<Rightarrow> [Stdout b] | Some cs \<Rightarrow> map Stdout cs), s))"
    unfolding chatCmd_def with_flags_def chat_arguments [OF assms(5)]
    using assms(4) by (simp add: Let_def string_flag_def mget_def)
  finally have "run_command ?http ?c ''chat'' [''--model='' @ model, prompt] = \<dots>" .
  moreover obtain r where "?http ''POST'' (base @ ''/v1/chat/completions'') (bearer_header ?c @ json_content)
      (json_print (map_object
         [(''model'', JString model),
          (''messages'', JArray [map_object [(''role'', JString ''user''), (''content'', JString prompt)]])])) s = (Ok r, s)"
    and "reply_choices (rp_Body r) = Some [Join (engine_answer (llm_request (chat_body model prompt)) prompt) '' '']"
    using serve_chat [OF assms(1-3) assms(6) [rule_format] no_request_id, of A ev t1 t2 base ?c s] by (elim exE conjE)
  ultimately show ?thesis by (simp add: request_def)
qed

theorem chat_end_to_end_witness:
  "\<exists>answer. run_command (serve demo_server (demo_env 0) demo_surroundings (cloudapi_registry 0 0) ''http://api'')
      \<lparr>ct_apiURL = ''http://api'', ct_token = []\<rparr> ''chat'' [''--model=echo'', ''hi''] ([demo_root], [])
    = (Returns, [Stdout (Join answer '' '')], ([demo_root], [])) \<and> answer \<noteq> []"
proof -
  have a: "ascii ''echo''" "''echo'' \<noteq> []" "ascii ''hi''" "''hi'' \<noteq> []" by (simp_all add: ascii_def byte_val_def)
  have f: "flag_arg ''hi'' = Plain" by (simp add: flag_arg_def)
  have w: "\<forall>i. wd_ctx (sr_World demo_surroundings) i = None" by (simp add: demo_surroundings_def demo_world_def)
  from chat_end_to_end [OF a f w, of demo_server "demo_env 0" 0 0 "''http://api''" "[]" "([demo_root], [])"]
  show ?thesis using engine_words(3) by auto
qed

end
